theory Spec2Isabelle
  imports Main
begin

section \<open>Machine integers of the Go source\<close>

text \<open>
  The wallet computes with \<open>int32\<close> (block heights, confirmation counts), \<open>int64\<close>
  (\<open>coinutil.Amount\<close>, satoshi values) and \<open>int\<close> (sizes and slice lengths; 64 bits on
  the platforms the wallet is built for). They are modelled as mathematical integers with
  the two's complement wrap-around of every arithmetic result written out.
\<close>

definition wrap32 :: "int \<Rightarrow> int" where
  "wrap32 x = (x + 2147483648) mod 4294967296 - 2147483648"

definition wrap64 :: "int \<Rightarrow> int" where
  "wrap64 x = (x + 9223372036854775808) mod 18446744073709551616 - 9223372036854775808"

definition int32 :: "int \<Rightarrow> bool" where
  "int32 x = (- 2147483648 \<le> x \<and> x < 2147483648)"

definition int64 :: "int \<Rightarrow> bool" where
  "int64 x = (- 9223372036854775808 \<le> x \<and> x < 9223372036854775808)"

definition add32 :: "int \<Rightarrow> int \<Rightarrow> int" where
  "add32 a b = wrap32 (a + b)"

definition sub32 :: "int \<Rightarrow> int \<Rightarrow> int" where
  "sub32 a b = wrap32 (a - b)"

definition add64 :: "int \<Rightarrow> int \<Rightarrow> int" where
  "add64 a b = wrap64 (a + b)"

definition sub64 :: "int \<Rightarrow> int \<Rightarrow> int" where
  "sub64 a b = wrap64 (a - b)"

definition mul64 :: "int \<Rightarrow> int \<Rightarrow> int" where
  "mul64 a b = wrap64 (a * b)"

text \<open>Go's integer division truncates towards zero.\<close>

definition quot :: "int \<Rightarrow> int \<Rightarrow> int" where
  "quot a b = sgn a * sgn b * (\<bar>a\<bar> div \<bar>b\<bar>)"

section \<open>Data model\<close>

type_synonym bytes = "nat list"

record outpoint =
  Hash :: bytes
  Index :: nat

text \<open>
  \<open>wtxmgr.Credit\<close>: the fields the wallet code reads. \<open>Height\<close> is the \<open>int32\<close> block
  height of the embedded block meta data, \<open>-1\<close> for an unmined credit.
\<close>

record credit =
  OutPoint :: outpoint
  Height :: int
  Amount :: int
  PkScript :: bytes
  FromCoinBase :: bool

record txin =
  PreviousOutPoint :: outpoint
  SignatureScript :: bytes

record txout =
  Value :: int
  TxOutPkScript :: bytes

record msgtx =
  TxIn :: "txin list"
  TxOut :: "txout list"

text \<open>The implementations of the \<open>coinutil.Address\<close> interface, by their payload.\<close>

datatype Address =
    AddressPubKeyHash bytes
  | AddressScriptHash bytes
  | AddressPubKey bytes

datatype ScriptClass =
    NonStandardTy | PubKeyTy | PubKeyHashTy | ScriptHashTy | MultiSigTy | NullDataTy

text \<open>
  What \<open>Manager.Address\<close> hands out: a \<open>ManagedPubKeyAddress\<close> (with the result of
  \<open>PrivKey()\<close>, \<open>None\<close> for an error, and \<open>Compressed()\<close>) or a managed script address,
  which has no key.
\<close>

datatype ManagedAddress =
    ManagedPubKeyAddress "bytes option" bool
  | ManagedScriptAddress

datatype error =
    ErrNonPositiveAmount
  | ErrNegativeFee
  | ErrUnsupportedTransactionType
  | InsufficientFundsError int int int
  | ErrCannotDecodeAddress
  | ErrCannotCreateTxoutScript
  | ErrPrevOutputsMismatch
  | ErrCannotGetAddressInfo
  | ErrCannotGetPrivateKey
  | ErrCannotCreateSigscript
  | ErrCannotCreateScriptEngine
  | ErrCannotValidateTransaction
  | ErrChangeAddress
  | ErrLocked
  | ErrManager
  | Panic

record created_tx =
  MsgTx :: msgtx
  ChangeAddr :: "Address option"
  ChangeIndex :: int

text \<open>
  The collaborators of the wallet that live outside the repository's wallet package:
  the constants of \<open>coinutil\<close> and \<open>blockchain\<close>, the script library \<open>txscript\<close>, the
  transaction serialisation of \<open>wire\<close>, \<open>sort.Sort\<close>, the address manager's lookups,
  the change address factory, and the \<open>float64\<close> comparison of \<open>allowNoFeeTx\<close>
  (\<open>priorityAbove w sz\<close> stands for \<open>float64(w) / float64(sz) > threshold\<close>).
  Every function of the model takes them as the parameter \<open>env\<close>; a result proved for all
  \<open>env\<close> holds whatever these collaborators compute.
\<close>

record env =
  SatoshiPerBitcent :: int
  MaxSatoshi :: int
  CoinbaseMaturity :: int
  priorityAbove :: "int \<Rightarrow> int \<Rightarrow> bool"
  sortReverseByAmount :: "credit list \<Rightarrow> credit list"
  DecodeAddress :: "string \<Rightarrow> Address option"
  PayToAddrScript :: "Address \<Rightarrow> bytes option"
  ExtractPkScriptAddrs :: "bytes \<Rightarrow> ScriptClass \<times> Address list \<times> bool"
  mgrAddress :: "Address \<Rightarrow> ManagedAddress option"
  mgrAddrAccount :: "Address \<Rightarrow> nat option"
  SignatureScriptOf :: "msgtx \<Rightarrow> nat \<Rightarrow> bytes \<Rightarrow> bytes \<Rightarrow> bool \<Rightarrow> bytes option"
  SerializeSize :: "msgtx \<Rightarrow> int"
  NewEngine :: "bytes \<Rightarrow> msgtx \<Rightarrow> nat \<Rightarrow> bool"
  Execute :: "bytes \<Rightarrow> msgtx \<Rightarrow> nat \<Rightarrow> bool"
  changeAddress :: "nat \<Rightarrow> Address option"

section \<open>Size and fee arithmetic (createtx.go)\<close>

definition txOverheadEstimate :: int where
  "txOverheadEstimate = 4 + 4 + 1 + 1"

definition sigScriptEstimate :: int where
  "sigScriptEstimate = 1 + 70 + 1 + 33 + 1"

definition txInEstimate :: int where
  "txInEstimate = 32 + 4 + 4 + sigScriptEstimate"

definition pkScriptEstimate :: int where
  "pkScriptEstimate = 1 + 1 + 1 + 20 + 1 + 1"

definition txOutEstimate :: int where
  "txOutEstimate = 8 + 1 + pkScriptEstimate"

definition estimateTxSize :: "int \<Rightarrow> int \<Rightarrow> int" where
  "estimateTxSize numInputs numOutputs =
     add64 (add64 txOverheadEstimate (mul64 txInEstimate numInputs))
           (mul64 txOutEstimate numOutputs)"

definition feeForSize :: "int \<Rightarrow> int \<Rightarrow> int" where
  "feeForSize incr sz = mul64 (add64 1 (quot sz 1000)) incr"

definition chainDepth :: "int \<Rightarrow> int \<Rightarrow> int" where
  "chainDepth target current =
     (if target = - 1 then 0 else add32 (sub32 current target) 1)"

definition weightedSum :: "int \<Rightarrow> credit list \<Rightarrow> int" where
  "weightedSum curHeight txouts =
     foldl (\<lambda>acc txout. add64 acc (mul64 (Amount txout) (chainDepth (Height txout) curHeight)))
       0 txouts"

definition allowNoFeeTx :: "env \<Rightarrow> int \<Rightarrow> credit list \<Rightarrow> int \<Rightarrow> bool" where
  "allowNoFeeTx e curHeight txouts txSize =
     priorityAbove e (weightedSum curHeight txouts) txSize"

definition minimumFee ::
  "env \<Rightarrow> int \<Rightarrow> int \<Rightarrow> txout list \<Rightarrow> credit list \<Rightarrow> int \<Rightarrow> bool \<Rightarrow> int" where
  "minimumFee e incr txLen outs prevOutputs height disallowFree =
     (let allowFree = (if \<not> disallowFree then allowNoFeeTx e height prevOutputs txLen else False);
          fee0 = feeForSize incr txLen;
          fee = (if allowFree \<and> txLen < 1000 then 0 else fee0)
      in if fee < incr \<and> list_ex (\<lambda>txOut. Value txOut < SatoshiPerBitcent e) outs then incr
         else if fee < 0 \<or> fee > MaxSatoshi e then MaxSatoshi e
         else fee)"

text \<open>
  The minimum fee in the words of the specification (section 4.1): step 1 is the fee for
  the size, step 2 sets it to 0 for a free-eligible transaction below 1000 bytes, step 3
  raises a fee below the increment to the increment when an output is below one bitcent,
  and step 4 clamps to \<open>[0, max_amount]\<close>.
\<close>

definition specFeeStep2 :: "env \<Rightarrow> int \<Rightarrow> int \<Rightarrow> credit list \<Rightarrow> int \<Rightarrow> bool \<Rightarrow> int" where
  "specFeeStep2 e incr sz credits height disallow_free =
     (if \<not> disallow_free \<and> allowNoFeeTx e height credits sz \<and> sz < 1000 then 0
      else feeForSize incr sz)"

definition specFeeStep3 ::
  "env \<Rightarrow> int \<Rightarrow> int \<Rightarrow> txout list \<Rightarrow> credit list \<Rightarrow> int \<Rightarrow> bool \<Rightarrow> int" where
  "specFeeStep3 e incr sz outs credits height disallow_free =
     (let fee = specFeeStep2 e incr sz credits height disallow_free
      in if fee < incr \<and> list_ex (\<lambda>txOut. Value txOut < SatoshiPerBitcent e) outs then incr else fee)"

definition clampFee :: "int \<Rightarrow> int \<Rightarrow> int" where
  "clampFee max_amount fee = max 0 (min max_amount fee)"

definition specMinimumFee ::
  "env \<Rightarrow> int \<Rightarrow> int \<Rightarrow> txout list \<Rightarrow> credit list \<Rightarrow> int \<Rightarrow> bool \<Rightarrow> int" where
  "specMinimumFee e incr sz outs credits height disallow_free =
     clampFee (MaxSatoshi e) (specFeeStep3 e incr sz outs credits height disallow_free)"

section \<open>Confirmations and the lock set (wallet.go)\<close>

definition confirms :: "int \<Rightarrow> int \<Rightarrow> int" where
  "confirms txHeight curHeight =
     (if txHeight = - 1 \<or> txHeight > curHeight then 0
      else add32 (sub32 curHeight txHeight) 1)"

definition confirmed :: "int \<Rightarrow> int \<Rightarrow> int \<Rightarrow> bool" where
  "confirmed minconf txHeight curHeight = (confirms txHeight curHeight \<ge> minconf)"

record wallet =
  lockedOutpoints :: "outpoint \<rightharpoonup> unit"
  FeeIncrement :: int
  DisallowFree :: bool

definition LockedOutpoint :: "wallet \<Rightarrow> outpoint \<Rightarrow> bool" where
  "LockedOutpoint w op = (case lockedOutpoints w op of Some u \<Rightarrow> True | None \<Rightarrow> False)"

definition LockOutpoint :: "wallet \<Rightarrow> outpoint \<Rightarrow> wallet" where
  "LockOutpoint w op = w\<lparr>lockedOutpoints := (lockedOutpoints w)(op \<mapsto> ())\<rparr>"

definition UnlockOutpoint :: "wallet \<Rightarrow> outpoint \<Rightarrow> wallet" where
  "UnlockOutpoint w op = w\<lparr>lockedOutpoints := (lockedOutpoints w)(op := None)\<rparr>"

definition ResetLockedOutpoints :: "wallet \<Rightarrow> wallet" where
  "ResetLockedOutpoints w = w\<lparr>lockedOutpoints := Map.empty\<rparr>"

section \<open>Eligible outputs (createtx.go, findEligibleOutputs)\<close>

text \<open>
  The loop over the unspent outputs that \<open>TxStore.UnspentOutputs\<close> returned. Reading
  \<open>addrs[0]\<close> of an empty address slice is the run-time panic of the source.
\<close>

fun findEligibleOutputs ::
  "env \<Rightarrow> wallet \<Rightarrow> nat \<Rightarrow> int \<Rightarrow> int \<Rightarrow> credit list \<Rightarrow> error + credit list" where
  "findEligibleOutputs e w account minconf bsHeight [] = Inr []"
| "findEligibleOutputs e w account minconf bsHeight (output # unspent) =
     (let skip = findEligibleOutputs e w account minconf bsHeight unspent in
      if \<not> confirmed minconf (Height output) bsHeight then skip
      else if FromCoinBase output \<and> \<not> confirmed (CoinbaseMaturity e) (Height output) bsHeight
        then skip
      else if LockedOutpoint w (OutPoint output) then skip
      else (case ExtractPkScriptAddrs e (PkScript output) of
        (class, addrs, err) \<Rightarrow>
          if err \<or> class \<noteq> PubKeyHashTy then skip
          else (case addrs of
            [] \<Rightarrow> Inl Panic
          | a # rest \<Rightarrow>
              (case mgrAddrAccount e a of
                None \<Rightarrow> skip
              | Some addrAcct \<Rightarrow>
                  if addrAcct \<noteq> account then skip
                  else (case skip of
                    Inl err' \<Rightarrow> Inl err'
                  | Inr eligible \<Rightarrow> Inr (output # eligible))))))"

section \<open>Building a transaction (createtx.go)\<close>

definition NewMsgTx :: msgtx where
  "NewMsgTx = \<lparr>TxIn = [], TxOut = []\<rparr>"

definition NewTxIn :: "outpoint \<Rightarrow> bytes \<Rightarrow> txin" where
  "NewTxIn prevOut sigScript = \<lparr>PreviousOutPoint = prevOut, SignatureScript = sigScript\<rparr>"

definition NewTxOut :: "int \<Rightarrow> bytes \<Rightarrow> txout" where
  "NewTxOut v pkScript = \<lparr>Value = v, TxOutPkScript = pkScript\<rparr>"

definition AddTxIn :: "msgtx \<Rightarrow> txin \<Rightarrow> msgtx" where
  "AddTxIn tx ti = tx\<lparr>TxIn := TxIn tx @ [ti]\<rparr>"

definition AddTxOut :: "msgtx \<Rightarrow> txout \<Rightarrow> msgtx" where
  "AddTxOut tx to = tx\<lparr>TxOut := TxOut tx @ [to]\<rparr>"

text \<open>
  \<open>addOutputs\<close> ranges over the pay-list, a Go map: the list of pairs is the map in the
  order the iteration visits it. The result is the transaction with the outputs added and
  the running total \<open>minAmount\<close>.
\<close>

fun addOutputs ::
  "env \<Rightarrow> msgtx \<Rightarrow> (string \<times> int) list \<Rightarrow> int \<Rightarrow> error + (msgtx \<times> int)" where
  "addOutputs e tx [] minAmount = Inr (tx, minAmount)"
| "addOutputs e tx ((addrStr, amt) # pairs) minAmount =
     (if amt \<le> 0 then Inl ErrNonPositiveAmount
      else (case DecodeAddress e addrStr of
        None \<Rightarrow> Inl ErrCannotDecodeAddress
      | Some addr \<Rightarrow>
          (case PayToAddrScript e addr of
            None \<Rightarrow> Inl ErrCannotCreateTxoutScript
          | Some pkScript \<Rightarrow>
              addOutputs e (AddTxOut tx (NewTxOut amt pkScript)) pairs (add64 minAmount amt))))"

text \<open>
  \<open>addChange\<close>: \<open>r\<close> is the raw draw of the random number generator; \<open>rng.Int31n(n)\<close>
  is \<open>r mod n\<close>, a value of \<open>[0, n)\<close>. The two-element assignment of the source swaps
  the new last output with the one at the drawn index.
\<close>

definition addChange :: "env \<Rightarrow> nat \<Rightarrow> msgtx \<Rightarrow> int \<Rightarrow> Address \<Rightarrow> error + (msgtx \<times> int)" where
  "addChange e r tx change addr =
     (case PayToAddrScript e addr of
        None \<Rightarrow> Inl ErrCannotCreateTxoutScript
      | Some pkScript \<Rightarrow>
          (let outs = TxOut tx @ [NewTxOut change pkScript];
               ri = r mod length outs;
               c = length outs - 1
           in Inr (tx\<lparr>TxOut := (outs[ri := outs ! c])[c := outs ! ri]\<rparr>, int ri)))"

text \<open>
  \<open>signMsgTx\<close>: the loop over \<open>prevOutputs\<close> from input index \<open>i\<close> on. The unchecked type
  assertion \<open>ai.(waddrmgr.ManagedPubKeyAddress)\<close> panics on a managed address without key.
\<close>

fun signInputs :: "env \<Rightarrow> msgtx \<Rightarrow> nat \<Rightarrow> credit list \<Rightarrow> error + msgtx" where
  "signInputs e tx i [] = Inr tx"
| "signInputs e tx i (output # prevOutputs) =
     (case snd (ExtractPkScriptAddrs e (PkScript output)) of
        ([a], err) \<Rightarrow>
          (case a of
            AddressPubKeyHash h \<Rightarrow>
              (case mgrAddress e a of
                None \<Rightarrow> Inl ErrCannotGetAddressInfo
              | Some ai \<Rightarrow>
                  (case ai of
                    ManagedScriptAddress \<Rightarrow> Inl Panic
                  | ManagedPubKeyAddress key compressed \<Rightarrow>
                      (case key of
                        None \<Rightarrow> Inl ErrCannotGetPrivateKey
                      | Some privkey \<Rightarrow>
                          (case SignatureScriptOf e tx i (PkScript output) privkey compressed of
                            None \<Rightarrow> Inl ErrCannotCreateSigscript
                          | Some sigscript \<Rightarrow>
                              signInputs e
                                (tx\<lparr>TxIn := (TxIn tx)[i := (TxIn tx ! i)\<lparr>SignatureScript := sigscript\<rparr>]\<rparr>)
                                (Suc i) prevOutputs))))
          | AddressScriptHash h \<Rightarrow> Inl ErrUnsupportedTransactionType
          | AddressPubKey k \<Rightarrow> Inl ErrUnsupportedTransactionType)
      | (addrs, err) \<Rightarrow> signInputs e tx (Suc i) prevOutputs)"

definition signMsgTx :: "env \<Rightarrow> msgtx \<Rightarrow> credit list \<Rightarrow> error + msgtx" where
  "signMsgTx e tx prevOutputs =
     (if length prevOutputs \<noteq> length (TxIn tx) then Inl ErrPrevOutputsMismatch
      else signInputs e tx 0 prevOutputs)"

fun validateInputs :: "env \<Rightarrow> msgtx \<Rightarrow> credit list \<Rightarrow> nat list \<Rightarrow> error option" where
  "validateInputs e tx prevOutputs [] = None"
| "validateInputs e tx prevOutputs (i # rest) =
     (if length prevOutputs \<le> i then Some Panic
      else if \<not> NewEngine e (PkScript (prevOutputs ! i)) tx i then Some ErrCannotCreateScriptEngine
      else if \<not> Execute e (PkScript (prevOutputs ! i)) tx i then Some ErrCannotValidateTransaction
      else validateInputs e tx prevOutputs rest)"

definition validateMsgTx :: "env \<Rightarrow> msgtx \<Rightarrow> credit list \<Rightarrow> error option" where
  "validateMsgTx e tx prevOutputs = validateInputs e tx prevOutputs [0..<length (TxIn tx)]"

text \<open>
  The local variables of \<open>createTx\<close> that its loops update, and the values that stay
  fixed during one call.
\<close>

record build_state =
  eligible :: "credit list"
  inputs :: "credit list"
  msgtx :: msgtx
  totalAdded :: int
  szEst :: int
  feeEst :: int
  changeAddr :: "Address option"
  changeIdx :: int

record build_ctx =
  feeIncrement :: int
  minAmount :: int
  bsHeight :: int
  disallowFree :: bool
  account :: nat

text \<open>The first selection loop: inputs are taken until they cover the pay-list total.\<close>

function selectInitial :: "int \<Rightarrow> build_state \<Rightarrow> error + build_state" where
  "selectInitial minAmt s =
     (if totalAdded s < minAmt then
        (case eligible s of
          [] \<Rightarrow> Inl (InsufficientFundsError (totalAdded s) minAmt 0)
        | input # rest \<Rightarrow>
            selectInitial minAmt
              (s\<lparr>eligible := rest,
                 inputs := inputs s @ [input],
                 msgtx := AddTxIn (msgtx s) (NewTxIn (OutPoint input) []),
                 totalAdded := add64 (totalAdded s) (Amount input)\<rparr>))
      else Inr s)"
  by pat_completeness auto
termination
  by (relation "measure (\<lambda>(minAmt, s). length (eligible s))") auto

text \<open>
  The loop that makes the inputs cover the pay-list total plus the fee estimate. The
  source has it twice, word for word: after the first fee estimate and at the end of
  every round of the fee loop.
\<close>

function ensureFee :: "env \<Rightarrow> build_ctx \<Rightarrow> build_state \<Rightarrow> error + build_state" where
  "ensureFee e c s =
     (if totalAdded s < add64 (minAmount c) (feeEst s) then
        (case eligible s of
          [] \<Rightarrow> Inl (InsufficientFundsError (totalAdded s) (minAmount c) (feeEst s))
        | input # rest \<Rightarrow>
            (let inputs' = inputs s @ [input];
                 szEst' = add64 (szEst s) txInEstimate
             in ensureFee e c
                  (s\<lparr>eligible := rest,
                     inputs := inputs',
                     msgtx := AddTxIn (msgtx s) (NewTxIn (OutPoint input) []),
                     szEst := szEst',
                     totalAdded := add64 (totalAdded s) (Amount input),
                     feeEst := minimumFee e (feeIncrement c) szEst' (TxOut (msgtx s)) inputs'
                                 (bsHeight c) (disallowFree c)\<rparr>)))
      else Inr s)"
  by pat_completeness auto
termination
  by (relation "measure (\<lambda>(e, c, s). length (eligible s))") auto

text \<open>
  One round of the fee loop \<open>for { ... }\<close>: it ends the loop with the signed transaction
  (\<open>Done\<close>), returns an error (\<open>Failed\<close>) or goes round again (\<open>Continue\<close>). \<open>r\<close> is the
  raw draw of the random number generator of this round.
\<close>

datatype step = Done build_state | Continue build_state | Failed error

definition withChange :: "env \<Rightarrow> build_ctx \<Rightarrow> nat \<Rightarrow> int \<Rightarrow> build_state \<Rightarrow> error + build_state" where
  "withChange e c r change s =
     (if change > 0 then
        (case (case changeAddr s of
                 None \<Rightarrow> changeAddress e (account c)
               | Some a \<Rightarrow> Some a) of
          None \<Rightarrow> Inl ErrChangeAddress
        | Some a \<Rightarrow>
            (case addChange e r (msgtx s) change a of
              Inl err \<Rightarrow> Inl err
            | Inr (tx, idx) \<Rightarrow> Inr (s\<lparr>changeAddr := Some a, msgtx := tx, changeIdx := idx\<rparr>)))
      else Inr s)"

definition removeChange :: "msgtx \<Rightarrow> int \<Rightarrow> msgtx" where
  "removeChange tx idx = tx\<lparr>TxOut := take (nat idx) (TxOut tx) @ drop (nat idx + 1) (TxOut tx)\<rparr>"

definition convergeStep :: "env \<Rightarrow> build_ctx \<Rightarrow> nat \<Rightarrow> build_state \<Rightarrow> step" where
  "convergeStep e c r s =
     (let change = sub64 (sub64 (totalAdded s) (minAmount c)) (feeEst s) in
      case withChange e c r change s of
        Inl err \<Rightarrow> Failed err
      | Inr s1 \<Rightarrow>
          (case signMsgTx e (msgtx s1) (inputs s1) of
            Inl err \<Rightarrow> Failed err
          | Inr tx \<Rightarrow>
              (let s2 = s1\<lparr>msgtx := tx\<rparr> in
               if feeForSize (feeIncrement c) (SerializeSize e tx) \<le> feeEst s2 then Done s2
               else
                 (let s3 = (if change > 0
                            then s2\<lparr>msgtx := removeChange (msgtx s2) (changeIdx s2)\<rparr>
                            else s2);
                      s4 = s3\<lparr>feeEst := add64 (feeEst s3) (feeIncrement c)\<rparr>
                  in case ensureFee e c s4 of
                       Inl err \<Rightarrow> Failed err
                     | Inr s5 \<Rightarrow> Continue s5))))"

text \<open>
  The fee loop, with the number of rounds it may take as fuel: \<open>None\<close> when the fuel runs
  out before the loop has ended. \<open>rnd k\<close> is the draw of round \<open>k\<close>.
\<close>

fun convergeLoop ::
  "nat \<Rightarrow> env \<Rightarrow> build_ctx \<Rightarrow> (nat \<Rightarrow> nat) \<Rightarrow> nat \<Rightarrow> build_state \<Rightarrow> (error + build_state) option" where
  "convergeLoop 0 e c rnd k s = None"
| "convergeLoop (Suc fuel) e c rnd k s =
     (case convergeStep e c (rnd k) s of
        Failed err \<Rightarrow> Some (Inl err)
      | Done s' \<Rightarrow> Some (Inr s')
      | Continue s' \<Rightarrow> convergeLoop fuel e c rnd (Suc k) s')"

text \<open>The state of \<open>createTx\<close> when it enters the fee loop, or the error before that.\<close>

definition selectInputs ::
  "env \<Rightarrow> credit list \<Rightarrow> (string \<times> int) list \<Rightarrow> int \<Rightarrow> int \<Rightarrow> nat \<Rightarrow> bool
     \<Rightarrow> error + (build_ctx \<times> build_state)" where
  "selectInputs e elig outputs height feeIncr acct disallow =
     (case addOutputs e NewMsgTx outputs 0 of
        Inl err \<Rightarrow> Inl err
      | Inr (tx, minAmt) \<Rightarrow>
          (case selectInitial minAmt
                  \<lparr>eligible = sortReverseByAmount e elig, inputs = [], msgtx = tx,
                   totalAdded = 0, szEst = 0, feeEst = 0, changeAddr = None, changeIdx = - 1\<rparr> of
            Inl err \<Rightarrow> Inl err
          | Inr s \<Rightarrow>
              (let c = \<lparr>feeIncrement = feeIncr, minAmount = minAmt, bsHeight = height,
                        disallowFree = disallow, account = acct\<rparr>;
                   sz = estimateTxSize (int (length (inputs s))) (int (length (TxOut (msgtx s))));
                   fee = minimumFee e feeIncr sz (TxOut (msgtx s)) (inputs s) height disallow
               in case ensureFee e c (s\<lparr>szEst := sz, feeEst := fee\<rparr>) of
                    Inl err \<Rightarrow> Inl err
                  | Inr s' \<Rightarrow> Inr (c, s'))))"

definition createTx ::
  "nat \<Rightarrow> env \<Rightarrow> (nat \<Rightarrow> nat) \<Rightarrow> credit list \<Rightarrow> (string \<times> int) list \<Rightarrow> int \<Rightarrow> int \<Rightarrow> nat \<Rightarrow> bool
     \<Rightarrow> (error + created_tx) option" where
  "createTx fuel e rnd elig outputs height feeIncr acct disallow =
     (case selectInputs e elig outputs height feeIncr acct disallow of
        Inl err \<Rightarrow> Some (Inl err)
      | Inr (c, s) \<Rightarrow>
          (case convergeLoop fuel e c rnd 0 s of
            None \<Rightarrow> None
          | Some (Inl err) \<Rightarrow> Some (Inl err)
          | Some (Inr s') \<Rightarrow>
              (case validateMsgTx e (msgtx s') (inputs s') of
                Some err \<Rightarrow> Some (Inl err)
              | None \<Rightarrow>
                  Some (Inr \<lparr>MsgTx = msgtx s', ChangeAddr = changeAddr s',
                             ChangeIndex = changeIdx s'\<rparr>))))"

section \<open>The wallet locker (wallet.go, walletLocker)\<close>

text \<open>
  \<open>walletLocker\<close> is one goroutine: a \<open>select\<close> loop over its request channels that, after
  handing out the hold channel, blocks receiving from \<open>holdChan\<close>. It is modelled as a transition
  function on the goroutine's state: \<open>walletLocker s ev\<close> is the state and the replies and
  notifications after the goroutine has taken the event \<open>ev\<close>, and \<open>None\<close> when the
  goroutine does not take \<open>ev\<close> in state \<open>s\<close> (the sender stays blocked on its channel).

  \<open>timeout\<close> is the variable of that name: \<open>NoTimer\<close> for the nil channel, \<open>Pending\<close> for a
  channel of \<open>time.After\<close> whose time has not come, \<open>Fired\<close> once the runtime has put the
  tick into the channel (the event \<open>TimerExpires\<close>, which needs no step of the goroutine).
  \<open>held\<close> says that the goroutine is blocked receiving from \<open>holdChan\<close>.

  The address manager is outside the sources: an event carries what the manager's method
  returned. \<open>Manager.Lock\<close> locks the manager when it returns no error and leaves it as it
  is otherwise; a failed \<open>Manager.Unlock\<close> leaves the manager locked or not, as the event
  says; \<open>Manager.ChangePassphrase\<close> keeps the lock state.
\<close>

datatype timer = NoTimer | Pending | Fired

record locker =
  mgrLocked :: bool
  timeout :: timer
  held :: bool
  stopped :: bool

datatype unlock_outcome = UnlockOk | UnlockErr bool

datatype event =
    UnlockRequest nat unlock_outcome
  | ChangePassphraseRequest bool
  | HoldUnlockRequest
  | LockStateQuery
  | QuitSignal
  | LockRequest bool
  | TimeoutReceived bool
  | TimerExpires
  | ReleaseHold bool

datatype sent =
    UnlockReply "error option"
  | ChangePassphraseReply "error option"
  | HoldGranted
  | HoldClosed
  | LockStateReply bool
  | NotifyLockStateChange bool
  | LogCouldNotLock

text \<open>The code after the \<open>select\<close>; \<open>lockOk\<close> says that \<open>Manager.Lock\<close> returned no error.\<close>

definition lockManager :: "bool \<Rightarrow> locker \<Rightarrow> locker \<times> sent list" where
  "lockManager lockOk s =
     (if timeout s = NoTimer then (s, [])
      else if lockOk then (s\<lparr>timeout := NoTimer, mgrLocked := True\<rparr>, [NotifyLockStateChange True])
      else (s\<lparr>timeout := NoTimer\<rparr>, [LogCouldNotLock]))"

fun walletLocker :: "locker \<Rightarrow> event \<Rightarrow> (locker \<times> sent list) option" where
  "walletLocker s ev =
     (if stopped s then None
      else if held s then
        (case ev of
          ReleaseHold lockOk \<Rightarrow>
            (if timeout s = Fired then Some (lockManager lockOk (s\<lparr>held := False\<rparr>))
             else Some (s\<lparr>held := False\<rparr>, []))
        | TimerExpires \<Rightarrow>
            (if timeout s = Pending then Some (s\<lparr>timeout := Fired\<rparr>, []) else None)
        | _ \<Rightarrow> None)
      else
        (case ev of
          UnlockRequest tmo res \<Rightarrow>
            (case res of
              UnlockErr lockedAfter \<Rightarrow>
                Some (s\<lparr>mgrLocked := lockedAfter\<rparr>, [UnlockReply (Some ErrManager)])
            | UnlockOk \<Rightarrow>
                Some (s\<lparr>mgrLocked := False, timeout := (if tmo = 0 then NoTimer else Pending)\<rparr>,
                      [NotifyLockStateChange False, UnlockReply None]))
        | ChangePassphraseRequest ok \<Rightarrow>
            Some (s, [ChangePassphraseReply (if ok then None else Some ErrManager)])
        | HoldUnlockRequest \<Rightarrow>
            (if mgrLocked s then Some (s, [HoldClosed])
             else Some (s\<lparr>held := True\<rparr>, [HoldGranted]))
        | LockStateQuery \<Rightarrow> Some (s, [LockStateReply (mgrLocked s)])
        | QuitSignal \<Rightarrow> Some (s\<lparr>stopped := True\<rparr>, [])
        | LockRequest lockOk \<Rightarrow> Some (lockManager lockOk s)
        | TimeoutReceived lockOk \<Rightarrow>
            (if timeout s = Fired then Some (lockManager lockOk s) else None)
        | TimerExpires \<Rightarrow>
            (if timeout s = Pending then Some (s\<lparr>timeout := Fired\<rparr>, []) else None)
        | ReleaseHold lockOk \<Rightarrow> None))"

text \<open>A run of the goroutine over a sequence of events, with everything it sent.\<close>

fun runLocker :: "locker \<Rightarrow> event list \<Rightarrow> (locker \<times> sent list) option" where
  "runLocker s [] = Some (s, [])"
| "runLocker s (ev # evs) =
     (case walletLocker s ev of
        None \<Rightarrow> None
      | Some (s', out) \<Rightarrow>
          (case runLocker s' evs of
            None \<Rightarrow> None
          | Some (s'', out') \<Rightarrow> Some (s'', out @ out')))"

text \<open>
  \<open>Wallet.HoldUnlock\<close>: the request and what the caller makes of the answer, the error
  \<open>ErrLocked\<close> when the request channel was closed.
\<close>

definition HoldUnlock :: "locker \<Rightarrow> (locker \<times> (error + unit)) option" where
  "HoldUnlock s =
     (case walletLocker s HoldUnlockRequest of
        None \<Rightarrow> None
      | Some (s', out) \<Rightarrow> Some (s', if HoldClosed \<in> set out then Inl ErrLocked else Inr ()))"

fun isRelease :: "event \<Rightarrow> bool" where
  "isRelease (ReleaseHold lockOk) = True"
| "isRelease ev = False"

section \<open>Quantities of the selection loops and of the fee loop\<close>

text \<open>
  The notions in which the properties of \<open>createTx\<close> are stated. \<open>total s\<close> is the input
  total once every credit that is still eligible has been added, in \<open>int64\<close> arithmetic.
\<close>

definition sumAmount :: "credit list \<Rightarrow> int" where
  "sumAmount cs = sum_list (map Amount cs)"

definition total :: "build_state \<Rightarrow> int" where
  "total s = wrap64 (totalAdded s + sumAmount (eligible s))"

text \<open>
  The fee estimate at the point where \<open>ensureFee\<close> runs out of credits: the estimate it
  started with when there was no credit left to take, and otherwise the minimum fee for
  all inputs, as the loop computed it after the last credit.
\<close>

definition feeAtExhaustion :: "env \<Rightarrow> build_ctx \<Rightarrow> build_state \<Rightarrow> int" where
  "feeAtExhaustion e c s =
     (if eligible s = [] then feeEst s
      else minimumFee e (feeIncrement c)
             (wrap64 (szEst s + txInEstimate * int (length (eligible s))))
             (TxOut (msgtx s)) (inputs s @ eligible s) (bsHeight c) (disallowFree c))"

text \<open>\<open>popped s s'\<close>: \<open>s'\<close> is \<open>s\<close> after a selection loop has taken credits from the front.\<close>

definition popped :: "build_state \<Rightarrow> build_state \<Rightarrow> bool" where
  "popped s s' \<longleftrightarrow>
     (\<exists>pre. eligible s = pre @ eligible s' \<and> inputs s' = inputs s @ pre \<and>
        TxIn (msgtx s') = TxIn (msgtx s) @ map (\<lambda>x. NewTxIn (OutPoint x) []) pre) \<and>
     TxOut (msgtx s') = TxOut (msgtx s) \<and> changeAddr s' = changeAddr s \<and> changeIdx s' = changeIdx s \<and>
     total s' = total s \<and> int64 (totalAdded s')"

text \<open>\<open>sameFunds s s'\<close>: adding the change and signing have left the selection as it was.\<close>

definition sameFunds :: "build_state \<Rightarrow> build_state \<Rightarrow> bool" where
  "sameFunds s s' \<longleftrightarrow>
     eligible s' = eligible s \<and> inputs s' = inputs s \<and> totalAdded s' = totalAdded s \<and>
     feeEst s' = feeEst s \<and> szEst s' = szEst s"

text \<open>
  The range in which no amount of a call overflows: a positive fee increment, and the
  increment, \<open>MaxSatoshi\<close>, the pay-list total and the total of all credits below \<open>2^61\<close>,
  no credit with a negative amount. \<open>atHead\<close> is what holds of the fee estimate whenever
  a round of the fee loop starts, and \<open>roundsLeft\<close> bounds the rounds still to come.
\<close>

definition inRange :: "env \<Rightarrow> build_ctx \<Rightarrow> build_state \<Rightarrow> bool" where
  "inRange e c s \<longleftrightarrow>
     0 < feeIncrement c \<and> feeIncrement c < 2305843009213693952 \<and>
     0 \<le> MaxSatoshi e \<and> MaxSatoshi e < 2305843009213693952 \<and>
     0 \<le> minAmount c \<and> minAmount c < 2305843009213693952 \<and>
     list_all (\<lambda>x. 0 \<le> Amount x) (eligible s) \<and> 0 \<le> totalAdded s \<and>
     totalAdded s + sumAmount (eligible s) < 2305843009213693952"

definition atHead :: "build_ctx \<Rightarrow> build_state \<Rightarrow> bool" where
  "atHead c s \<longleftrightarrow> 0 \<le> feeEst s \<and> feeEst s \<le> totalAdded s - minAmount c"

definition roundsLeft :: "build_ctx \<Rightarrow> build_state \<Rightarrow> nat" where
  "roundsLeft c s =
     length (eligible s)
       * (nat ((totalAdded s + sumAmount (eligible s) - minAmount c) div feeIncrement c) + 1)
     + nat ((totalAdded s + sumAmount (eligible s) - minAmount c - feeEst s) div feeIncrement c)"

text \<open>The fee estimates with which the rounds of the fee loop start, round by round.\<close>

fun feeEstimates ::
  "nat \<Rightarrow> env \<Rightarrow> build_ctx \<Rightarrow> (nat \<Rightarrow> nat) \<Rightarrow> nat \<Rightarrow> build_state \<Rightarrow> int list" where
  "feeEstimates 0 e c rnd k s = []"
| "feeEstimates (Suc fuel) e c rnd k s =
     feeEst s # (case convergeStep e c (rnd k) s of
                   Continue s' \<Rightarrow> feeEstimates fuel e c rnd (Suc k) s'
                 | Done s' \<Rightarrow> []
                 | Failed err \<Rightarrow> [])"

definition feeEstimatesOf ::
  "nat \<Rightarrow> env \<Rightarrow> (nat \<Rightarrow> nat) \<Rightarrow> credit list \<Rightarrow> (string \<times> int) list \<Rightarrow> int \<Rightarrow> int \<Rightarrow> nat \<Rightarrow> bool
     \<Rightarrow> int list" where
  "feeEstimatesOf fuel e rnd elig outputs height feeIncr acct disallow =
     (case selectInputs e elig outputs height feeIncr acct disallow of
        Inl err \<Rightarrow> []
      | Inr (c, s) \<Rightarrow> feeEstimates fuel e c rnd 0 s)"

text \<open>
  The state in which a selection loop stops. A loop of the source is left when the inputs
  cover the amount it asks for, and it returns the error when no eligible credit is left
  before that. \<open>selectInitialEnd\<close> and \<open>ensureFeeEnd\<close> follow the two loops up to that
  point and give the state reached there: the eligible credits have been exhausted when
  the condition of the loop still holds in this state.
\<close>

function selectInitialEnd :: "int \<Rightarrow> build_state \<Rightarrow> build_state" where
  "selectInitialEnd minAmt s =
     (if totalAdded s < minAmt then
        (case eligible s of
          [] \<Rightarrow> s
        | input # rest \<Rightarrow>
            selectInitialEnd minAmt
              (s\<lparr>eligible := rest,
                 inputs := inputs s @ [input],
                 msgtx := AddTxIn (msgtx s) (NewTxIn (OutPoint input) []),
                 totalAdded := add64 (totalAdded s) (Amount input)\<rparr>))
      else s)"
  by pat_completeness auto
termination
  by (relation "measure (\<lambda>(minAmt, s). length (eligible s))") auto

function ensureFeeEnd :: "env \<Rightarrow> build_ctx \<Rightarrow> build_state \<Rightarrow> build_state" where
  "ensureFeeEnd e c s =
     (if totalAdded s < add64 (minAmount c) (feeEst s) then
        (case eligible s of
          [] \<Rightarrow> s
        | input # rest \<Rightarrow>
            (let inputs' = inputs s @ [input];
                 szEst' = add64 (szEst s) txInEstimate
             in ensureFeeEnd e c
                  (s\<lparr>eligible := rest,
                     inputs := inputs',
                     msgtx := AddTxIn (msgtx s) (NewTxIn (OutPoint input) []),
                     szEst := szEst',
                     totalAdded := add64 (totalAdded s) (Amount input),
                     feeEst := minimumFee e (feeIncrement c) szEst' (TxOut (msgtx s)) inputs'
                                 (bsHeight c) (disallowFree c)\<rparr>)))
      else s)"
  by pat_completeness auto
termination
  by (relation "measure (\<lambda>(e, c, s). length (eligible s))") auto

text \<open>
  The places of \<open>createTx\<close> at which a selection loop starts: \<open>startState\<close> is the state
  before the first loop, \<open>callCtx\<close> the values fixed for the call, \<open>firstEstimate\<close> the
  state with the first size and fee estimates, with which the second loop starts.
  \<open>raisedFee\<close> is the state with which a round of the fee loop enters its last loop, the
  fee estimate raised by the increment (\<open>None\<close> when the round ends before that), and
  \<open>roundState n\<close> the state with which round \<open>n\<close> of the fee loop starts, counted from 0
  (\<open>None\<close> when the loop has ended before).
\<close>

definition startState :: "env \<Rightarrow> credit list \<Rightarrow> msgtx \<Rightarrow> build_state" where
  "startState e elig tx =
     \<lparr>eligible = sortReverseByAmount e elig, inputs = [], msgtx = tx,
      totalAdded = 0, szEst = 0, feeEst = 0, changeAddr = None, changeIdx = - 1\<rparr>"

definition callCtx :: "int \<Rightarrow> int \<Rightarrow> int \<Rightarrow> nat \<Rightarrow> bool \<Rightarrow> build_ctx" where
  "callCtx minAmt height feeIncr acct disallow =
     \<lparr>feeIncrement = feeIncr, minAmount = minAmt, bsHeight = height,
      disallowFree = disallow, account = acct\<rparr>"

definition firstEstimate :: "env \<Rightarrow> build_ctx \<Rightarrow> build_state \<Rightarrow> build_state" where
  "firstEstimate e c s =
     (let sz = estimateTxSize (int (length (inputs s))) (int (length (TxOut (msgtx s))));
          fee = minimumFee e (feeIncrement c) sz (TxOut (msgtx s)) (inputs s) (bsHeight c)
                  (disallowFree c)
      in s\<lparr>szEst := sz, feeEst := fee\<rparr>)"

definition raisedFee :: "env \<Rightarrow> build_ctx \<Rightarrow> nat \<Rightarrow> build_state \<Rightarrow> build_state option" where
  "raisedFee e c r s =
     (let change = sub64 (sub64 (totalAdded s) (minAmount c)) (feeEst s) in
      case withChange e c r change s of
        Inl err \<Rightarrow> None
      | Inr s1 \<Rightarrow>
          (case signMsgTx e (msgtx s1) (inputs s1) of
            Inl err \<Rightarrow> None
          | Inr tx \<Rightarrow>
              (let s2 = s1\<lparr>msgtx := tx\<rparr> in
               if feeForSize (feeIncrement c) (SerializeSize e tx) \<le> feeEst s2 then None
               else
                 (let s3 = (if change > 0
                            then s2\<lparr>msgtx := removeChange (msgtx s2) (changeIdx s2)\<rparr>
                            else s2)
                  in Some (s3\<lparr>feeEst := add64 (feeEst s3) (feeIncrement c)\<rparr>)))))"

fun roundState ::
  "nat \<Rightarrow> env \<Rightarrow> build_ctx \<Rightarrow> (nat \<Rightarrow> nat) \<Rightarrow> nat \<Rightarrow> build_state \<Rightarrow> build_state option" where
  "roundState 0 e c rnd k s = Some s"
| "roundState (Suc n) e c rnd k s =
     (case convergeStep e c (rnd k) s of
        Continue s' \<Rightarrow> roundState n e c rnd (Suc k) s'
      | Done s' \<Rightarrow> None
      | Failed err \<Rightarrow> None)"

section \<open>The environment and the data of the package's test (createtx\_test.go)\<close>

text \<open>
  A concrete environment for running the model on the data of \<open>TestCreateTx\<close>. The
  constants are those of \<open>coinutil\<close> and \<open>blockchain\<close>; scripts are the standard
  pay-to-pubkey-hash and pay-to-script-hash byte strings; the size is the serialised size
  of the wire format; the address manager holds the five imported keys. Signatures are
  not computed: a signature script is a string of the length of a real one (a 72 byte
  signature and a compressed or an uncompressed public key, each behind its push opcode),
  which is all the wallet code reads of it, and the script engine accepts. The
  \<open>float64\<close> comparison of the priority with the threshold \<open>1e8 * 144 / 250\<close> is the exact
  one: for the amounts and heights used below the conversions and the quotient are far
  from any rounding that could change the result.
\<close>

definition p2pkhScript :: "bytes \<Rightarrow> bytes" where
  "p2pkhScript h = [118, 169, 20] @ h @ [136, 172]"

definition p2shScript :: "bytes \<Rightarrow> bytes" where
  "p2shScript h = [169, 20] @ h @ [135]"

definition extractStandard :: "bytes \<Rightarrow> ScriptClass \<times> Address list \<times> bool" where
  "extractStandard script =
     (if length script = 25 \<and> take 3 script = [118, 169, 20] \<and> drop 23 script = [136, 172]
      then (PubKeyHashTy, [AddressPubKeyHash (take 20 (drop 3 script))], False)
      else if length script = 23 \<and> take 2 script = [169, 20] \<and> drop 22 script = [135]
      then (ScriptHashTy, [AddressScriptHash (take 20 (drop 2 script))], False)
      else (NonStandardTy, [], False))"

definition varIntSize :: "nat \<Rightarrow> int" where
  "varIntSize n = (if n < 253 then 1 else if n \<le> 65535 then 3 else if n \<le> 4294967295 then 5 else 9)"

definition wireSize :: "msgtx \<Rightarrow> int" where
  "wireSize tx =
     8 + varIntSize (length (TxIn tx)) + varIntSize (length (TxOut tx))
       + sum_list (map (\<lambda>ti. 40 + varIntSize (length (SignatureScript ti))
                                 + int (length (SignatureScript ti))) (TxIn tx))
       + sum_list (map (\<lambda>to. 8 + varIntSize (length (TxOutPkScript to))
                                + int (length (TxOutPkScript to))) (TxOut tx))"

definition hashOut1 :: bytes where
  "hashOut1 = [47, 112, 148, 8, 61, 117, 11, 223, 193, 242, 250, 216, 20, 119, 158, 45, 222, 53, 206, 32]"

definition hashOut2 :: bytes where
  "hashOut2 = [111, 203, 51, 106, 24, 118, 25, 202, 32, 184, 74, 249, 234, 201, 251, 255, 104, 209, 6, 29]"

definition hashOut3 :: bytes where
  "hashOut3 = [149, 50, 45, 18, 225, 131, 69, 244, 133, 92, 190, 134, 61, 74, 142, 188, 192, 233, 94, 1]"

definition hashOut4 :: bytes where
  "hashOut4 = [170, 206, 127, 6, 249, 79, 162, 152, 104, 95, 110, 88, 118, 149, 67, 153, 63, 165, 250, 232]"

definition hashOut5 :: bytes where
  "hashOut5 = [8, 238, 199, 96, 38, 85, 253, 178, 83, 31, 113, 7, 12, 202, 76, 54, 60, 58, 21, 171]"

definition hashAddr1 :: bytes where
  "hashAddr1 = [227, 76, 206, 112, 200, 99, 115, 39, 62, 252, 197, 76, 231, 210, 164, 145, 187, 74, 14, 132]"

definition hashAddr2 :: bytes where
  "hashAddr2 = [14, 240, 48, 16, 127, 210, 110, 11, 107, 244, 5, 18, 188, 162, 206, 177, 221, 128, 173, 170]"

definition hashChange :: bytes where
  "hashChange = [157, 19, 196, 162, 241, 79, 30, 238, 230, 163, 181, 81, 255, 112, 56, 235, 170, 201, 74, 32]"

definition outAddr1 :: string where
  "outAddr1 = ''1MirQ9bwyQcGVJPwKUgapu5ouK2E2Ey4gX''"

definition outAddr2 :: string where
  "outAddr2 = ''12MzCDwodF9G1e7jfwLXfR164RNtx4BRVG''"

definition txSha :: bytes where
  "txSha = [117, 78, 213, 88, 34, 132, 217, 140, 235, 60, 206, 214, 111, 226, 216, 22,
            5, 67, 9, 228, 157, 165, 127, 240, 199, 51, 160, 28, 68, 187, 105, 45]"

definition importedKeys :: "bytes list" where
  "importedKeys = [hashOut1, hashOut2, hashOut3, hashOut4, hashOut5]"

definition testEnv :: "bool \<Rightarrow> env" where
  "testEnv compressed =
     \<lparr>SatoshiPerBitcent = 1000000,
      MaxSatoshi = 2100000000000000,
      CoinbaseMaturity = 100,
      priorityAbove = (\<lambda>w sz. 0 < sz \<and> 57600000 * sz < w),
      sortReverseByAmount = (\<lambda>credits. rev (sort_key Amount credits)),
      DecodeAddress = (\<lambda>str. if str = outAddr1 then Some (AddressPubKeyHash hashAddr1)
                             else if str = outAddr2 then Some (AddressPubKeyHash hashAddr2)
                             else None),
      PayToAddrScript = (\<lambda>a. case a of
                             AddressPubKeyHash h \<Rightarrow> Some (p2pkhScript h)
                           | AddressScriptHash h \<Rightarrow> Some (p2shScript h)
                           | AddressPubKey k \<Rightarrow> Some ([length k] @ k @ [172])),
      ExtractPkScriptAddrs = extractStandard,
      mgrAddress = (\<lambda>a. case a of
                        AddressPubKeyHash h \<Rightarrow>
                          if h \<in> set importedKeys
                          then Some (ManagedPubKeyAddress (Some h) compressed) else None
                      | AddressScriptHash h \<Rightarrow> None
                      | AddressPubKey k \<Rightarrow> None),
      mgrAddrAccount = (\<lambda>a. case a of
                        AddressPubKeyHash h \<Rightarrow> if h \<in> set importedKeys then Some 0 else None
                      | AddressScriptHash h \<Rightarrow> None
                      | AddressPubKey k \<Rightarrow> None),
      SignatureScriptOf = (\<lambda>tx i pkScript key compr.
                             Some (replicate (if compr then 107 else 139) 0)),
      SerializeSize = wireSize,
      NewEngine = (\<lambda>pkScript tx i. True),
      Execute = (\<lambda>pkScript tx i. True),
      changeAddress = (\<lambda>acct. Some (AddressPubKeyHash hashChange))\<rparr>"

text \<open>
  \<open>mockCredits\<close>: the output \<open>idx\<close> of the test's transaction as a credit, here with the
  height as a parameter (the test uses \<open>-1\<close>, an unmined credit).
\<close>

definition mockCredit :: "nat \<Rightarrow> int \<Rightarrow> bytes \<Rightarrow> int \<Rightarrow> credit" where
  "mockCredit idx amt h height =
     \<lparr>OutPoint = \<lparr>Hash = txSha, Index = idx\<rparr>, Height = height, Amount = amt,
      PkScript = p2pkhScript h, FromCoinBase = False\<rparr>"

definition mockCredits :: "credit list" where
  "mockCredits =
     [mockCredit 1 3000000 hashOut1 (- 1),
      mockCredit 2 9000000 hashOut2 (- 1),
      mockCredit 3 10000000 hashOut3 (- 1),
      mockCredit 4 15000000 hashOut4 (- 1),
      mockCredit 5 100000 hashOut5 (- 1)]"

text \<open>
  Further test data: an unsigned transaction spending the outputs with the given indices
  of the test's transaction, a credit with a pay-to-script-hash script and one with a
  script that carries data only (\<open>OP_RETURN\<close>, from which no address is extracted).
\<close>

definition unsignedTx :: "nat list \<Rightarrow> msgtx" where
  "unsignedTx idxs =
     \<lparr>TxIn = map (\<lambda>idx. NewTxIn \<lparr>Hash = txSha, Index = idx\<rparr> []) idxs, TxOut = []\<rparr>"

definition scriptHashCredit :: credit where
  "scriptHashCredit =
     \<lparr>OutPoint = \<lparr>Hash = txSha, Index = 6\<rparr>, Height = - 1, Amount = 2000000,
      PkScript = p2shScript hashAddr2, FromCoinBase = False\<rparr>"

definition nullDataCredit :: credit where
  "nullDataCredit =
     \<lparr>OutPoint = \<lparr>Hash = txSha, Index = 7\<rparr>, Height = - 1, Amount = 2000000,
      PkScript = [106], FromCoinBase = False\<rparr>"

text \<open>
  States of \<open>createTx\<close> for a pay-list of one bitcoin to the first test address, as they
  are before the fee loop: the given credits still eligible, the given inputs selected.
\<close>

definition oneCoinCtx :: "bool \<Rightarrow> build_ctx" where
  "oneCoinCtx disallow =
     \<lparr>feeIncrement = 1000, minAmount = 100000000, bsHeight = 11111,
      disallowFree = disallow, account = 0\<rparr>"

definition stateWith :: "credit list \<Rightarrow> credit list \<Rightarrow> int \<Rightarrow> build_state" where
  "stateWith el ins fee =
     \<lparr>eligible = el, inputs = ins,
      msgtx = \<lparr>TxIn = map (\<lambda>x. NewTxIn (OutPoint x) []) ins,
               TxOut = [NewTxOut 100000000 (p2pkhScript hashAddr1)]\<rparr>,
      totalAdded = sumAmount ins, szEst = estimateTxSize (int (length ins)) 1, feeEst = fee,
      changeAddr = None, changeIdx = - 1\<rparr>"

text \<open>
  A call that runs out of credits in the second round of its fee loop: two credits of
  100000600 in all pay one bitcoin, and \<open>dryState\<close> is the state of that round, with the
  given signature script of the second input and the given fee estimate.
\<close>

definition twoCredits :: "credit list" where
  "twoCredits = [mockCredit 4 100000500 hashOut4 10112, mockCredit 5 100 hashOut5 (- 1)]"

definition dryState :: "bytes \<Rightarrow> int \<Rightarrow> build_state" where
  "dryState sigScript fee =
     \<lparr>eligible = [], inputs = twoCredits,
      msgtx = \<lparr>TxIn = [NewTxIn \<lparr>Hash = txSha, Index = 4\<rparr> (replicate 107 0),
                       NewTxIn \<lparr>Hash = txSha, Index = 5\<rparr> sigScript],
               TxOut = [NewTxOut 100000000 (p2pkhScript hashAddr1)]\<rparr>,
      totalAdded = 100000600, szEst = 336, feeEst = fee,
      changeAddr = Some (AddressPubKeyHash hashChange), changeIdx = 0\<rparr>"

text \<open>
  The test scenario of \<open>TestCreateTx\<close>: the pay-list in either order of visit, and the
  states of \<open>createTx\<close> before and after the one round of its fee loop.
\<close>

definition testPairs :: "bool \<Rightarrow> (string \<times> int) list" where
  "testPairs firstOrder =
     (if firstOrder then [(outAddr1, 15000000), (outAddr2, 10000000)]
      else [(outAddr2, 10000000), (outAddr1, 15000000)])"

definition testOuts :: "bool \<Rightarrow> txout list" where
  "testOuts firstOrder =
     (if firstOrder
      then [NewTxOut 15000000 (p2pkhScript hashAddr1), NewTxOut 10000000 (p2pkhScript hashAddr2)]
      else [NewTxOut 10000000 (p2pkhScript hashAddr2), NewTxOut 15000000 (p2pkhScript hashAddr1)])"

definition testCtx :: build_ctx where
  "testCtx = \<lparr>feeIncrement = 1000, minAmount = 25000000, bsHeight = 11111,
              disallowFree = False, account = 0\<rparr>"

definition testInputs :: "credit list" where
  "testInputs = [mockCredit 4 15000000 hashOut4 (- 1), mockCredit 3 10000000 hashOut3 (- 1),
                 mockCredit 2 9000000 hashOut2 (- 1)]"

definition testState :: "bool \<Rightarrow> build_state" where
  "testState firstOrder =
     \<lparr>eligible = [mockCredit 1 3000000 hashOut1 (- 1), mockCredit 5 100000 hashOut5 (- 1)],
      inputs = testInputs,
      msgtx = \<lparr>TxIn = map (\<lambda>x. NewTxIn (OutPoint x) []) testInputs, TxOut = testOuts firstOrder\<rparr>,
      totalAdded = 34000000, szEst = 516, feeEst = 1000, changeAddr = None, changeIdx = - 1\<rparr>"

definition testChange :: txout where
  "testChange = NewTxOut 8999000 (p2pkhScript hashChange)"

definition testDone :: "bool \<Rightarrow> txout list \<Rightarrow> int \<Rightarrow> build_state" where
  "testDone firstOrder outs idx =
     (testState firstOrder)
       \<lparr>msgtx := \<lparr>TxIn = map (\<lambda>x. NewTxIn (OutPoint x) (replicate 107 0)) testInputs, TxOut = outs\<rparr>,
        changeAddr := Some (AddressPubKeyHash hashChange), changeIdx := idx\<rparr>"

text \<open>What the test scenario expects of the built transaction.\<close>

definition builtAsExpected :: "created_tx \<Rightarrow> bool" where
  "builtAsExpected r \<longleftrightarrow>
     map PreviousOutPoint (TxIn (MsgTx r)) = map OutPoint testInputs \<and>
     map Amount testInputs = [15000000, 10000000, 9000000] \<and>
     length (TxOut (MsgTx r)) = 3 \<and>
     set (TxOut (MsgTx r))
       = {NewTxOut 15000000 (p2pkhScript hashAddr1), NewTxOut 10000000 (p2pkhScript hashAddr2),
          NewTxOut 8999000 (p2pkhScript hashChange)} \<and>
     ChangeAddr r = Some (AddressPubKeyHash hashChange) \<and>
     0 \<le> ChangeIndex r \<and> ChangeIndex r < 3 \<and>
     TxOut (MsgTx r) ! nat (ChangeIndex r) = NewTxOut 8999000 (p2pkhScript hashChange) \<and>
     sumAmount testInputs - sum_list (map Value (TxOut (MsgTx r))) = 1000"

definition testOutsWithChange :: "bool \<Rightarrow> nat \<Rightarrow> txout list" where
  "testOutsWithChange firstOrder r =
     (if r = 0 then [testChange, testOuts firstOrder ! 1, testOuts firstOrder ! 0]
      else if r = 1 then [testOuts firstOrder ! 0, testChange, testOuts firstOrder ! 1]
      else [testOuts firstOrder ! 0, testOuts firstOrder ! 1, testChange])"

section \<open>Properties: machine arithmetic\<close>

lemma wrap64_id: "int64 x \<Longrightarrow> wrap64 x = x"
  by (simp add: wrap64_def int64_def)

lemma wrap64_add_left: "wrap64 (wrap64 x + y) = wrap64 (x + y)"
proof -
  have "(wrap64 x + y + 9223372036854775808) mod 18446744073709551616
        = ((x + 9223372036854775808) mod 18446744073709551616 + y) mod 18446744073709551616"
    by (simp add: wrap64_def)
  also have "\<dots> = (x + 9223372036854775808 + y) mod 18446744073709551616"
    by (rule mod_add_left_eq)
  also have "\<dots> = (x + y + 9223372036854775808) mod 18446744073709551616"
    by (rule arg_cong [where f = "\<lambda>v. v mod 18446744073709551616"]) linarith
  finally show ?thesis
    unfolding wrap64_def [of "wrap64 x + y"] wrap64_def [of "x + y"] by simp
qed

lemma wrap64_add_right: "wrap64 (x + wrap64 y) = wrap64 (x + y)"
  using wrap64_add_left [of y x] by (simp add: add.commute)

section \<open>Properties: the size estimate\<close>

lemma estimateTxSize_wrap:
  "estimateTxSize numInputs numOutputs = wrap64 (10 + 146 * numInputs + 34 * numOutputs)"
  by (simp add: estimateTxSize_def add64_def mul64_def txOverheadEstimate_def txInEstimate_def
      sigScriptEstimate_def txOutEstimate_def pkScriptEstimate_def wrap64_add_left wrap64_add_right)

text \<open>
  Claim C4, as the code has it. The estimate of an input is \<open>32 + 4 + 4 + 106 = 146\<close>
  bytes, not 148: \<open>estimateTxSize n_in n_out\<close> is \<open>10 + 146 * n_in + 34 * n_out\<close> in the
  arithmetic of Go's \<open>int\<close>, and is that number itself for all non-negative \<open>n_in\<close> and
  \<open>n_out\<close> for which it fits an \<open>int\<close>.
\<close>

theorem estimateTxSize_formula:
  "estimateTxSize numInputs numOutputs = wrap64 (10 + 146 * numInputs + 34 * numOutputs) \<and>
   (0 \<le> numInputs \<and> 0 \<le> numOutputs \<and> 10 + 146 * numInputs + 34 * numOutputs < 9223372036854775808
      \<longrightarrow> estimateTxSize numInputs numOutputs = 10 + 146 * numInputs + 34 * numOutputs)"
proof -
  have "wrap64 (10 + 146 * numInputs + 34 * numOutputs) = 10 + 146 * numInputs + 34 * numOutputs"
    if "0 \<le> numInputs" "0 \<le> numOutputs" "10 + 146 * numInputs + 34 * numOutputs < 9223372036854775808"
    using that by (intro wrap64_id) (simp add: int64_def)
  then show ?thesis
    by (simp add: estimateTxSize_wrap)
qed

theorem estimateTxSize_formula_witness:
  "(0::int) \<le> 3 \<and> (0::int) \<le> 2 \<and> 10 + 146 * 3 + 34 * 2 < (9223372036854775808::int) \<and>
   estimateTxSize 3 2 = 10 + 146 * 3 + 34 * 2 \<and> estimateTxSize 3 2 = 516"
  using estimateTxSize_formula [of 3 2] by simp

text \<open>Claim C4 as stated fails already for one input and no output: the estimate is 156, not 158.\<close>

theorem estimateTxSize_148_counterexample:
  "estimateTxSize 1 0 = 156 \<and> estimateTxSize 1 0 \<noteq> 10 + 148 * 1 + 34 * 0"
  by (simp add: estimateTxSize_wrap wrap64_def)

section \<open>Properties: confirmations and eligibility\<close>

lemma findEligibleOutputs_sound:
  "findEligibleOutputs e w acct minconf tip unspent = Inr el \<Longrightarrow> c \<in> set el
    \<Longrightarrow> confirmed minconf (Height c) tip \<and> \<not> LockedOutpoint w (OutPoint c) \<and> c \<in> set unspent"
proof (induction unspent arbitrary: el)
  case Nil
  then show ?case by simp
next
  case (Cons x xs)
  then show ?case
    by (auto simp: Let_def split: if_splits prod.splits list.splits option.splits sum.splits)
qed

text \<open>
  Claim C10, as the code has it. \<open>confirms\<close> is 0 for an unmined transaction and for one
  above the current height, so that no minimum of one confirmation or more is met there
  and \<open>findEligibleOutputs\<close> keeps no such credit. The count is not negative as long as
  \<open>curHeight - txHeight + 1\<close> does not exceed the largest \<open>int32\<close>.
\<close>

theorem confirms_zero_and_not_negative:
  "confirms (- 1) curHeight = 0 \<and>
   (curHeight < txHeight \<longrightarrow>
      confirms txHeight curHeight = 0 \<and> (1 \<le> minconf \<longrightarrow> \<not> confirmed minconf txHeight curHeight)) \<and>
   (curHeight - txHeight + 1 < 2147483648 \<longrightarrow> 0 \<le> confirms txHeight curHeight) \<and>
   (findEligibleOutputs e w acct minconf curHeight unspent = Inr el \<and> 1 \<le> minconf \<and> c \<in> set el
      \<longrightarrow> Height c \<noteq> - 1 \<and> Height c \<le> curHeight)"
proof (intro conjI impI)
  show "confirms (- 1) curHeight = 0"
    by (simp add: confirms_def)
  show "confirms txHeight curHeight = 0" if "curHeight < txHeight"
    using that by (simp add: confirms_def)
  show "\<not> confirmed minconf txHeight curHeight" if "curHeight < txHeight" "1 \<le> minconf"
    using that by (simp add: confirmed_def confirms_def)
  show "0 \<le> confirms txHeight curHeight" if "curHeight - txHeight + 1 < 2147483648"
    using that by (simp add: confirms_def add32_def sub32_def wrap32_def)
next
  assume a: "findEligibleOutputs e w acct minconf curHeight unspent = Inr el \<and> 1 \<le> minconf \<and> c \<in> set el"
  then have "confirmed minconf (Height c) curHeight"
    using findEligibleOutputs_sound by blast
  with a have "1 \<le> confirms (Height c) curHeight"
    by (simp add: confirmed_def)
  then show "Height c \<noteq> - 1" and "Height c \<le> curHeight"
    by (auto simp: confirms_def split: if_splits)
qed

theorem confirms_zero_and_not_negative_witness:
  "(10::int) < 12 \<and> confirms 12 10 = 0 \<and> (1::int) \<le> 1 \<and> \<not> confirmed 1 12 10 \<and>
   10 - 5 + 1 < (2147483648::int) \<and> 0 \<le> confirms 5 10 \<and> confirms 5 10 = 6 \<and>
   findEligibleOutputs (testEnv True) \<lparr>lockedOutpoints = Map.empty, FeeIncrement = 1000, DisallowFree = False\<rparr>
       0 1 10 [mockCredit 1 3000000 hashOut1 12, mockCredit 2 9000000 hashOut2 5]
     = Inr [mockCredit 2 9000000 hashOut2 5] \<and>
   mockCredit 2 9000000 hashOut2 5 \<in> set [mockCredit 2 9000000 hashOut2 5] \<and>
   Height (mockCredit 2 9000000 hashOut2 5) \<noteq> - 1 \<and> Height (mockCredit 2 9000000 hashOut2 5) \<le> 10"
proof -
  have run: "findEligibleOutputs (testEnv True)
        \<lparr>lockedOutpoints = Map.empty, FeeIncrement = 1000, DisallowFree = False\<rparr>
        0 1 10 [mockCredit 1 3000000 hashOut1 12, mockCredit 2 9000000 hashOut2 5]
      = Inr [mockCredit 2 9000000 hashOut2 5]"
    by code_simp
  have c5: "confirms 5 10 = 6"
    by (simp add: confirms_def add32_def sub32_def wrap32_def)
  show ?thesis
    using run c5
      confirms_zero_and_not_negative [of 10 12 1 "testEnv True"
        "\<lparr>lockedOutpoints = Map.empty, FeeIncrement = 1000, DisallowFree = False\<rparr>" 0
        "[mockCredit 1 3000000 hashOut1 12, mockCredit 2 9000000 hashOut2 5]"
        "[mockCredit 2 9000000 hashOut2 5]" "mockCredit 2 9000000 hashOut2 5"]
      confirms_zero_and_not_negative [of 10 5 1 "testEnv True"
        "\<lparr>lockedOutpoints = Map.empty, FeeIncrement = 1000, DisallowFree = False\<rparr>" 0
        "[mockCredit 1 3000000 hashOut1 12, mockCredit 2 9000000 hashOut2 5]"
        "[mockCredit 2 9000000 hashOut2 5]" "mockCredit 2 9000000 hashOut2 5"]
    by (simp add: mockCredit_def)
qed

text \<open>
  Claim C10 as stated (never negative) fails where the \<open>int32\<close> sum overflows: a
  transaction of block 0 seen from height \<open>2^31 - 1\<close> has \<open>-2^31\<close> confirmations.
\<close>

theorem confirms_negative_counterexample:
  "int32 0 \<and> int32 2147483647 \<and> confirms 0 2147483647 = - 2147483648 \<and> confirms 0 2147483647 < 0"
  by (simp add: confirms_def add32_def sub32_def wrap32_def int32_def)

section \<open>Properties: the lock set\<close>

text \<open>
  Claim C9. After \<open>LockOutpoint\<close> the outpoint is locked, after \<open>UnlockOutpoint\<close> it is not,
  both leave every other outpoint as it was, and after \<open>ResetLockedOutpoints\<close> no outpoint
  is locked.
\<close>

theorem lock_set_operations:
  "LockedOutpoint (LockOutpoint w op) op \<and>
   \<not> LockedOutpoint (UnlockOutpoint w op) op \<and>
   (op' \<noteq> op \<longrightarrow>
      LockedOutpoint (LockOutpoint w op) op' = LockedOutpoint w op' \<and>
      LockedOutpoint (UnlockOutpoint w op) op' = LockedOutpoint w op') \<and>
   \<not> LockedOutpoint (ResetLockedOutpoints w) op'"
  by (simp add: LockedOutpoint_def LockOutpoint_def UnlockOutpoint_def ResetLockedOutpoints_def)

theorem lock_set_operations_witness:
  "\<lparr>Hash = txSha, Index = 2\<rparr> \<noteq> \<lparr>Hash = txSha, Index = 1\<rparr> \<and>
   LockedOutpoint (LockOutpoint (LockOutpoint \<lparr>lockedOutpoints = Map.empty, FeeIncrement = 1000, DisallowFree = False\<rparr>
        \<lparr>Hash = txSha, Index = 2\<rparr>) \<lparr>Hash = txSha, Index = 1\<rparr>) \<lparr>Hash = txSha, Index = 1\<rparr> \<and>
   LockedOutpoint (LockOutpoint (LockOutpoint \<lparr>lockedOutpoints = Map.empty, FeeIncrement = 1000, DisallowFree = False\<rparr>
        \<lparr>Hash = txSha, Index = 2\<rparr>) \<lparr>Hash = txSha, Index = 1\<rparr>) \<lparr>Hash = txSha, Index = 2\<rparr> \<and>
   \<not> LockedOutpoint (UnlockOutpoint (LockOutpoint \<lparr>lockedOutpoints = Map.empty, FeeIncrement = 1000, DisallowFree = False\<rparr>
        \<lparr>Hash = txSha, Index = 2\<rparr>) \<lparr>Hash = txSha, Index = 1\<rparr>) \<lparr>Hash = txSha, Index = 1\<rparr> \<and>
   LockedOutpoint (UnlockOutpoint (LockOutpoint \<lparr>lockedOutpoints = Map.empty, FeeIncrement = 1000, DisallowFree = False\<rparr>
        \<lparr>Hash = txSha, Index = 2\<rparr>) \<lparr>Hash = txSha, Index = 1\<rparr>) \<lparr>Hash = txSha, Index = 2\<rparr> \<and>
   \<not> LockedOutpoint (ResetLockedOutpoints (LockOutpoint \<lparr>lockedOutpoints = Map.empty, FeeIncrement = 1000, DisallowFree = False\<rparr>
        \<lparr>Hash = txSha, Index = 2\<rparr>)) \<lparr>Hash = txSha, Index = 2\<rparr>"
  using lock_set_operations [of
      "LockOutpoint \<lparr>lockedOutpoints = Map.empty, FeeIncrement = 1000, DisallowFree = False\<rparr> \<lparr>Hash = txSha, Index = 2\<rparr>"
      "\<lparr>Hash = txSha, Index = 1\<rparr>" "\<lparr>Hash = txSha, Index = 2\<rparr>"]
  by (simp add: LockedOutpoint_def LockOutpoint_def UnlockOutpoint_def ResetLockedOutpoints_def)

section \<open>Properties: the minimum fee\<close>

text \<open>
  Claim C5, as the code has it. With an increment in \<open>[0, max_amount]\<close>, \<open>minimumFee\<close> is
  the fee of steps 1 to 3 clamped to \<open>[0, max_amount]\<close> whenever that fee is not negative
  (so a fee above \<open>max_amount\<close> gives \<open>max_amount\<close>); a negative fee of steps 1 to 3 gives
  \<open>max_amount\<close>, not 0; and whenever step 3 raises the fee, the increment is returned as
  it is.
\<close>

theorem minimumFee_clamped:
  "(0 \<le> incr \<and> incr \<le> MaxSatoshi e \<and> 0 \<le> specFeeStep3 e incr txLen outs prevOutputs height disallow
      \<longrightarrow> minimumFee e incr txLen outs prevOutputs height disallow
            = specMinimumFee e incr txLen outs prevOutputs height disallow) \<and>
   (0 \<le> incr \<and> specFeeStep3 e incr txLen outs prevOutputs height disallow < 0
      \<longrightarrow> minimumFee e incr txLen outs prevOutputs height disallow = MaxSatoshi e) \<and>
   (specFeeStep2 e incr txLen prevOutputs height disallow < incr \<and>
    list_ex (\<lambda>txOut. Value txOut < SatoshiPerBitcent e) outs
      \<longrightarrow> minimumFee e incr txLen outs prevOutputs height disallow = incr)"
  by (auto simp: minimumFee_def specMinimumFee_def specFeeStep3_def specFeeStep2_def clampFee_def Let_def)

theorem minimumFee_clamped_witness:
  "(0::int) \<le> 1000 \<and> 1000 \<le> MaxSatoshi (testEnv True) \<and>
   specFeeStep2 (testEnv True) 1000 250 [mockCredit 4 100001000 hashOut4 10112] 11111 False = 0 \<and>
   list_ex (\<lambda>txOut. Value txOut < SatoshiPerBitcent (testEnv True))
     [\<lparr>Value = 5000, TxOutPkScript = p2pkhScript hashAddr1\<rparr>] \<and>
   specFeeStep3 (testEnv True) 1000 250 [\<lparr>Value = 5000, TxOutPkScript = p2pkhScript hashAddr1\<rparr>]
     [mockCredit 4 100001000 hashOut4 10112] 11111 False = 1000 \<and>
   minimumFee (testEnv True) 1000 250 [\<lparr>Value = 5000, TxOutPkScript = p2pkhScript hashAddr1\<rparr>]
     [mockCredit 4 100001000 hashOut4 10112] 11111 False = 1000 \<and>
   specMinimumFee (testEnv True) 1000 250 [\<lparr>Value = 5000, TxOutPkScript = p2pkhScript hashAddr1\<rparr>]
     [mockCredit 4 100001000 hashOut4 10112] 11111 False = 1000 \<and>
   (0::int) \<le> 4611686018427387904 \<and>
   specFeeStep3 (testEnv True) 4611686018427387904 1000 [] [] 0 True = - 9223372036854775808 \<and>
   minimumFee (testEnv True) 4611686018427387904 1000 [] [] 0 True = MaxSatoshi (testEnv True)"
proof -
  have a: "specFeeStep2 (testEnv True) 1000 250 [mockCredit 4 100001000 hashOut4 10112] 11111 False = 0"
    by code_simp
  have b: "specFeeStep3 (testEnv True) 1000 250 [\<lparr>Value = 5000, TxOutPkScript = p2pkhScript hashAddr1\<rparr>]
     [mockCredit 4 100001000 hashOut4 10112] 11111 False = 1000"
    by code_simp
  have c: "specMinimumFee (testEnv True) 1000 250 [\<lparr>Value = 5000, TxOutPkScript = p2pkhScript hashAddr1\<rparr>]
     [mockCredit 4 100001000 hashOut4 10112] 11111 False = 1000"
    by code_simp
  have d: "specFeeStep3 (testEnv True) 4611686018427387904 1000 [] [] 0 True = - 9223372036854775808"
    by code_simp
  have m: "MaxSatoshi (testEnv True) = 2100000000000000" "SatoshiPerBitcent (testEnv True) = 1000000"
    by (simp_all add: testEnv_def)
  show ?thesis
    using a b c d m
      minimumFee_clamped [of 1000 "testEnv True" 250
        "[\<lparr>Value = 5000, TxOutPkScript = p2pkhScript hashAddr1\<rparr>]"
        "[mockCredit 4 100001000 hashOut4 10112]" 11111 False]
      minimumFee_clamped [of 4611686018427387904 "testEnv True" 1000 "[]" "[]" 0 True]
    by simp
qed

text \<open>
  Claim C5 as stated fails for a negative fee of steps 1 to 3: the code returns
  \<open>max_amount\<close> where the clamp of the specification gives 0.
\<close>

theorem minimumFee_negative_counterexample:
  "specFeeStep3 (testEnv True) (- 1000) 250 [] [] 0 True = - 1000 \<and>
   specMinimumFee (testEnv True) (- 1000) 250 [] [] 0 True = 0 \<and>
   minimumFee (testEnv True) (- 1000) 250 [] [] 0 True = 2100000000000000"
  by code_simp

section \<open>Properties: signing\<close>

lemma signInputs_append:
  "signInputs e tx i (pre @ rest) =
     (case signInputs e tx i pre of
        Inl err \<Rightarrow> Inl err
      | Inr tx' \<Rightarrow> signInputs e tx' (i + length pre) rest)"
proof (induction pre arbitrary: tx i)
  case Nil
  then show ?case by simp
next
  case (Cons x xs)
  show ?case
    by (auto simp: Cons.IH split: prod.splits list.splits Address.splits option.splits
        ManagedAddress.splits cong: sum.case_cong)
qed

lemma signInputs_skip_all:
  "(\<forall>x \<in> set prevOutputs. length (fst (snd (ExtractPkScriptAddrs e (PkScript x)))) \<noteq> 1)
    \<Longrightarrow> signInputs e tx i prevOutputs = Inr tx"
proof (induction prevOutputs arbitrary: i)
  case Nil
  then show ?case by simp
next
  case (Cons x xs)
  then show ?case
    by (cases "snd (ExtractPkScriptAddrs e (PkScript x))")
       (auto split: list.splits)
qed

lemma signInputs_unsupported:
  "fst (snd (ExtractPkScriptAddrs e (PkScript x))) = [a] \<Longrightarrow> (\<forall>h. a \<noteq> AddressPubKeyHash h)
    \<Longrightarrow> signInputs e tx i (x # rest) = Inl ErrUnsupportedTransactionType"
  by (cases "snd (ExtractPkScriptAddrs e (PkScript x))"; cases a) auto

text \<open>
  Claim C2, as the code has it. When the script of a previous output yields exactly one
  address and that address is not a pay-to-pubkey-hash address, and the inputs before it
  were signed or passed over without error, \<open>signMsgTx\<close> returns
  \<open>ErrUnsupportedTransactionType\<close>. An input whose script yields no address or more than
  one is passed over and stays unsigned: when all inputs are such, \<open>signMsgTx\<close> returns
  the transaction as it was and no error.
\<close>

theorem signMsgTx_unsupported_or_skipped:
  "(length (pre @ x # post) = length (TxIn tx) \<and> signInputs e tx 0 pre = Inr tx' \<and>
    fst (snd (ExtractPkScriptAddrs e (PkScript x))) = [a] \<and> (\<forall>h. a \<noteq> AddressPubKeyHash h)
      \<longrightarrow> signMsgTx e tx (pre @ x # post) = Inl ErrUnsupportedTransactionType) \<and>
   (length prevOutputs = length (TxIn tx) \<and>
    (\<forall>x \<in> set prevOutputs. length (fst (snd (ExtractPkScriptAddrs e (PkScript x)))) \<noteq> 1)
      \<longrightarrow> signMsgTx e tx prevOutputs = Inr tx)"
proof (intro conjI impI)
  assume a: "length (pre @ x # post) = length (TxIn tx) \<and> signInputs e tx 0 pre = Inr tx' \<and>
    fst (snd (ExtractPkScriptAddrs e (PkScript x))) = [a] \<and> (\<forall>h. a \<noteq> AddressPubKeyHash h)"
  then have "signInputs e tx' (0 + length pre) (x # post) = Inl ErrUnsupportedTransactionType"
    using signInputs_unsupported by blast
  with a show "signMsgTx e tx (pre @ x # post) = Inl ErrUnsupportedTransactionType"
    unfolding signMsgTx_def signInputs_append by simp
next
  assume "length prevOutputs = length (TxIn tx) \<and>
    (\<forall>x \<in> set prevOutputs. length (fst (snd (ExtractPkScriptAddrs e (PkScript x)))) \<noteq> 1)"
  then show "signMsgTx e tx prevOutputs = Inr tx"
    by (simp add: signMsgTx_def signInputs_skip_all)
qed

theorem signMsgTx_unsupported_or_skipped_witness:
  "length ([mockCredit 4 15000000 hashOut4 (- 1)] @ scriptHashCredit # [])
     = length (TxIn (unsignedTx [4, 6])) \<and>
   signInputs (testEnv True) (unsignedTx [4, 6]) 0 [mockCredit 4 15000000 hashOut4 (- 1)]
     = Inr ((unsignedTx [4, 6])\<lparr>TxIn := [NewTxIn \<lparr>Hash = txSha, Index = 4\<rparr> (replicate 107 0),
                                            NewTxIn \<lparr>Hash = txSha, Index = 6\<rparr> []]\<rparr>) \<and>
   fst (snd (ExtractPkScriptAddrs (testEnv True) (PkScript scriptHashCredit)))
     = [AddressScriptHash hashAddr2] \<and>
   (\<forall>h. AddressScriptHash hashAddr2 \<noteq> AddressPubKeyHash h) \<and>
   signMsgTx (testEnv True) (unsignedTx [4, 6]) ([mockCredit 4 15000000 hashOut4 (- 1)] @ scriptHashCredit # [])
     = Inl ErrUnsupportedTransactionType \<and>
   length [nullDataCredit] = length (TxIn (unsignedTx [7])) \<and>
   length (fst (snd (ExtractPkScriptAddrs (testEnv True) (PkScript nullDataCredit)))) \<noteq> 1 \<and>
   signMsgTx (testEnv True) (unsignedTx [7]) [nullDataCredit] = Inr (unsignedTx [7])"
proof -
  have a: "signInputs (testEnv True) (unsignedTx [4, 6]) 0 [mockCredit 4 15000000 hashOut4 (- 1)]
     = Inr ((unsignedTx [4, 6])\<lparr>TxIn := [NewTxIn \<lparr>Hash = txSha, Index = 4\<rparr> (replicate 107 0),
                                            NewTxIn \<lparr>Hash = txSha, Index = 6\<rparr> []]\<rparr>)"
    by code_simp
  have b: "fst (snd (ExtractPkScriptAddrs (testEnv True) (PkScript scriptHashCredit)))
     = [AddressScriptHash hashAddr2]"
    by code_simp
  have c: "fst (snd (ExtractPkScriptAddrs (testEnv True) (PkScript nullDataCredit))) = []"
    by code_simp
  have l: "length (TxIn (unsignedTx [4, 6])) = 2" "length (TxIn (unsignedTx [7])) = 1"
    by (simp_all add: unsignedTx_def)
  show ?thesis
    using a b c l
      signMsgTx_unsupported_or_skipped [of "[mockCredit 4 15000000 hashOut4 (- 1)]" scriptHashCredit "[]"
        "unsignedTx [4, 6]" "testEnv True"
        "(unsignedTx [4, 6])\<lparr>TxIn := [NewTxIn \<lparr>Hash = txSha, Index = 4\<rparr> (replicate 107 0),
                                       NewTxIn \<lparr>Hash = txSha, Index = 6\<rparr> []]\<rparr>"
        "AddressScriptHash hashAddr2" "[]"]
      signMsgTx_unsupported_or_skipped [of "[]" nullDataCredit "[]" "unsignedTx [7]" "testEnv True"
        "unsignedTx [7]" "AddressScriptHash hashAddr2" "[nullDataCredit]"]
    by (simp del: signInputs.simps)
qed

text \<open>
  Claim C2 as stated fails for a previous output whose script yields no address: the
  input is passed over and \<open>signMsgTx\<close> returns without error.
\<close>

theorem signMsgTx_skips_counterexample:
  "ExtractPkScriptAddrs (testEnv True) (PkScript nullDataCredit) = (NonStandardTy, [], False) \<and>
   signMsgTx (testEnv True) (unsignedTx [7]) [nullDataCredit] = Inr (unsignedTx [7]) \<and>
   signMsgTx (testEnv True) (unsignedTx [7]) [nullDataCredit] \<noteq> Inl ErrUnsupportedTransactionType"
  by code_simp

section \<open>Properties: the wallet locker\<close>

lemma held_step:
  "walletLocker s ev = Some (s', out) \<Longrightarrow> held s \<Longrightarrow> \<not> isRelease ev
    \<Longrightarrow> held s' \<and> mgrLocked s' = mgrLocked s \<and> out = [] \<and> \<not> stopped s'"
  by (cases ev) (auto split: if_splits)

lemma held_run:
  "runLocker s evs = Some (s', out) \<Longrightarrow> held s \<Longrightarrow> \<forall>ev \<in> set evs. \<not> isRelease ev
    \<Longrightarrow> held s' \<and> mgrLocked s' = mgrLocked s \<and> out = []"
proof (induction evs arbitrary: s out s')
  case Nil
  then show ?case by simp
next
  case (Cons ev evs)
  from Cons.prems(1) obtain s1 out1 s2 out2 where
    st: "walletLocker s ev = Some (s1, out1)" and rn: "runLocker s1 evs = Some (s2, out2)"
    and eq: "s' = s2" "out = out1 @ out2"
    by (auto simp del: walletLocker.simps split: option.splits prod.splits)
  from held_step [OF st Cons.prems(2)] Cons.prems(3)
  have h1: "held s1 \<and> mgrLocked s1 = mgrLocked s \<and> out1 = []" by simp
  from Cons.IH [OF rn] h1 Cons.prems(3)
  have "held s2 \<and> mgrLocked s2 = mgrLocked s1 \<and> out2 = []" by simp
  with h1 eq show ?case by simp
qed

text \<open>
  Claim C8. While the goroutine holds the unlock (it waits for the release), it takes
  neither the timeout nor a lock request, and whatever happens before the release leaves
  the manager's lock state as it was and sends no notification; in particular a wallet
  that granted a hold stays unlocked until the release. A hold request in a locked state
  is answered with the error \<open>ErrLocked\<close> and changes nothing.
\<close>

theorem walletLocker_hold:
  "(held s \<longrightarrow> walletLocker s (TimeoutReceived lockOk) = None \<and> walletLocker s (LockRequest lockOk) = None) \<and>
   (held s \<and> (\<forall>ev \<in> set evs. \<not> isRelease ev) \<and> runLocker s evs = Some (s', out)
      \<longrightarrow> held s' \<and> mgrLocked s' = mgrLocked s \<and> out = []) \<and>
   (\<not> mgrLocked s \<and> \<not> held s \<and> \<not> stopped s \<and> (\<forall>ev \<in> set evs. \<not> isRelease ev) \<and>
    runLocker s (HoldUnlockRequest # evs) = Some (s', out)
      \<longrightarrow> held s' \<and> \<not> mgrLocked s' \<and> out = [HoldGranted]) \<and>
   (mgrLocked s \<and> \<not> held s \<and> \<not> stopped s \<longrightarrow> HoldUnlock s = Some (s, Inl ErrLocked))"
proof (intro conjI impI)
  show "walletLocker s (TimeoutReceived lockOk) = None" if "held s"
    using that by simp
  show "walletLocker s (LockRequest lockOk) = None" if "held s"
    using that by simp
  show "HoldUnlock s = Some (s, Inl ErrLocked)" if "mgrLocked s \<and> \<not> held s \<and> \<not> stopped s"
    using that by (simp add: HoldUnlock_def)
next
  assume a: "held s \<and> (\<forall>ev \<in> set evs. \<not> isRelease ev) \<and> runLocker s evs = Some (s', out)"
  then have "held s' \<and> mgrLocked s' = mgrLocked s \<and> out = []"
    using held_run by blast
  then show "held s'" and "mgrLocked s' = mgrLocked s" and "out = []"
    by simp_all
next
  assume a: "\<not> mgrLocked s \<and> \<not> held s \<and> \<not> stopped s \<and> (\<forall>ev \<in> set evs. \<not> isRelease ev) \<and>
    runLocker s (HoldUnlockRequest # evs) = Some (s', out)"
  then obtain out2 where rn: "runLocker (s\<lparr>held := True\<rparr>) evs = Some (s', out2)"
    and eq: "out = [HoldGranted] @ out2"
    by (auto split: option.splits prod.splits)
  have "held s' \<and> mgrLocked s' = mgrLocked (s\<lparr>held := True\<rparr>) \<and> out2 = []"
    using held_run [OF rn] a by simp
  with a eq show "held s'" and "\<not> mgrLocked s'" and "out = [HoldGranted]"
    by simp_all
qed

theorem walletLocker_hold_witness:
  "held \<lparr>mgrLocked = False, timeout = Pending, held = True, stopped = False\<rparr> \<and>
   walletLocker \<lparr>mgrLocked = False, timeout = Pending, held = True, stopped = False\<rparr> (TimeoutReceived True) = None \<and>
   \<not> isRelease TimerExpires \<and>
   runLocker \<lparr>mgrLocked = False, timeout = Pending, held = True, stopped = False\<rparr> [TimerExpires]
     = Some (\<lparr>mgrLocked = False, timeout = Fired, held = True, stopped = False\<rparr>, []) \<and>
   \<not> mgrLocked \<lparr>mgrLocked = False, timeout = Pending, held = False, stopped = False\<rparr> \<and>
   \<not> held \<lparr>mgrLocked = False, timeout = Pending, held = False, stopped = False\<rparr> \<and>
   \<not> stopped \<lparr>mgrLocked = False, timeout = Pending, held = False, stopped = False\<rparr> \<and>
   runLocker \<lparr>mgrLocked = False, timeout = Pending, held = False, stopped = False\<rparr>
       (HoldUnlockRequest # [TimerExpires])
     = Some (\<lparr>mgrLocked = False, timeout = Fired, held = True, stopped = False\<rparr>, [HoldGranted]) \<and>
   mgrLocked \<lparr>mgrLocked = True, timeout = NoTimer, held = False, stopped = False\<rparr> \<and>
   HoldUnlock \<lparr>mgrLocked = True, timeout = NoTimer, held = False, stopped = False\<rparr>
     = Some (\<lparr>mgrLocked = True, timeout = NoTimer, held = False, stopped = False\<rparr>, Inl ErrLocked)"
  using
    walletLocker_hold [of "\<lparr>mgrLocked = False, timeout = Pending, held = True, stopped = False\<rparr>" True
      "[TimerExpires]" "\<lparr>mgrLocked = False, timeout = Fired, held = True, stopped = False\<rparr>" "[]"]
    walletLocker_hold [of "\<lparr>mgrLocked = False, timeout = Pending, held = False, stopped = False\<rparr>" True
      "[TimerExpires]" "\<lparr>mgrLocked = False, timeout = Fired, held = True, stopped = False\<rparr>" "[HoldGranted]"]
    walletLocker_hold [of "\<lparr>mgrLocked = True, timeout = NoTimer, held = False, stopped = False\<rparr>" True
      "[]" "\<lparr>mgrLocked = True, timeout = NoTimer, held = False, stopped = False\<rparr>" "[]"]
  by (simp add: HoldUnlock_def)

section \<open>Properties: the selection loops\<close>

declare selectInitial.simps [simp del] ensureFee.simps [simp del]

lemma int64_wrap64: "int64 (wrap64 x)"
  by (simp add: int64_def wrap64_def)

lemma int64_add64: "int64 (add64 a b)"
  by (simp add: add64_def int64_wrap64)

lemma sumAmount_simps [simp]: "sumAmount [] = 0" "sumAmount (x # xs) = Amount x + sumAmount xs"
  "sumAmount (xs @ ys) = sumAmount xs + sumAmount ys"
  by (simp_all add: sumAmount_def)

lemma add64_id:
  "- 9223372036854775808 \<le> a + b \<Longrightarrow> a + b < 9223372036854775808 \<Longrightarrow> add64 a b = a + b"
  by (simp add: add64_def wrap64_def)

lemma sumAmount_nonneg: "list_all (\<lambda>x. 0 \<le> Amount x) xs \<Longrightarrow> 0 \<le> sumAmount xs"
  by (induction xs) auto

lemma total_pop:
  "eligible s = x # rest \<Longrightarrow> totalAdded s' = add64 (totalAdded s) (Amount x) \<Longrightarrow> eligible s' = rest
    \<Longrightarrow> total s' = total s"
  by (simp add: total_def add64_def wrap64_add_left add.assoc)

lemma selectInitial_Inl:
  "selectInitial m s = Inl err \<Longrightarrow> int64 (totalAdded s)
    \<Longrightarrow> err = InsufficientFundsError (total s) m 0 \<and> total s < m"
proof (induction m s rule: selectInitial.induct)
  case (1 m s)
  show ?case
  proof (cases "eligible s")
    case Nil
    with "1.prems" show ?thesis
      by (auto simp: selectInitial.simps [of m s] total_def wrap64_id split: if_splits)
  next
    case (Cons x rest)
    let ?s' = "s\<lparr>eligible := rest, inputs := inputs s @ [x],
                 msgtx := AddTxIn (msgtx s) (NewTxIn (OutPoint x) []),
                 totalAdded := add64 (totalAdded s) (Amount x)\<rparr>"
    from "1.prems" Cons have lt: "totalAdded s < m" and rec: "selectInitial m ?s' = Inl err"
      by (auto simp: selectInitial.simps [of m s] split: if_splits)
    have "err = InsufficientFundsError (total ?s') m 0 \<and> total ?s' < m"
      using "1.IH" [OF lt Cons rec] by (simp add: int64_add64)
    moreover have "total ?s' = total s"
      by (rule total_pop [OF Cons]) simp_all
    ultimately show ?thesis by simp
  qed
qed

lemma popped_refl: "int64 (totalAdded s) \<Longrightarrow> popped s s"
  by (simp add: popped_def)

lemma popped_step:
  assumes el: "eligible s = x # rest"
    and s1: "eligible s1 = rest" "inputs s1 = inputs s @ [x]"
      "msgtx s1 = AddTxIn (msgtx s) (NewTxIn (OutPoint x) [])"
      "totalAdded s1 = add64 (totalAdded s) (Amount x)"
      "changeAddr s1 = changeAddr s" "changeIdx s1 = changeIdx s"
    and p: "popped s1 s'"
  shows "popped s s'"
proof -
  from p obtain pre where pre: "eligible s1 = pre @ eligible s'" "inputs s' = inputs s1 @ pre"
    "TxIn (msgtx s') = TxIn (msgtx s1) @ map (\<lambda>x. NewTxIn (OutPoint x) []) pre"
    and rest: "TxOut (msgtx s') = TxOut (msgtx s1)" "changeAddr s' = changeAddr s1"
      "changeIdx s' = changeIdx s1" "total s' = total s1" "int64 (totalAdded s')"
    by (auto simp: popped_def)
  have t: "total s1 = total s"
    by (rule total_pop [OF el s1(4) s1(1)])
  have "eligible s = (x # pre) @ eligible s' \<and> inputs s' = inputs s @ (x # pre) \<and>
        TxIn (msgtx s') = TxIn (msgtx s) @ map (\<lambda>x. NewTxIn (OutPoint x) []) (x # pre)"
    using el s1 pre by (simp add: AddTxIn_def)
  then show ?thesis
    unfolding popped_def using rest t s1 by (auto simp: AddTxIn_def)
qed

lemma selectInitial_Inr:
  "selectInitial m s = Inr s' \<Longrightarrow> int64 (totalAdded s)
    \<Longrightarrow> popped s s' \<and> \<not> totalAdded s' < m \<and> szEst s' = szEst s \<and> feeEst s' = feeEst s"
proof (induction m s rule: selectInitial.induct)
  case (1 m s)
  show ?case
  proof (cases "totalAdded s < m")
    case False
    with "1.prems" show ?thesis
      by (simp add: selectInitial.simps [of m s] popped_refl)
  next
    case True
    with "1.prems" obtain x rest where Cons: "eligible s = x # rest"
      by (cases "eligible s") (auto simp: selectInitial.simps [of m s])
    let ?s' = "s\<lparr>eligible := rest, inputs := inputs s @ [x],
                 msgtx := AddTxIn (msgtx s) (NewTxIn (OutPoint x) []),
                 totalAdded := add64 (totalAdded s) (Amount x)\<rparr>"
    from "1.prems" Cons True have rec: "selectInitial m ?s' = Inr s'"
      by (auto simp: selectInitial.simps [of m s])
    have ih: "popped ?s' s' \<and> \<not> totalAdded s' < m \<and> szEst s' = szEst ?s' \<and> feeEst s' = feeEst ?s'"
      using "1.IH" [OF True Cons rec] by (simp add: int64_add64)
    have "popped s s'"
      by (rule popped_step [OF Cons _ _ _ _ _ _ conjunct1 [OF ih]]) simp_all
    with ih show ?thesis by simp
  qed
qed

lemma ensureFee_Inl:
  "ensureFee e c s = Inl err \<Longrightarrow> int64 (totalAdded s)
    \<Longrightarrow> err = InsufficientFundsError (total s) (minAmount c) (feeAtExhaustion e c s) \<and>
        total s < add64 (minAmount c) (feeAtExhaustion e c s)"
proof (induction e c s rule: ensureFee.induct)
  case (1 e c s)
  show ?case
  proof (cases "eligible s")
    case Nil
    with "1.prems" show ?thesis
      by (auto simp: ensureFee.simps [of e c s] total_def wrap64_id feeAtExhaustion_def split: if_splits)
  next
    case (Cons x rest)
    let ?sz = "add64 (szEst s) txInEstimate"
    let ?s' = "s\<lparr>eligible := rest, inputs := inputs s @ [x],
                 msgtx := AddTxIn (msgtx s) (NewTxIn (OutPoint x) []),
                 szEst := ?sz,
                 totalAdded := add64 (totalAdded s) (Amount x),
                 feeEst := minimumFee e (feeIncrement c) ?sz (TxOut (msgtx s)) (inputs s @ [x])
                             (bsHeight c) (disallowFree c)\<rparr>"
    from "1.prems" Cons have lt: "totalAdded s < add64 (minAmount c) (feeEst s)"
      and rec: "ensureFee e c ?s' = Inl err"
      by (auto simp: ensureFee.simps [of e c s] Let_def split: if_splits)
    have ih: "err = InsufficientFundsError (total ?s') (minAmount c) (feeAtExhaustion e c ?s') \<and>
          total ?s' < add64 (minAmount c) (feeAtExhaustion e c ?s')"
      using "1.IH" [OF lt Cons refl refl rec] by (simp add: int64_add64)
    have t: "total ?s' = total s"
      by (rule total_pop [OF Cons]) simp_all
    have "wrap64 (?sz + txInEstimate * int (length rest))
            = wrap64 (szEst s + txInEstimate + txInEstimate * int (length rest))"
      by (simp only: add64_def wrap64_add_left)
    also have "szEst s + txInEstimate + txInEstimate * int (length rest)
            = szEst s + txInEstimate * int (length (x # rest))"
      by (simp add: algebra_simps)
    finally have f: "feeAtExhaustion e c ?s' = feeAtExhaustion e c s"
      using Cons by (auto simp: feeAtExhaustion_def AddTxIn_def add64_def wrap64_id [OF int64_wrap64])
    from ih t f show ?thesis by simp
  qed
qed

lemma ensureFee_Inr:
  "ensureFee e c s = Inr s' \<Longrightarrow> int64 (totalAdded s)
    \<Longrightarrow> popped s s' \<and> \<not> totalAdded s' < add64 (minAmount c) (feeEst s')"
proof (induction e c s rule: ensureFee.induct)
  case (1 e c s)
  show ?case
  proof (cases "totalAdded s < add64 (minAmount c) (feeEst s)")
    case False
    with "1.prems" show ?thesis
      by (simp add: ensureFee.simps [of e c s] popped_refl)
  next
    case True
    with "1.prems" obtain x rest where Cons: "eligible s = x # rest"
      by (cases "eligible s") (auto simp: ensureFee.simps [of e c s])
    let ?sz = "add64 (szEst s) txInEstimate"
    let ?s' = "s\<lparr>eligible := rest, inputs := inputs s @ [x],
                 msgtx := AddTxIn (msgtx s) (NewTxIn (OutPoint x) []),
                 szEst := ?sz,
                 totalAdded := add64 (totalAdded s) (Amount x),
                 feeEst := minimumFee e (feeIncrement c) ?sz (TxOut (msgtx s)) (inputs s @ [x])
                             (bsHeight c) (disallowFree c)\<rparr>"
    from "1.prems" Cons True have rec: "ensureFee e c ?s' = Inr s'"
      by (auto simp: ensureFee.simps [of e c s] Let_def)
    have ih: "popped ?s' s' \<and> \<not> totalAdded s' < add64 (minAmount c) (feeEst s')"
      using "1.IH" [OF True Cons refl refl rec] by (simp add: int64_add64)
    have "popped s s'"
      by (rule popped_step [OF Cons _ _ _ _ _ _ conjunct1 [OF ih]]) simp_all
    with ih show ?thesis by simp
  qed
qed

lemma addOutputs_Inl:
  "addOutputs e tx ps acc = Inl err \<Longrightarrow> err \<noteq> InsufficientFundsError i out f"
  by (induction e tx ps acc rule: addOutputs.induct) (auto split: if_splits option.splits)

lemma addOutputs_Inr:
  "addOutputs e tx ps acc = Inr (tx', m) \<Longrightarrow> int64 acc
    \<Longrightarrow> m = wrap64 (acc + sum_list (map snd ps)) \<and> (\<forall>p \<in> set ps. 0 < snd p)"
proof (induction e tx ps acc rule: addOutputs.induct)
  case (1 e tx minAmount)
  then show ?case by (simp add: wrap64_id)
next
  case (2 e tx addrStr amt pairs minAmount)
  from "2.prems" obtain addr pkScript where
    pos: "\<not> amt \<le> 0" and d: "DecodeAddress e addrStr = Some addr"
    and p: "PayToAddrScript e addr = Some pkScript"
    and rec: "addOutputs e (AddTxOut tx (NewTxOut amt pkScript)) pairs (add64 minAmount amt) = Inr (tx', m)"
    by (auto split: if_splits option.splits)
  have "m = wrap64 (add64 minAmount amt + sum_list (map snd pairs)) \<and> (\<forall>p \<in> set pairs. 0 < snd p)"
    using "2.IH" [OF pos d p rec] by (simp add: int64_add64)
  with pos show ?case
    by (simp add: add64_def wrap64_add_left add.assoc)
qed

lemma signInputs_Inl:
  "signInputs e tx i prevOutputs = Inl err \<Longrightarrow> err \<noteq> InsufficientFundsError j out f"
  by (induction e tx i prevOutputs rule: signInputs.induct)
     (auto split: prod.splits list.splits Address.splits option.splits ManagedAddress.splits)

lemma signMsgTx_Inl:
  "signMsgTx e tx prevOutputs = Inl err \<Longrightarrow> err \<noteq> InsufficientFundsError j out f"
  using signInputs_Inl by (auto simp: signMsgTx_def split: if_splits)

lemma validateInputs_Some:
  "validateInputs e tx prevOutputs idxs = Some err \<Longrightarrow> err \<noteq> InsufficientFundsError j out f"
  by (induction idxs) (auto split: if_splits)

lemma withChange_Inl:
  "withChange e c r change s = Inl err \<Longrightarrow> err \<noteq> InsufficientFundsError j out f"
  by (auto simp: withChange_def addChange_def Let_def split: if_splits option.splits sum.splits prod.splits)

lemma withChange_Inr:
  "withChange e c r change s = Inr s' \<Longrightarrow> sameFunds s s'"
  by (auto simp: withChange_def sameFunds_def split: if_splits option.splits sum.splits prod.splits)

lemma total_sameFunds: "sameFunds s s' \<Longrightarrow> total s' = total s"
  by (simp add: sameFunds_def total_def)

text \<open>The state with which a round enters its last loop.\<close>

lemma convergeStep_cases:
  assumes "convergeStep e c r s = res"
  obtains
    (change_failed) err where "withChange e c r (sub64 (sub64 (totalAdded s) (minAmount c)) (feeEst s)) s = Inl err"
      "res = Failed err"
  | (sign_failed) s1 err where "withChange e c r (sub64 (sub64 (totalAdded s) (minAmount c)) (feeEst s)) s = Inr s1"
      "signMsgTx e (msgtx s1) (inputs s1) = Inl err" "res = Failed err"
  | (finished) s1 tx where "withChange e c r (sub64 (sub64 (totalAdded s) (minAmount c)) (feeEst s)) s = Inr s1"
      "signMsgTx e (msgtx s1) (inputs s1) = Inr tx"
      "feeForSize (feeIncrement c) (SerializeSize e tx) \<le> feeEst s1" "res = Done (s1\<lparr>msgtx := tx\<rparr>)"
  | (again) s1 tx s4 where "withChange e c r (sub64 (sub64 (totalAdded s) (minAmount c)) (feeEst s)) s = Inr s1"
      "signMsgTx e (msgtx s1) (inputs s1) = Inr tx"
      "\<not> feeForSize (feeIncrement c) (SerializeSize e tx) \<le> feeEst s1"
      "sameFunds (s\<lparr>feeEst := add64 (feeEst s) (feeIncrement c)\<rparr>) s4"
      "res = (case ensureFee e c s4 of Inl err \<Rightarrow> Failed err | Inr s5 \<Rightarrow> Continue s5)"
proof (cases "withChange e c r (sub64 (sub64 (totalAdded s) (minAmount c)) (feeEst s)) s")
  case (Inl err)
  with assms have "res = Failed err"
    by (simp add: convergeStep_def Let_def)
  with Inl show ?thesis by (rule change_failed)
next
  case (Inr s1)
  note w = Inr
  have sf: "sameFunds s s1"
    by (rule withChange_Inr [OF w])
  show ?thesis
  proof (cases "signMsgTx e (msgtx s1) (inputs s1)")
    case (Inl err)
    with assms w have "res = Failed err"
      by (simp add: convergeStep_def Let_def)
    with w Inl show ?thesis by (rule sign_failed)
  next
    case (Inr tx)
    show ?thesis
    proof (cases "feeForSize (feeIncrement c) (SerializeSize e tx) \<le> feeEst s1")
      case True
      with assms w Inr have "res = Done (s1\<lparr>msgtx := tx\<rparr>)"
        by (simp add: convergeStep_def Let_def)
      with w Inr True show ?thesis by (rule finished)
    next
      case False
      let ?ch = "sub64 (sub64 (totalAdded s) (minAmount c)) (feeEst s)"
      let ?s2 = "s1\<lparr>msgtx := tx\<rparr>"
      let ?s3 = "if ?ch > 0 then ?s2\<lparr>msgtx := removeChange (msgtx ?s2) (changeIdx ?s2)\<rparr> else ?s2"
      let ?s4 = "?s3\<lparr>feeEst := add64 (feeEst ?s3) (feeIncrement c)\<rparr>"
      from assms w Inr False
      have r: "res = (case ensureFee e c ?s4 of Inl err \<Rightarrow> Failed err | Inr s5 \<Rightarrow> Continue s5)"
        by (simp add: convergeStep_def Let_def)
      have "sameFunds (s\<lparr>feeEst := add64 (feeEst s) (feeIncrement c)\<rparr>) ?s4"
        using sf by (simp add: sameFunds_def)
      with w Inr False show ?thesis using r by (rule again)
    qed
  qed
qed

lemma popped_total: "popped s s' \<Longrightarrow> total s' = total s \<and> int64 (totalAdded s')"
  by (simp add: popped_def)

lemma convergeStep_Failed_funds:
  assumes "convergeStep e c r s = Failed (InsufficientFundsError i out f)" and "int64 (totalAdded s)"
  shows "i = total s \<and> out = minAmount c \<and> i < add64 out f"
  using assms(1)
proof (cases rule: convergeStep_cases)
  case (change_failed err)
  then show ?thesis using withChange_Inl by blast
next
  case (sign_failed s1 err)
  then show ?thesis using signMsgTx_Inl by blast
next
  case (finished s1 tx)
  then show ?thesis by simp
next
  case (again s1 tx s4)
  from again(5) obtain err where err: "ensureFee e c s4 = Inl err"
    and eq: "err = InsufficientFundsError i out f"
    by (auto split: sum.splits)
  have i4: "int64 (totalAdded s4)" and t4: "total s4 = total s"
    using again(4) assms(2) by (simp_all add: sameFunds_def total_def)
  from ensureFee_Inl [OF err i4] eq t4 show ?thesis by simp
qed

lemma convergeStep_Continue_total:
  assumes "convergeStep e c r s = Continue s'" and "int64 (totalAdded s)"
  shows "total s' = total s \<and> int64 (totalAdded s')"
  using assms(1)
proof (cases rule: convergeStep_cases)
  case (again s1 tx s4)
  from again(5) have ok: "ensureFee e c s4 = Inr s'"
    by (auto split: sum.splits)
  have i4: "int64 (totalAdded s4)" and t4: "total s4 = total s"
    using again(4) assms(2) by (simp_all add: sameFunds_def total_def)
  from ensureFee_Inr [OF ok i4] popped_total t4 show ?thesis by auto
qed simp_all

lemma convergeLoop_funds:
  "convergeLoop fuel e c rnd k s = Some (Inl (InsufficientFundsError i out f)) \<Longrightarrow> int64 (totalAdded s)
    \<Longrightarrow> i = total s \<and> out = minAmount c \<and> i < add64 out f"
proof (induction fuel arbitrary: k s)
  case 0
  then show ?case by simp
next
  case (Suc fuel)
  show ?case
  proof (cases "convergeStep e c (rnd k) s")
    case (Done s')
    with Suc.prems show ?thesis by simp
  next
    case (Continue s')
    with Suc.prems have rec: "convergeLoop fuel e c rnd (Suc k) s' = Some (Inl (InsufficientFundsError i out f))"
      by simp
    from convergeStep_Continue_total [OF Continue Suc.prems(2)] Suc.IH [OF rec]
    show ?thesis by auto
  next
    case (Failed err)
    with Suc.prems have "err = InsufficientFundsError i out f" by simp
    with Failed convergeStep_Failed_funds Suc.prems(2) show ?thesis by blast
  qed
qed

lemma int64_0: "int64 0"
  by (simp add: int64_def)

lemma selectInputs_Inl_funds:
  assumes "selectInputs e elig outputs height feeIncr acct disallow = Inl (InsufficientFundsError i out f)"
  shows "i = wrap64 (sumAmount (sortReverseByAmount e elig)) \<and> out = wrap64 (sum_list (map snd outputs)) \<and>
         (f = 0 \<and> i < out \<or> i < add64 out f)"
proof (cases "addOutputs e NewMsgTx outputs 0")
  case (Inl err)
  with assms have "err = InsufficientFundsError i out f"
    by (simp add: selectInputs_def)
  with Inl addOutputs_Inl show ?thesis by blast
next
  case (Inr p)
  then obtain tx m where ao: "addOutputs e NewMsgTx outputs 0 = Inr (tx, m)"
    by (cases p) simp
  from addOutputs_Inr [OF ao int64_0] have m: "m = wrap64 (sum_list (map snd outputs))"
    by simp
  let ?s0 = "\<lparr>eligible = sortReverseByAmount e elig, inputs = [], msgtx = tx,
              totalAdded = 0, szEst = 0, feeEst = 0, changeAddr = None, changeIdx = - 1\<rparr>"
  have t0: "total ?s0 = wrap64 (sumAmount (sortReverseByAmount e elig))"
    by (simp add: total_def)
  show ?thesis
  proof (cases "selectInitial m ?s0")
    case (Inl err)
    with assms ao have "err = InsufficientFundsError i out f"
      by (simp add: selectInputs_def)
    with selectInitial_Inl [OF Inl] t0 m show ?thesis
      by (simp add: int64_0)
  next
    case (Inr s)
    let ?c = "\<lparr>feeIncrement = feeIncr, minAmount = m, bsHeight = height,
               disallowFree = disallow, account = acct\<rparr>"
    let ?sz = "estimateTxSize (int (length (inputs s))) (int (length (TxOut (msgtx s))))"
    let ?s1 = "s\<lparr>szEst := ?sz, feeEst := minimumFee e feeIncr ?sz (TxOut (msgtx s)) (inputs s) height disallow\<rparr>"
    from selectInitial_Inr [OF Inr] have ps: "popped ?s0 s"
      by (simp add: int64_0)
    from assms ao Inr have err: "ensureFee e ?c ?s1 = Inl (InsufficientFundsError i out f)"
      by (simp add: selectInputs_def Let_def split: sum.splits)
    have i1: "int64 (totalAdded ?s1)" and t1: "total ?s1 = total ?s0"
      using popped_total [OF ps] by (simp_all add: total_def)
    from ensureFee_Inl [OF err i1] t1 t0 m show ?thesis by simp
  qed
qed

lemma selectInputs_Inr:
  assumes "selectInputs e elig outputs height feeIncr acct disallow = Inr (c, s)"
  shows "total s = wrap64 (sumAmount (sortReverseByAmount e elig)) \<and>
         minAmount c = wrap64 (sum_list (map snd outputs)) \<and> int64 (totalAdded s)"
proof -
  from assms obtain tx m where ao: "addOutputs e NewMsgTx outputs 0 = Inr (tx, m)"
    by (auto simp: selectInputs_def split: sum.splits)
  from addOutputs_Inr [OF ao int64_0] have m: "m = wrap64 (sum_list (map snd outputs))"
    by simp
  let ?s0 = "\<lparr>eligible = sortReverseByAmount e elig, inputs = [], msgtx = tx,
              totalAdded = 0, szEst = 0, feeEst = 0, changeAddr = None, changeIdx = - 1\<rparr>"
  from assms ao obtain s0' where si: "selectInitial m ?s0 = Inr s0'"
    by (auto simp: selectInputs_def split: sum.splits)
  let ?c = "\<lparr>feeIncrement = feeIncr, minAmount = m, bsHeight = height,
             disallowFree = disallow, account = acct\<rparr>"
  let ?sz = "estimateTxSize (int (length (inputs s0'))) (int (length (TxOut (msgtx s0'))))"
  let ?s1 = "s0'\<lparr>szEst := ?sz, feeEst := minimumFee e feeIncr ?sz (TxOut (msgtx s0')) (inputs s0') height disallow\<rparr>"
  from assms ao si have ef: "ensureFee e ?c ?s1 = Inr s" and c: "c = ?c"
    by (auto simp: selectInputs_def Let_def split: sum.splits)
  from selectInitial_Inr [OF si] have ps: "popped ?s0 s0'"
    by (simp add: int64_0)
  have i1: "int64 (totalAdded ?s1)" and t1: "total ?s1 = total ?s0"
    using popped_total [OF ps] by (simp_all add: total_def)
  from ensureFee_Inr [OF ef i1] have "popped ?s1 s" by simp
  from popped_total [OF this] t1 c m show ?thesis
    by (simp add: total_def)
qed

lemma createTx_funds:
  assumes "createTx fuel e rnd elig outputs height feeIncr acct disallow
             = Some (Inl (InsufficientFundsError i out f))"
  shows "i = wrap64 (sumAmount (sortReverseByAmount e elig)) \<and> out = wrap64 (sum_list (map snd outputs)) \<and>
         (f = 0 \<and> i < out \<or> i < add64 out f)"
proof (cases "selectInputs e elig outputs height feeIncr acct disallow")
  case (Inl err)
  with assms have "err = InsufficientFundsError i out f"
    by (simp add: createTx_def)
  with Inl selectInputs_Inl_funds show ?thesis by blast
next
  case (Inr p)
  then obtain c s where sel: "selectInputs e elig outputs height feeIncr acct disallow = Inr (c, s)"
    by (cases p) simp
  note facts = selectInputs_Inr [OF sel]
  from assms sel have "convergeLoop fuel e c rnd 0 s = Some (Inl (InsufficientFundsError i out f))"
    using validateInputs_Some
    by (auto simp: createTx_def validateMsgTx_def split: option.splits sum.splits)
  from convergeLoop_funds [OF this] facts show ?thesis by auto
qed

lemma selectInitial_exhausted:
  "list_all (\<lambda>x. 0 \<le> Amount x) (eligible s) \<Longrightarrow> 0 \<le> totalAdded s
    \<Longrightarrow> totalAdded s + sumAmount (eligible s) < m \<Longrightarrow> int64 m
    \<Longrightarrow> selectInitial m s = Inl (InsufficientFundsError (totalAdded s + sumAmount (eligible s)) m 0)"
proof (induction m s rule: selectInitial.induct)
  case (1 m s)
  have nn: "0 \<le> sumAmount (eligible s)"
    by (rule sumAmount_nonneg [OF "1.prems"(1)])
  with "1.prems" have lt: "totalAdded s < m" by simp
  show ?case
  proof (cases "eligible s")
    case Nil
    with lt show ?thesis
      by (simp add: selectInitial.simps [of m s])
  next
    case (Cons x rest)
    let ?s' = "s\<lparr>eligible := rest, inputs := inputs s @ [x],
                 msgtx := AddTxIn (msgtx s) (NewTxIn (OutPoint x) []),
                 totalAdded := add64 (totalAdded s) (Amount x)\<rparr>"
    have r: "0 \<le> Amount x" "list_all (\<lambda>x. 0 \<le> Amount x) rest"
      using "1.prems"(1) Cons by simp_all
    have nr: "0 \<le> sumAmount rest"
      by (rule sumAmount_nonneg [OF r(2)])
    have ta: "add64 (totalAdded s) (Amount x) = totalAdded s + Amount x"
      using r nr "1.prems"(2,3,4) Cons by (intro add64_id) (simp_all add: int64_def)
    have "selectInitial m ?s' = Inl (InsufficientFundsError (totalAdded ?s' + sumAmount (eligible ?s')) m 0)"
      using r ta "1.prems"(2,3,4) Cons by (intro "1.IH" [OF lt Cons]) simp_all
    with lt Cons ta show ?thesis
      by (simp add: selectInitial.simps [of m s] add.assoc)
  qed
qed

lemma createTx_exhausted_first:
  assumes ao: "addOutputs e NewMsgTx outputs 0 = Inr (tx, m)"
    and nn: "list_all (\<lambda>x. 0 \<le> Amount x) (sortReverseByAmount e elig)"
    and lt: "sumAmount (sortReverseByAmount e elig) < m"
  shows "createTx fuel e rnd elig outputs height feeIncr acct disallow
           = Some (Inl (InsufficientFundsError (sumAmount (sortReverseByAmount e elig)) m 0))"
proof -
  from addOutputs_Inr [OF ao int64_0] have "int64 m"
    by (simp add: int64_wrap64)
  let ?s0 = "\<lparr>eligible = sortReverseByAmount e elig, inputs = [], msgtx = tx,
              totalAdded = 0, szEst = 0, feeEst = 0, changeAddr = None, changeIdx = - 1\<rparr>"
  have "selectInitial m ?s0
          = Inl (InsufficientFundsError (totalAdded ?s0 + sumAmount (eligible ?s0)) m 0)"
    using nn lt \<open>int64 m\<close> by (intro selectInitial_exhausted) simp_all
  with ao show ?thesis
    by (simp add: createTx_def selectInputs_def)
qed

declare selectInitialEnd.simps [simp del] ensureFeeEnd.simps [simp del]

lemma selectInitial_End:
  "selectInitial m s =
     (if totalAdded (selectInitialEnd m s) < m
      then Inl (InsufficientFundsError (totalAdded (selectInitialEnd m s)) m 0)
      else Inr (selectInitialEnd m s))"
proof (induction m s rule: selectInitial.induct)
  case (1 m s)
  show ?case
  proof (cases "totalAdded s < m")
    case False
    then show ?thesis
      by (simp add: selectInitial.simps [of m s] selectInitialEnd.simps [of m s])
  next
    case True
    show ?thesis
    proof (cases "eligible s")
      case Nil
      with True show ?thesis
        by (simp add: selectInitial.simps [of m s] selectInitialEnd.simps [of m s])
    next
      case (Cons x rest)
      from "1.IH" [OF True Cons] True Cons show ?thesis
        by (simp add: selectInitial.simps [of m s] selectInitialEnd.simps [of m s])
    qed
  qed
qed

lemma selectInitialEnd_dry:
  "totalAdded (selectInitialEnd m s) < m \<Longrightarrow> eligible (selectInitialEnd m s) = []"
proof (induction m s rule: selectInitialEnd.induct)
  case (1 m s)
  show ?case
  proof (cases "totalAdded s < m")
    case False
    with "1.prems" show ?thesis
      by (simp add: selectInitialEnd.simps [of m s])
  next
    case True
    show ?thesis
    proof (cases "eligible s")
      case Nil
      with True show ?thesis
        by (simp add: selectInitialEnd.simps [of m s])
    next
      case (Cons x rest)
      from "1.IH" [OF True Cons] "1.prems" True Cons show ?thesis
        by (simp add: selectInitialEnd.simps [of m s])
    qed
  qed
qed

lemma ensureFee_End:
  "ensureFee e c s =
     (if totalAdded (ensureFeeEnd e c s) < add64 (minAmount c) (feeEst (ensureFeeEnd e c s))
      then Inl (InsufficientFundsError (totalAdded (ensureFeeEnd e c s)) (minAmount c)
                  (feeEst (ensureFeeEnd e c s)))
      else Inr (ensureFeeEnd e c s))"
proof (induction e c s rule: ensureFee.induct)
  case (1 e c s)
  show ?case
  proof (cases "totalAdded s < add64 (minAmount c) (feeEst s)")
    case False
    then show ?thesis
      by (simp add: ensureFee.simps [of e c s] ensureFeeEnd.simps [of e c s])
  next
    case True
    show ?thesis
    proof (cases "eligible s")
      case Nil
      with True show ?thesis
        by (simp add: ensureFee.simps [of e c s] ensureFeeEnd.simps [of e c s])
    next
      case (Cons x rest)
      from "1.IH" [OF True Cons refl refl] True Cons show ?thesis
        by (simp add: ensureFee.simps [of e c s] ensureFeeEnd.simps [of e c s] Let_def)
    qed
  qed
qed

lemma ensureFeeEnd_dry:
  "totalAdded (ensureFeeEnd e c s) < add64 (minAmount c) (feeEst (ensureFeeEnd e c s))
    \<Longrightarrow> eligible (ensureFeeEnd e c s) = []"
proof (induction e c s rule: ensureFeeEnd.induct)
  case (1 e c s)
  show ?case
  proof (cases "totalAdded s < add64 (minAmount c) (feeEst s)")
    case False
    with "1.prems" show ?thesis
      by (simp add: ensureFeeEnd.simps [of e c s])
  next
    case True
    show ?thesis
    proof (cases "eligible s")
      case Nil
      with True show ?thesis
        by (simp add: ensureFeeEnd.simps [of e c s])
    next
      case (Cons x rest)
      from "1.IH" [OF True Cons refl refl] "1.prems" True Cons show ?thesis
        by (simp add: ensureFeeEnd.simps [of e c s] Let_def)
    qed
  qed
qed


lemma selectInitialEnd_all:
  assumes "totalAdded (selectInitialEnd m s) < m" and "int64 (totalAdded s)"
  shows "totalAdded (selectInitialEnd m s) = total s"
proof -
  from assms(1) have "selectInitial m s = Inl (InsufficientFundsError (totalAdded (selectInitialEnd m s)) m 0)"
    by (simp add: selectInitial_End)
  from selectInitial_Inl [OF this assms(2)] show ?thesis by simp
qed

lemma selectInitialEnd_popped:
  assumes "\<not> totalAdded (selectInitialEnd m s) < m" and "int64 (totalAdded s)"
  shows "popped s (selectInitialEnd m s)"
proof -
  from assms(1) have "selectInitial m s = Inr (selectInitialEnd m s)"
    by (simp add: selectInitial_End)
  from selectInitial_Inr [OF this assms(2)] show ?thesis by simp
qed

lemma ensureFeeEnd_all:
  assumes "totalAdded (ensureFeeEnd e c s) < add64 (minAmount c) (feeEst (ensureFeeEnd e c s))"
    and "int64 (totalAdded s)"
  shows "totalAdded (ensureFeeEnd e c s) = total s \<and> feeEst (ensureFeeEnd e c s) = feeAtExhaustion e c s"
proof -
  from assms(1) have "ensureFee e c s = Inl (InsufficientFundsError (totalAdded (ensureFeeEnd e c s))
      (minAmount c) (feeEst (ensureFeeEnd e c s)))"
    by (simp add: ensureFee_End)
  from ensureFee_Inl [OF this assms(2)] show ?thesis by simp
qed

lemma raisedFee_Some:
  assumes "raisedFee e c r s = Some s3"
  shows "convergeStep e c r s = (case ensureFee e c s3 of Inl err \<Rightarrow> Failed err | Inr s5 \<Rightarrow> Continue s5)"
    and "sameFunds (s\<lparr>feeEst := add64 (feeEst s) (feeIncrement c)\<rparr>) s3"
proof -
  let ?ch = "sub64 (sub64 (totalAdded s) (minAmount c)) (feeEst s)"
  from assms obtain s1 where w: "withChange e c r ?ch s = Inr s1"
    by (cases "withChange e c r ?ch s") (simp_all add: raisedFee_def Let_def)
  from assms w obtain tx where sg: "signMsgTx e (msgtx s1) (inputs s1) = Inr tx"
    by (cases "signMsgTx e (msgtx s1) (inputs s1)") (simp_all add: raisedFee_def Let_def)
  from assms w sg have low: "\<not> feeForSize (feeIncrement c) (SerializeSize e tx) \<le> feeEst s1"
    by (auto simp: raisedFee_def Let_def split: if_splits)
  let ?s2 = "s1\<lparr>msgtx := tx\<rparr>"
  let ?s3 = "if ?ch > 0 then ?s2\<lparr>msgtx := removeChange (msgtx ?s2) (changeIdx ?s2)\<rparr> else ?s2"
  from assms w sg low have s3: "s3 = ?s3\<lparr>feeEst := add64 (feeEst ?s3) (feeIncrement c)\<rparr>"
    by (simp add: raisedFee_def Let_def)
  from w sg low s3
  show "convergeStep e c r s = (case ensureFee e c s3 of Inl err \<Rightarrow> Failed err | Inr s5 \<Rightarrow> Continue s5)"
    by (simp add: convergeStep_def Let_def)
  from withChange_Inr [OF w] s3
  show "sameFunds (s\<lparr>feeEst := add64 (feeEst s) (feeIncrement c)\<rparr>) s3"
    by (simp add: sameFunds_def)
qed

lemma roundState_total:
  "roundState n e c rnd k s = Some s' \<Longrightarrow> int64 (totalAdded s)
    \<Longrightarrow> total s' = total s \<and> int64 (totalAdded s')"
proof (induction n arbitrary: k s)
  case 0
  then show ?case by simp
next
  case (Suc n)
  from Suc.prems(1) obtain s1 where st: "convergeStep e c (rnd k) s = Continue s1"
    and rec: "roundState n e c rnd (Suc k) s1 = Some s'"
    by (auto split: step.splits)
  from convergeStep_Continue_total [OF st Suc.prems(2)] Suc.IH [OF rec] show ?case
    by simp
qed

lemma roundState_Failed:
  "roundState n e c rnd k s = Some s' \<Longrightarrow> convergeStep e c (rnd (k + n)) s' = Failed err
    \<Longrightarrow> n < fuel \<Longrightarrow> convergeLoop fuel e c rnd k s = Some (Inl err)"
proof (induction n arbitrary: k s fuel)
  case 0
  then obtain f where "fuel = Suc f" by (cases fuel) simp_all
  with 0 show ?case by simp
next
  case (Suc n)
  from Suc.prems(1) obtain s1 where st: "convergeStep e c (rnd k) s = Continue s1"
    and rec: "roundState n e c rnd (Suc k) s1 = Some s'"
    by (auto split: step.splits)
  from Suc.prems(3) obtain f where f: "fuel = Suc f" "n < f" by (cases fuel) simp_all
  from Suc.prems(2) have "convergeStep e c (rnd (Suc k + n)) s' = Failed err" by simp
  from Suc.IH [OF rec this f(2)] st f(1) show ?case by simp
qed

lemma startState_total:
  "total (startState e elig tx) = wrap64 (sumAmount (sortReverseByAmount e elig))"
  "int64 (totalAdded (startState e elig tx))"
  by (simp_all add: startState_def total_def int64_0)

lemma createTx_dry_first:
  assumes ao: "addOutputs e NewMsgTx outputs 0 = Inr (tx, m)"
    and s1: "s1 = selectInitialEnd m (startState e elig tx)"
    and lt: "totalAdded s1 < m"
  shows "eligible s1 = [] \<and>
         createTx fuel e rnd elig outputs height feeIncr acct disallow
           = Some (Inl (InsufficientFundsError (totalAdded s1) m 0)) \<and>
         totalAdded s1 = wrap64 (sumAmount (sortReverseByAmount e elig)) \<and>
         m = wrap64 (sum_list (map snd outputs))"
proof -
  from addOutputs_Inr [OF ao int64_0] have m: "m = wrap64 (sum_list (map snd outputs))"
    by simp
  from lt s1 have dry: "eligible s1 = []"
    by (simp add: selectInitialEnd_dry)
  from lt s1 have "selectInitial m (startState e elig tx) = Inl (InsufficientFundsError (totalAdded s1) m 0)"
    by (simp add: selectInitial_End)
  with ao have r: "createTx fuel e rnd elig outputs height feeIncr acct disallow
           = Some (Inl (InsufficientFundsError (totalAdded s1) m 0))"
    by (simp add: createTx_def selectInputs_def startState_def)
  from lt have "totalAdded (selectInitialEnd m (startState e elig tx)) = total (startState e elig tx)"
    unfolding s1 by (rule selectInitialEnd_all) (rule startState_total)
  then have "totalAdded s1 = wrap64 (sumAmount (sortReverseByAmount e elig))"
    by (simp only: s1 startState_total)
  with dry r m show ?thesis
    by blast
qed

lemma createTx_dry_second:
  assumes ao: "addOutputs e NewMsgTx outputs 0 = Inr (tx, m)"
    and s1: "s1 = selectInitialEnd m (startState e elig tx)"
    and ge: "\<not> totalAdded s1 < m"
    and c: "c = callCtx m height feeIncr acct disallow"
    and s2: "s2 = ensureFeeEnd e c (firstEstimate e c s1)"
    and lt: "totalAdded s2 < add64 m (feeEst s2)"
  shows "eligible s2 = [] \<and>
         createTx fuel e rnd elig outputs height feeIncr acct disallow
           = Some (Inl (InsufficientFundsError (totalAdded s2) m (feeEst s2))) \<and>
         totalAdded s2 = wrap64 (sumAmount (sortReverseByAmount e elig)) \<and>
         m = wrap64 (sum_list (map snd outputs))"
proof -
  from addOutputs_Inr [OF ao int64_0] have m: "m = wrap64 (sum_list (map snd outputs))"
    by simp
  have mc: "minAmount c = m"
    by (simp add: c callCtx_def)
  from lt s2 mc have dry: "eligible s2 = []"
    by (simp add: ensureFeeEnd_dry)
  from ge s1 have si: "selectInitial m (startState e elig tx) = Inr s1"
    by (simp add: selectInitial_End)
  from lt s2 mc have ef: "ensureFee e c (firstEstimate e c s1)
      = Inl (InsufficientFundsError (totalAdded s2) m (feeEst s2))"
    by (simp add: ensureFee_End)
  from ao si ef have r: "createTx fuel e rnd elig outputs height feeIncr acct disallow
           = Some (Inl (InsufficientFundsError (totalAdded s2) m (feeEst s2)))"
    by (simp add: createTx_def selectInputs_def startState_def c callCtx_def firstEstimate_def Let_def)
  from ge have "popped (startState e elig tx) (selectInitialEnd m (startState e elig tx))"
    unfolding s1 by (rule selectInitialEnd_popped) (rule startState_total)
  then have "popped (startState e elig tx) s1"
    by (simp only: s1)
  from popped_total [OF this] have p: "total s1 = total (startState e elig tx)" "int64 (totalAdded s1)"
    by simp_all
  have f: "total (firstEstimate e c s1) = total s1" "totalAdded (firstEstimate e c s1) = totalAdded s1"
    by (simp_all add: firstEstimate_def Let_def total_def)
  from p(2) f(2) have i1: "int64 (totalAdded (firstEstimate e c s1))"
    by simp
  from lt have "totalAdded (ensureFeeEnd e c (firstEstimate e c s1))
      < add64 (minAmount c) (feeEst (ensureFeeEnd e c (firstEstimate e c s1)))"
    by (simp only: s2 mc)
  from ensureFeeEnd_all [OF this i1] have "totalAdded s2 = total (firstEstimate e c s1)"
    by (simp only: s2)
  with p(1) f(1) have "totalAdded s2 = wrap64 (sumAmount (sortReverseByAmount e elig))"
    by (simp only: startState_total)
  with dry r m show ?thesis
    by blast
qed

lemma createTx_dry_round:
  assumes sel: "selectInputs e elig outputs height feeIncr acct disallow = Inr (c, s0)"
    and rs: "roundState k e c rnd 0 s0 = Some s"
    and rf: "raisedFee e c (rnd k) s = Some s3"
    and s4: "s4 = ensureFeeEnd e c s3"
    and lt: "totalAdded s4 < add64 (minAmount c) (feeEst s4)"
    and k: "k < fuel"
  shows "eligible s4 = [] \<and>
         createTx fuel e rnd elig outputs height feeIncr acct disallow
           = Some (Inl (InsufficientFundsError (totalAdded s4) (minAmount c) (feeEst s4))) \<and>
         totalAdded s4 = wrap64 (sumAmount (sortReverseByAmount e elig)) \<and>
         minAmount c = wrap64 (sum_list (map snd outputs)) \<and>
         feeEst s4 = feeAtExhaustion e c s3"
proof -
  note facts = selectInputs_Inr [OF sel]
  from facts have i0: "int64 (totalAdded s0)" by simp
  from roundState_total [OF rs i0] have ts: "total s = total s0" "int64 (totalAdded s)"
    by simp_all
  from raisedFee_Some(2) [OF rf] ts have t3: "total s3 = total s0" "int64 (totalAdded s3)"
    by (simp_all add: sameFunds_def total_def)
  from lt s4 have dry: "eligible s4 = []"
    by (simp add: ensureFeeEnd_dry)
  from lt s4 have "ensureFee e c s3 = Inl (InsufficientFundsError (totalAdded s4) (minAmount c) (feeEst s4))"
    by (simp add: ensureFee_End)
  with raisedFee_Some(1) [OF rf]
  have "convergeStep e c (rnd (0 + k)) s = Failed (InsufficientFundsError (totalAdded s4) (minAmount c) (feeEst s4))"
    by simp
  from roundState_Failed [OF rs this k] sel
  have r: "createTx fuel e rnd elig outputs height feeIncr acct disallow
           = Some (Inl (InsufficientFundsError (totalAdded s4) (minAmount c) (feeEst s4)))"
    by (simp add: createTx_def)
  from lt have "totalAdded (ensureFeeEnd e c s3) < add64 (minAmount c) (feeEst (ensureFeeEnd e c s3))"
    by (simp only: s4)
  from ensureFeeEnd_all [OF this t3(2)]
  have "totalAdded s4 = total s3 \<and> feeEst s4 = feeAtExhaustion e c s3"
    by (simp only: s4)
  with dry r t3 facts show ?thesis by simp
qed

text \<open>
  Claim C7. \<open>createTx\<close> has three loops that select inputs, and in each of them the
  exhaustion of the eligible credits makes \<open>createTx\<close> fail with \<open>InsufficientFundsError\<close>,
  whose fields are the input total, the pay-list total and the fee estimate of the state
  in which the loop has stopped. In the first loop, which stops in \<open>s1\<close> without covering
  the pay-list total \<open>m\<close>, the fee is 0. In the second loop, which starts from the first
  estimates and stops in \<open>s2\<close> without covering \<open>m\<close> plus the fee estimate, and in the last
  loop of round \<open>k\<close> of the fee loop, which starts from \<open>s4\<close> with the raised fee and stops
  in \<open>s5\<close>, the fee is the estimate of that state; for the fee loop \<open>createTx\<close> is given the
  fuel for more than \<open>k\<close> rounds. In all three cases no eligible credit is left, the input
  total is the total of all credits and the pay-list total the sum of the pay-list, both
  in \<open>int64\<close> arithmetic.

  For the loops by themselves: with no eligible credit left while more is needed, a loop
  returns the error with the input total so far, the pay-list total and its fee estimate,
  0 in the first loop; and seen from the start of a loop that fails, the input total is
  \<open>total\<close> and the fee \<open>feeAtExhaustion\<close>. Last, every \<open>InsufficientFundsError\<close> of
  \<open>createTx\<close> carries the total of all credits and the pay-list total, with a fee of 0
  and inputs that do not cover the pay-list total, or with inputs that do not cover the
  pay-list total plus the fee; and credits, none of them negative, that add up to less
  than the pay-list total give the error with their total and the fee 0.
\<close>

theorem createTx_insufficient_funds:
  "(addOutputs e NewMsgTx outputs 0 = Inr (tx, m) \<and>
    s1 = selectInitialEnd m (startState e elig tx) \<and> totalAdded s1 < m
      \<longrightarrow> eligible s1 = [] \<and>
          createTx fuel e rnd elig outputs height feeIncr acct disallow
            = Some (Inl (InsufficientFundsError (totalAdded s1) m 0)) \<and>
          totalAdded s1 = wrap64 (sumAmount (sortReverseByAmount e elig)) \<and>
          m = wrap64 (sum_list (map snd outputs))) \<and>
   (addOutputs e NewMsgTx outputs 0 = Inr (tx, m) \<and>
    s1 = selectInitialEnd m (startState e elig tx) \<and> \<not> totalAdded s1 < m \<and>
    c1 = callCtx m height feeIncr acct disallow \<and>
    s2 = ensureFeeEnd e c1 (firstEstimate e c1 s1) \<and> totalAdded s2 < add64 m (feeEst s2)
      \<longrightarrow> eligible s2 = [] \<and>
          createTx fuel e rnd elig outputs height feeIncr acct disallow
            = Some (Inl (InsufficientFundsError (totalAdded s2) m (feeEst s2))) \<and>
          totalAdded s2 = wrap64 (sumAmount (sortReverseByAmount e elig)) \<and>
          m = wrap64 (sum_list (map snd outputs))) \<and>
   (selectInputs e elig outputs height feeIncr acct disallow = Inr (c2, s0) \<and>
    roundState k e c2 rnd 0 s0 = Some s3 \<and> raisedFee e c2 (rnd k) s3 = Some s4 \<and>
    s5 = ensureFeeEnd e c2 s4 \<and> totalAdded s5 < add64 (minAmount c2) (feeEst s5) \<and> k < fuel
      \<longrightarrow> eligible s5 = [] \<and>
          createTx fuel e rnd elig outputs height feeIncr acct disallow
            = Some (Inl (InsufficientFundsError (totalAdded s5) (minAmount c2) (feeEst s5))) \<and>
          totalAdded s5 = wrap64 (sumAmount (sortReverseByAmount e elig)) \<and>
          minAmount c2 = wrap64 (sum_list (map snd outputs)) \<and>
          feeEst s5 = feeAtExhaustion e c2 s4) \<and>
   (eligible s = [] \<and> totalAdded s < m
      \<longrightarrow> selectInitial m s = Inl (InsufficientFundsError (totalAdded s) m 0)) \<and>
   (eligible s = [] \<and> totalAdded s < add64 (minAmount c) (feeEst s)
      \<longrightarrow> ensureFee e c s = Inl (InsufficientFundsError (totalAdded s) (minAmount c) (feeEst s))) \<and>
   (int64 (totalAdded s) \<and> selectInitial m s = Inl err
      \<longrightarrow> err = InsufficientFundsError (total s) m 0) \<and>
   (int64 (totalAdded s) \<and> ensureFee e c s = Inl err
      \<longrightarrow> err = InsufficientFundsError (total s) (minAmount c) (feeAtExhaustion e c s)) \<and>
   (createTx fuel e rnd elig outputs height feeIncr acct disallow
        = Some (Inl (InsufficientFundsError i out f))
      \<longrightarrow> i = wrap64 (sumAmount (sortReverseByAmount e elig)) \<and>
          out = wrap64 (sum_list (map snd outputs)) \<and>
          (f = 0 \<and> i < out \<or> i < add64 out f)) \<and>
   (addOutputs e NewMsgTx outputs 0 = Inr (tx, m) \<and>
    list_all (\<lambda>x. 0 \<le> Amount x) (sortReverseByAmount e elig) \<and>
    sumAmount (sortReverseByAmount e elig) < m
      \<longrightarrow> createTx fuel e rnd elig outputs height feeIncr acct disallow
            = Some (Inl (InsufficientFundsError (sumAmount (sortReverseByAmount e elig)) m 0)))"
proof -
  have first:
    "addOutputs e NewMsgTx outputs 0 = Inr (tx, m) \<and>
      s1 = selectInitialEnd m (startState e elig tx) \<and> totalAdded s1 < m
        \<longrightarrow> eligible s1 = [] \<and>
            createTx fuel e rnd elig outputs height feeIncr acct disallow
              = Some (Inl (InsufficientFundsError (totalAdded s1) m 0)) \<and>
            totalAdded s1 = wrap64 (sumAmount (sortReverseByAmount e elig)) \<and>
            m = wrap64 (sum_list (map snd outputs))"
    using createTx_dry_first [of e outputs tx m s1 elig fuel rnd height feeIncr acct disallow]
    by blast
  have second:
    "addOutputs e NewMsgTx outputs 0 = Inr (tx, m) \<and>
      s1 = selectInitialEnd m (startState e elig tx) \<and> \<not> totalAdded s1 < m \<and>
      c1 = callCtx m height feeIncr acct disallow \<and>
      s2 = ensureFeeEnd e c1 (firstEstimate e c1 s1) \<and> totalAdded s2 < add64 m (feeEst s2)
        \<longrightarrow> eligible s2 = [] \<and>
            createTx fuel e rnd elig outputs height feeIncr acct disallow
              = Some (Inl (InsufficientFundsError (totalAdded s2) m (feeEst s2))) \<and>
            totalAdded s2 = wrap64 (sumAmount (sortReverseByAmount e elig)) \<and>
            m = wrap64 (sum_list (map snd outputs))"
    using createTx_dry_second [of e outputs tx m s1 elig c1 height feeIncr acct disallow s2 fuel rnd]
    by blast
  have round:
    "selectInputs e elig outputs height feeIncr acct disallow = Inr (c2, s0) \<and>
      roundState k e c2 rnd 0 s0 = Some s3 \<and> raisedFee e c2 (rnd k) s3 = Some s4 \<and>
      s5 = ensureFeeEnd e c2 s4 \<and> totalAdded s5 < add64 (minAmount c2) (feeEst s5) \<and> k < fuel
        \<longrightarrow> eligible s5 = [] \<and>
            createTx fuel e rnd elig outputs height feeIncr acct disallow
              = Some (Inl (InsufficientFundsError (totalAdded s5) (minAmount c2) (feeEst s5))) \<and>
            totalAdded s5 = wrap64 (sumAmount (sortReverseByAmount e elig)) \<and>
            minAmount c2 = wrap64 (sum_list (map snd outputs)) \<and>
            feeEst s5 = feeAtExhaustion e c2 s4"
    using createTx_dry_round [of e elig outputs height feeIncr acct disallow c2 s0 k rnd s3 s4 s5 fuel]
    by blast
  have l1:
    "eligible s = [] \<and> totalAdded s < m
        \<longrightarrow> selectInitial m s = Inl (InsufficientFundsError (totalAdded s) m 0)"
    by (simp add: selectInitial.simps [of m s])
  have l2:
    "eligible s = [] \<and> totalAdded s < add64 (minAmount c) (feeEst s)
        \<longrightarrow> ensureFee e c s = Inl (InsufficientFundsError (totalAdded s) (minAmount c) (feeEst s))"
    by (simp add: ensureFee.simps [of e c s])
  have l3:
    "int64 (totalAdded s) \<and> selectInitial m s = Inl err
        \<longrightarrow> err = InsufficientFundsError (total s) m 0"
    using selectInitial_Inl by blast
  have l4:
    "int64 (totalAdded s) \<and> ensureFee e c s = Inl err
        \<longrightarrow> err = InsufficientFundsError (total s) (minAmount c) (feeAtExhaustion e c s)"
    using ensureFee_Inl by blast
  have l5:
    "createTx fuel e rnd elig outputs height feeIncr acct disallow
          = Some (Inl (InsufficientFundsError i out f))
        \<longrightarrow> i = wrap64 (sumAmount (sortReverseByAmount e elig)) \<and>
            out = wrap64 (sum_list (map snd outputs)) \<and>
            (f = 0 \<and> i < out \<or> i < add64 out f)"
    using createTx_funds [of fuel e rnd elig outputs height feeIncr acct disallow i out f]
    by blast
  have l6:
    "addOutputs e NewMsgTx outputs 0 = Inr (tx, m) \<and>
      list_all (\<lambda>x. 0 \<le> Amount x) (sortReverseByAmount e elig) \<and>
      sumAmount (sortReverseByAmount e elig) < m
        \<longrightarrow> createTx fuel e rnd elig outputs height feeIncr acct disallow
              = Some (Inl (InsufficientFundsError (sumAmount (sortReverseByAmount e elig)) m 0))"
    using createTx_exhausted_first [of e outputs tx m elig fuel rnd height feeIncr acct disallow]
    by blast
  show ?thesis
    by (rule conjI [OF first conjI [OF second conjI [OF round conjI [OF l1 conjI [OF l2
          conjI [OF l3 conjI [OF l4 conjI [OF l5 l6]]]]]]]])
qed

theorem createTx_insufficient_funds_witness:
  "totalAdded (selectInitialEnd 1000000010 (startState (testEnv True) [mockCredit 1 3000000 hashOut1 (- 1)]
        \<lparr>TxIn = [], TxOut = [NewTxOut 10 (p2pkhScript hashAddr1),
                                   NewTxOut 1000000000 (p2pkhScript hashAddr2)]\<rparr>)) = 3000000 \<and>
   eligible (selectInitialEnd 1000000010 (startState (testEnv True) [mockCredit 1 3000000 hashOut1 (- 1)]
        \<lparr>TxIn = [], TxOut = [NewTxOut 10 (p2pkhScript hashAddr1),
                                   NewTxOut 1000000000 (p2pkhScript hashAddr2)]\<rparr>)) = [] \<and>
   createTx 3 (testEnv True) (\<lambda>k. 0) [mockCredit 1 3000000 hashOut1 (- 1)] [(outAddr1, 10), (outAddr2, 1000000000)] 11111 1000 0 False
     = Some (Inl (InsufficientFundsError 3000000 1000000010 0)) \<and>
   totalAdded (selectInitialEnd 37100000 (startState (testEnv True) mockCredits
        \<lparr>TxIn = [], TxOut = [NewTxOut 27100000 (p2pkhScript hashAddr1),
                                   NewTxOut 10000000 (p2pkhScript hashAddr2)]\<rparr>)) = 37100000 \<and>
   totalAdded (ensureFeeEnd (testEnv True) (callCtx 37100000 11111 1000 0 False)
      (firstEstimate (testEnv True) (callCtx 37100000 11111 1000 0 False)
        (selectInitialEnd 37100000 (startState (testEnv True) mockCredits
        \<lparr>TxIn = [], TxOut = [NewTxOut 27100000 (p2pkhScript hashAddr1),
                                   NewTxOut 10000000 (p2pkhScript hashAddr2)]\<rparr>)))) = 37100000 \<and>
   feeEst (ensureFeeEnd (testEnv True) (callCtx 37100000 11111 1000 0 False)
      (firstEstimate (testEnv True) (callCtx 37100000 11111 1000 0 False)
        (selectInitialEnd 37100000 (startState (testEnv True) mockCredits
        \<lparr>TxIn = [], TxOut = [NewTxOut 27100000 (p2pkhScript hashAddr1),
                                   NewTxOut 10000000 (p2pkhScript hashAddr2)]\<rparr>)))) = 1000 \<and>
   eligible (ensureFeeEnd (testEnv True) (callCtx 37100000 11111 1000 0 False)
      (firstEstimate (testEnv True) (callCtx 37100000 11111 1000 0 False)
        (selectInitialEnd 37100000 (startState (testEnv True) mockCredits
        \<lparr>TxIn = [], TxOut = [NewTxOut 27100000 (p2pkhScript hashAddr1),
                                   NewTxOut 10000000 (p2pkhScript hashAddr2)]\<rparr>)))) = [] \<and>
   createTx 3 (testEnv True) (\<lambda>k. 0) mockCredits [(outAddr1, 27100000), (outAddr2, 10000000)] 11111 1000 0 False
     = Some (Inl (InsufficientFundsError 37100000 37100000 1000)) \<and>
   selectInputs (testEnv True) twoCredits [(outAddr1, 100000000)] 11111 1000 0 False
     = Inr (oneCoinCtx False, stateWith [mockCredit 5 100 hashOut5 (- 1)] [mockCredit 4 100000500 hashOut4 10112] 0) \<and>
   roundState 1 (testEnv True) (oneCoinCtx False) (\<lambda>k. 0) 0 (stateWith [mockCredit 5 100 hashOut5 (- 1)] [mockCredit 4 100000500 hashOut4 10112] 0)
     = Some (dryState [] 0) \<and>
   raisedFee (testEnv True) (oneCoinCtx False) 0 (dryState [] 0) = Some (dryState (replicate 107 0) 1000) \<and>
   ensureFeeEnd (testEnv True) (oneCoinCtx False) (dryState (replicate 107 0) 1000) = dryState (replicate 107 0) 1000 \<and>
   eligible (dryState (replicate 107 0) 1000) = [] \<and>
   totalAdded (dryState (replicate 107 0) 1000) = 100000600 \<and>
   feeEst (dryState (replicate 107 0) 1000) = 1000 \<and>
   feeAtExhaustion (testEnv True) (oneCoinCtx False) (dryState (replicate 107 0) 1000) = 1000 \<and>
   createTx 2 (testEnv True) (\<lambda>k. 0) twoCredits [(outAddr1, 100000000)] 11111 1000 0 False
     = Some (Inl (InsufficientFundsError 100000600 100000000 1000)) \<and>
   eligible (stateWith [] [mockCredit 1 3000000 hashOut1 (- 1)] 0) = [] \<and>
   totalAdded (stateWith [] [mockCredit 1 3000000 hashOut1 (- 1)] 0) < 1000000010 \<and>
   selectInitial 1000000010 (stateWith [] [mockCredit 1 3000000 hashOut1 (- 1)] 0)
     = Inl (InsufficientFundsError 3000000 1000000010 0) \<and>
   eligible (stateWith [] [mockCredit 4 100000500 hashOut4 10112] 1000) = [] \<and>
   totalAdded (stateWith [] [mockCredit 4 100000500 hashOut4 10112] 1000)
     < add64 (minAmount (oneCoinCtx True)) (feeEst (stateWith [] [mockCredit 4 100000500 hashOut4 10112] 1000)) \<and>
   ensureFee (testEnv True) (oneCoinCtx True) (stateWith [] [mockCredit 4 100000500 hashOut4 10112] 1000)
     = Inl (InsufficientFundsError 100000500 100000000 1000) \<and>
   int64 (totalAdded (stateWith [mockCredit 1 3000000 hashOut1 (- 1)] [] 0)) \<and>
   selectInitial 1000000010 (stateWith [mockCredit 1 3000000 hashOut1 (- 1)] [] 0)
     = Inl (InsufficientFundsError 3000000 1000000010 0) \<and>
   total (stateWith [mockCredit 1 3000000 hashOut1 (- 1)] [] 0) = 3000000 \<and>
   int64 (totalAdded (stateWith [mockCredit 5 100 hashOut5 (- 1)] [mockCredit 4 100000500 hashOut4 10112] 1000)) \<and>
   ensureFee (testEnv True) (oneCoinCtx True)
       (stateWith [mockCredit 5 100 hashOut5 (- 1)] [mockCredit 4 100000500 hashOut4 10112] 1000)
     = Inl (InsufficientFundsError 100000600 100000000 1000) \<and>
   total (stateWith [mockCredit 5 100 hashOut5 (- 1)] [mockCredit 4 100000500 hashOut4 10112] 1000) = 100000600 \<and>
   feeAtExhaustion (testEnv True) (oneCoinCtx True)
       (stateWith [mockCredit 5 100 hashOut5 (- 1)] [mockCredit 4 100000500 hashOut4 10112] 1000) = 1000 \<and>
   wrap64 (sumAmount (sortReverseByAmount (testEnv True) twoCredits)) = 100000600 \<and>
   wrap64 (sum_list (map snd [(outAddr1, 100000000 :: int)])) = 100000000 \<and>
   (100000600 :: int) < add64 100000000 1000 \<and>
   addOutputs (testEnv True) NewMsgTx [(outAddr1, 10), (outAddr2, 1000000000)] 0
     = Inr (\<lparr>TxIn = [], TxOut = [NewTxOut 10 (p2pkhScript hashAddr1),
                                   NewTxOut 1000000000 (p2pkhScript hashAddr2)]\<rparr>, 1000000010) \<and>
   list_all (\<lambda>x. 0 \<le> Amount x)
     (sortReverseByAmount (testEnv True) [mockCredit 1 3000000 hashOut1 (- 1)]) \<and>
   sumAmount (sortReverseByAmount (testEnv True) [mockCredit 1 3000000 hashOut1 (- 1)]) = 3000000 \<and>
   createTx 1 (testEnv True) (\<lambda>k. 0) [mockCredit 1 3000000 hashOut1 (- 1)]
       [(outAddr1, 10), (outAddr2, 1000000000)] 11111 1000 0 False
     = Some (Inl (InsufficientFundsError 3000000 1000000010 0))"
proof -
  have n1: "addOutputs (testEnv True) NewMsgTx [(outAddr1, 10), (outAddr2, 1000000000)] 0
     = Inr (\<lparr>TxIn = [], TxOut = [NewTxOut 10 (p2pkhScript hashAddr1),
                                   NewTxOut 1000000000 (p2pkhScript hashAddr2)]\<rparr>, 1000000010)"
    and n2: "totalAdded (selectInitialEnd 1000000010 (startState (testEnv True) [mockCredit 1 3000000 hashOut1 (- 1)]
        \<lparr>TxIn = [], TxOut = [NewTxOut 10 (p2pkhScript hashAddr1),
                                   NewTxOut 1000000000 (p2pkhScript hashAddr2)]\<rparr>)) = 3000000"
    by code_simp+
  note u1 = createTx_insufficient_funds [where e = "testEnv True" and outputs = "[(outAddr1, 10), (outAddr2, 1000000000)]"
      and tx = "\<lparr>TxIn = [], TxOut = [NewTxOut 10 (p2pkhScript hashAddr1),
                                   NewTxOut 1000000000 (p2pkhScript hashAddr2)]\<rparr>"
      and m = 1000000010 and elig = "[mockCredit 1 3000000 hashOut1 (- 1)]"
      and ?s1.0 = "selectInitialEnd 1000000010 (startState (testEnv True) [mockCredit 1 3000000 hashOut1 (- 1)]
        \<lparr>TxIn = [], TxOut = [NewTxOut 10 (p2pkhScript hashAddr1),
                                   NewTxOut 1000000000 (p2pkhScript hashAddr2)]\<rparr>)"
      and fuel = 3 and rnd = "\<lambda>k. 0" and height = 11111 and feeIncr = 1000 and acct = 0
      and disallow = False, THEN conjunct1]
  have q1: "eligible (selectInitialEnd 1000000010 (startState (testEnv True) [mockCredit 1 3000000 hashOut1 (- 1)]
        \<lparr>TxIn = [], TxOut = [NewTxOut 10 (p2pkhScript hashAddr1),
                                   NewTxOut 1000000000 (p2pkhScript hashAddr2)]\<rparr>)) = [] \<and>
     createTx 3 (testEnv True) (\<lambda>k. 0) [mockCredit 1 3000000 hashOut1 (- 1)] [(outAddr1, 10), (outAddr2, 1000000000)] 11111 1000 0 False
       = Some (Inl (InsufficientFundsError 3000000 1000000010 0))"
    using u1 n1 n2 by simp
  have n3: "addOutputs (testEnv True) NewMsgTx [(outAddr1, 27100000), (outAddr2, 10000000)] 0
     = Inr (\<lparr>TxIn = [], TxOut = [NewTxOut 27100000 (p2pkhScript hashAddr1),
                                   NewTxOut 10000000 (p2pkhScript hashAddr2)]\<rparr>, 37100000)"
    and n4: "totalAdded (selectInitialEnd 37100000 (startState (testEnv True) mockCredits
        \<lparr>TxIn = [], TxOut = [NewTxOut 27100000 (p2pkhScript hashAddr1),
                                   NewTxOut 10000000 (p2pkhScript hashAddr2)]\<rparr>)) = 37100000"
    and n5: "totalAdded (ensureFeeEnd (testEnv True) (callCtx 37100000 11111 1000 0 False)
      (firstEstimate (testEnv True) (callCtx 37100000 11111 1000 0 False)
        (selectInitialEnd 37100000 (startState (testEnv True) mockCredits
        \<lparr>TxIn = [], TxOut = [NewTxOut 27100000 (p2pkhScript hashAddr1),
                                   NewTxOut 10000000 (p2pkhScript hashAddr2)]\<rparr>)))) = 37100000"
    and n6: "feeEst (ensureFeeEnd (testEnv True) (callCtx 37100000 11111 1000 0 False)
      (firstEstimate (testEnv True) (callCtx 37100000 11111 1000 0 False)
        (selectInitialEnd 37100000 (startState (testEnv True) mockCredits
        \<lparr>TxIn = [], TxOut = [NewTxOut 27100000 (p2pkhScript hashAddr1),
                                   NewTxOut 10000000 (p2pkhScript hashAddr2)]\<rparr>)))) = 1000"
    by code_simp+
  note u2 = createTx_insufficient_funds [where e = "testEnv True" and outputs = "[(outAddr1, 27100000), (outAddr2, 10000000)]"
      and tx = "\<lparr>TxIn = [], TxOut = [NewTxOut 27100000 (p2pkhScript hashAddr1),
                                   NewTxOut 10000000 (p2pkhScript hashAddr2)]\<rparr>"
      and m = 37100000 and elig = mockCredits
      and ?s1.0 = "selectInitialEnd 37100000 (startState (testEnv True) mockCredits
        \<lparr>TxIn = [], TxOut = [NewTxOut 27100000 (p2pkhScript hashAddr1),
                                   NewTxOut 10000000 (p2pkhScript hashAddr2)]\<rparr>)"
      and ?c1.0 = "callCtx 37100000 11111 1000 0 False"
      and ?s2.0 = "ensureFeeEnd (testEnv True) (callCtx 37100000 11111 1000 0 False)
      (firstEstimate (testEnv True) (callCtx 37100000 11111 1000 0 False)
        (selectInitialEnd 37100000 (startState (testEnv True) mockCredits
        \<lparr>TxIn = [], TxOut = [NewTxOut 27100000 (p2pkhScript hashAddr1),
                                   NewTxOut 10000000 (p2pkhScript hashAddr2)]\<rparr>)))"
      and fuel = 3 and rnd = "\<lambda>k. 0" and height = 11111 and feeIncr = 1000 and acct = 0
      and disallow = False, THEN conjunct2, THEN conjunct1]
  have q2: "eligible (ensureFeeEnd (testEnv True) (callCtx 37100000 11111 1000 0 False)
      (firstEstimate (testEnv True) (callCtx 37100000 11111 1000 0 False)
        (selectInitialEnd 37100000 (startState (testEnv True) mockCredits
        \<lparr>TxIn = [], TxOut = [NewTxOut 27100000 (p2pkhScript hashAddr1),
                                   NewTxOut 10000000 (p2pkhScript hashAddr2)]\<rparr>)))) = [] \<and>
     createTx 3 (testEnv True) (\<lambda>k. 0) mockCredits [(outAddr1, 27100000), (outAddr2, 10000000)] 11111 1000 0 False
       = Some (Inl (InsufficientFundsError 37100000 37100000 1000))"
    using u2 n3 n4 n5 n6 by (simp add: add64_def wrap64_def)
  have n7: "selectInputs (testEnv True) twoCredits [(outAddr1, 100000000)] 11111 1000 0 False
     = Inr (oneCoinCtx False, stateWith [mockCredit 5 100 hashOut5 (- 1)] [mockCredit 4 100000500 hashOut4 10112] 0)"
    and n8: "roundState 1 (testEnv True) (oneCoinCtx False) (\<lambda>k. 0) 0 (stateWith [mockCredit 5 100 hashOut5 (- 1)] [mockCredit 4 100000500 hashOut4 10112] 0)
     = Some (dryState [] 0)"
    and n9: "raisedFee (testEnv True) (oneCoinCtx False) 0 (dryState [] 0) = Some (dryState (replicate 107 0) 1000)"
    and n10: "ensureFeeEnd (testEnv True) (oneCoinCtx False) (dryState (replicate 107 0) 1000) = dryState (replicate 107 0) 1000"
    and n11: "totalAdded (dryState (replicate 107 0) 1000) = 100000600"
    and n12: "feeEst (dryState (replicate 107 0) 1000) = 1000"
    and n13: "minAmount (oneCoinCtx False) = 100000000"
    by code_simp+
  note u3 = createTx_insufficient_funds [where e = "testEnv True" and elig = twoCredits
      and outputs = "[(outAddr1, 100000000)]" and height = 11111 and feeIncr = 1000 and acct = 0
      and disallow = False and ?c2.0 = "oneCoinCtx False"
      and ?s0.0 = "stateWith [mockCredit 5 100 hashOut5 (- 1)] [mockCredit 4 100000500 hashOut4 10112] 0"
      and k = 1 and rnd = "\<lambda>k. 0" and ?s3.0 = "dryState [] 0" and ?s4.0 = "dryState (replicate 107 0) 1000"
      and ?s5.0 = "dryState (replicate 107 0) 1000" and fuel = 2,
      THEN conjunct2, THEN conjunct2, THEN conjunct1]
  have q3: "eligible (dryState (replicate 107 0) 1000) = [] \<and>
     createTx 2 (testEnv True) (\<lambda>k. 0) twoCredits [(outAddr1, 100000000)] 11111 1000 0 False
       = Some (Inl (InsufficientFundsError 100000600 100000000 1000)) \<and>
     feeAtExhaustion (testEnv True) (oneCoinCtx False) (dryState (replicate 107 0) 1000) = 1000"
    using u3 n7 n8 n9 n10 n11 n12 n13 by (simp add: add64_def wrap64_def)
  have a1: "eligible (stateWith [] [mockCredit 1 3000000 hashOut1 (- 1)] 0) = []"
    and a2: "totalAdded (stateWith [] [mockCredit 1 3000000 hashOut1 (- 1)] 0) = 3000000"
    by code_simp+
  have b1: "eligible (stateWith [] [mockCredit 4 100000500 hashOut4 10112] 1000) = []"
    and b2: "totalAdded (stateWith [] [mockCredit 4 100000500 hashOut4 10112] 1000) = 100000500"
    and b3: "add64 (minAmount (oneCoinCtx True)) (feeEst (stateWith [] [mockCredit 4 100000500 hashOut4 10112] 1000)) = 100001000"
    and b4: "minAmount (oneCoinCtx True) = 100000000"
    and b5: "feeEst (stateWith [] [mockCredit 4 100000500 hashOut4 10112] 1000) = 1000"
    by code_simp+
  have c1: "int64 (totalAdded (stateWith [mockCredit 1 3000000 hashOut1 (- 1)] [] 0))"
    and c2: "selectInitial 1000000010 (stateWith [mockCredit 1 3000000 hashOut1 (- 1)] [] 0)
               = Inl (InsufficientFundsError 3000000 1000000010 0)"
    by code_simp+
  have d1: "int64 (totalAdded (stateWith [mockCredit 5 100 hashOut5 (- 1)] [mockCredit 4 100000500 hashOut4 10112] 1000))"
    and d2: "ensureFee (testEnv True) (oneCoinCtx True)
               (stateWith [mockCredit 5 100 hashOut5 (- 1)] [mockCredit 4 100000500 hashOut4 10112] 1000)
             = Inl (InsufficientFundsError 100000600 100000000 1000)"
    by code_simp+
  note t1 = createTx_insufficient_funds [where s = "stateWith [] [mockCredit 1 3000000 hashOut1 (- 1)] 0"
      and m = 1000000010, THEN conjunct2, THEN conjunct2, THEN conjunct2, THEN conjunct1]
  note t2 = createTx_insufficient_funds [where s = "stateWith [] [mockCredit 4 100000500 hashOut4 10112] 1000"
      and c = "oneCoinCtx True" and e = "testEnv True", THEN conjunct2, THEN conjunct2, THEN conjunct2, THEN conjunct2, THEN conjunct1]
  note t3 = createTx_insufficient_funds [where s = "stateWith [mockCredit 1 3000000 hashOut1 (- 1)] [] 0"
      and m = 1000000010 and err = "InsufficientFundsError 3000000 1000000010 0",
      THEN conjunct2, THEN conjunct2, THEN conjunct2, THEN conjunct2, THEN conjunct2, THEN conjunct1]
  note t4 = createTx_insufficient_funds [where
      s = "stateWith [mockCredit 5 100 hashOut5 (- 1)] [mockCredit 4 100000500 hashOut4 10112] 1000"
      and c = "oneCoinCtx True" and e = "testEnv True"
      and err = "InsufficientFundsError 100000600 100000000 1000",
      THEN conjunct2, THEN conjunct2, THEN conjunct2, THEN conjunct2, THEN conjunct2, THEN conjunct2, THEN conjunct1]
  note t5 = createTx_insufficient_funds [where fuel = 2 and e = "testEnv True" and rnd = "\<lambda>k. 0"
      and elig = twoCredits and outputs = "[(outAddr1, 100000000)]"
      and height = 11111 and feeIncr = 1000 and acct = 0 and disallow = False
      and i = 100000600 and out = 100000000 and f = 1000,
      THEN conjunct2, THEN conjunct2, THEN conjunct2, THEN conjunct2, THEN conjunct2, THEN conjunct2, THEN conjunct2, THEN conjunct1]
  have g1: "addOutputs (testEnv True) NewMsgTx [(outAddr1, 10), (outAddr2, 1000000000)] 0
     = Inr (\<lparr>TxIn = [], TxOut = [NewTxOut 10 (p2pkhScript hashAddr1),
                                   NewTxOut 1000000000 (p2pkhScript hashAddr2)]\<rparr>, 1000000010)"
    and g2: "list_all (\<lambda>x. 0 \<le> Amount x)
       (sortReverseByAmount (testEnv True) [mockCredit 1 3000000 hashOut1 (- 1)])"
    and g3: "sumAmount (sortReverseByAmount (testEnv True) [mockCredit 1 3000000 hashOut1 (- 1)]) = 3000000"
    by code_simp+
  note t6 = createTx_insufficient_funds [where fuel = 1 and e = "testEnv True" and rnd = "\<lambda>k. 0"
      and elig = "[mockCredit 1 3000000 hashOut1 (- 1)]"
      and outputs = "[(outAddr1, 10), (outAddr2, 1000000000)]"
      and height = 11111 and feeIncr = 1000 and acct = 0 and disallow = False and m = 1000000010
      and tx = "\<lparr>TxIn = [], TxOut = [NewTxOut 10 (p2pkhScript hashAddr1),
                                      NewTxOut 1000000000 (p2pkhScript hashAddr2)]\<rparr>",
      THEN conjunct2, THEN conjunct2, THEN conjunct2, THEN conjunct2, THEN conjunct2, THEN conjunct2, THEN conjunct2, THEN conjunct2]
  have r7: "createTx 1 (testEnv True) (\<lambda>k. 0) [mockCredit 1 3000000 hashOut1 (- 1)]
       [(outAddr1, 10), (outAddr2, 1000000000)] 11111 1000 0 False
     = Some (Inl (InsufficientFundsError 3000000 1000000010 0))"
    using t6 g1 g2 g3 by simp
  have r1: "selectInitial 1000000010 (stateWith [] [mockCredit 1 3000000 hashOut1 (- 1)] 0)
     = Inl (InsufficientFundsError 3000000 1000000010 0)"
    using t1 a1 a2 by simp
  have r2: "ensureFee (testEnv True) (oneCoinCtx True) (stateWith [] [mockCredit 4 100000500 hashOut4 10112] 1000)
     = Inl (InsufficientFundsError 100000500 100000000 1000)"
    using t2 b1 b2 b3 b4 b5 by simp
  have r3: "total (stateWith [mockCredit 1 3000000 hashOut1 (- 1)] [] 0) = 3000000"
    using t3 c1 c2 by simp
  have r4: "total (stateWith [mockCredit 5 100 hashOut5 (- 1)] [mockCredit 4 100000500 hashOut4 10112] 1000) = 100000600
      \<and> feeAtExhaustion (testEnv True) (oneCoinCtx True)
       (stateWith [mockCredit 5 100 hashOut5 (- 1)] [mockCredit 4 100000500 hashOut4 10112] 1000) = 1000"
    using t4 d1 d2 b4 by simp
  have r5: "100000600 = wrap64 (sumAmount (sortReverseByAmount (testEnv True) twoCredits)) \<and>
     100000000 = wrap64 (sum_list (map snd [(outAddr1, 100000000 :: int)]))"
    using t5 q3 by simp
  have r6: "(100000600 :: int) < add64 100000000 1000"
    by (simp add: add64_def wrap64_def)
  show ?thesis
    using n2 n4 n5 n6 n7 n8 n9 n10 n11 n12 q1 q2 q3 a1 a2 b1 b2 b3 c1 c2 d1 d2 r1 r2 r3 r4 r5 r6 g1 g2 g3 r7 by simp
qed

section \<open>Properties: the fee loop ends\<close>

lemma minimumFee_range:
  "0 < incr \<Longrightarrow> 0 \<le> MaxSatoshi e
    \<Longrightarrow> 0 \<le> minimumFee e incr sz outs ins h d \<and> minimumFee e incr sz outs ins h d \<le> max incr (MaxSatoshi e)"
  by (auto simp: minimumFee_def Let_def)

lemma ensureFee_range:
  "ensureFee e c s = Inr s' \<Longrightarrow> inRange e c s \<Longrightarrow> 0 \<le> feeEst s \<Longrightarrow> feeEst s < 4611686018427387904
    \<Longrightarrow> inRange e c s' \<and> atHead c s' \<and>
        totalAdded s' + sumAmount (eligible s') = totalAdded s + sumAmount (eligible s) \<and>
        (eligible s' = eligible s \<and> feeEst s' = feeEst s \<or> length (eligible s') < length (eligible s))"
proof (induction e c s rule: ensureFee.induct)
  case (1 e c s)
  have m: "0 \<le> minAmount c" "minAmount c < 2305843009213693952"
    using "1.prems"(2) by (simp_all add: inRange_def)
  have sum: "add64 (minAmount c) (feeEst s) = minAmount c + feeEst s"
    using m "1.prems"(3,4) by (intro add64_id) simp_all
  show ?case
  proof (cases "totalAdded s < add64 (minAmount c) (feeEst s)")
    case False
    with "1.prems"(1) have "s' = s"
      by (simp add: ensureFee.simps [of e c s])
    with False sum "1.prems" show ?thesis
      by (simp add: atHead_def)
  next
    case True
    with "1.prems"(1) obtain x rest where Cons: "eligible s = x # rest"
      by (cases "eligible s") (auto simp: ensureFee.simps [of e c s])
    let ?sz = "add64 (szEst s) txInEstimate"
    let ?fee = "minimumFee e (feeIncrement c) ?sz (TxOut (msgtx s)) (inputs s @ [x])
                             (bsHeight c) (disallowFree c)"
    let ?s' = "s\<lparr>eligible := rest, inputs := inputs s @ [x],
                 msgtx := AddTxIn (msgtx s) (NewTxIn (OutPoint x) []),
                 szEst := ?sz,
                 totalAdded := add64 (totalAdded s) (Amount x),
                 feeEst := ?fee\<rparr>"
    from "1.prems"(1) Cons True have rec: "ensureFee e c ?s' = Inr s'"
      by (auto simp: ensureFee.simps [of e c s] Let_def)
    have r: "0 \<le> Amount x" "list_all (\<lambda>x. 0 \<le> Amount x) rest" "0 \<le> totalAdded s"
      "totalAdded s + (Amount x + sumAmount rest) < 2305843009213693952"
      using "1.prems"(2) Cons by (simp_all add: inRange_def)
    have nn: "0 \<le> sumAmount rest"
      by (rule sumAmount_nonneg [OF r(2)])
    have ta: "add64 (totalAdded s) (Amount x) = totalAdded s + Amount x"
      using r nn by (intro add64_id) simp_all
    have fee: "0 \<le> ?fee \<and> ?fee \<le> max (feeIncrement c) (MaxSatoshi e)"
      using "1.prems"(2) by (intro minimumFee_range) (simp_all add: inRange_def)
    have ir: "inRange e c ?s'"
      using "1.prems"(2) r nn ta by (simp add: inRange_def)
    have f1: "0 \<le> feeEst ?s'" and f2: "feeEst ?s' < 4611686018427387904"
      using fee "1.prems"(2) by (auto simp: inRange_def)
    from "1.IH" [OF True Cons refl refl rec ir f1 f2] Cons ta show ?thesis
      by auto
  qed
qed

lemma selectInitial_range:
  "selectInitial m s = Inr s' \<Longrightarrow> 0 \<le> m \<Longrightarrow> m < 2305843009213693952
    \<Longrightarrow> list_all (\<lambda>x. 0 \<le> Amount x) (eligible s) \<Longrightarrow> 0 \<le> totalAdded s
    \<Longrightarrow> totalAdded s + sumAmount (eligible s) < 2305843009213693952
    \<Longrightarrow> list_all (\<lambda>x. 0 \<le> Amount x) (eligible s') \<and> 0 \<le> totalAdded s' \<and> m \<le> totalAdded s' \<and>
        totalAdded s' + sumAmount (eligible s') = totalAdded s + sumAmount (eligible s) \<and>
        length (eligible s') \<le> length (eligible s)"
proof (induction m s rule: selectInitial.induct)
  case (1 m s)
  show ?case
  proof (cases "totalAdded s < m")
    case False
    with "1.prems" show ?thesis
      by (simp add: selectInitial.simps [of m s])
  next
    case True
    with "1.prems"(1) obtain x rest where Cons: "eligible s = x # rest"
      by (cases "eligible s") (auto simp: selectInitial.simps [of m s])
    let ?s' = "s\<lparr>eligible := rest, inputs := inputs s @ [x],
                 msgtx := AddTxIn (msgtx s) (NewTxIn (OutPoint x) []),
                 totalAdded := add64 (totalAdded s) (Amount x)\<rparr>"
    from "1.prems"(1) Cons True have rec: "selectInitial m ?s' = Inr s'"
      by (auto simp: selectInitial.simps [of m s])
    have r: "0 \<le> Amount x" "list_all (\<lambda>x. 0 \<le> Amount x) rest"
      using "1.prems"(4) Cons by simp_all
    have nn: "0 \<le> sumAmount rest"
      by (rule sumAmount_nonneg [OF r(2)])
    have ta: "add64 (totalAdded s) (Amount x) = totalAdded s + Amount x"
      using r nn "1.prems"(5,6) Cons by (intro add64_id) simp_all
    have "list_all (\<lambda>x. 0 \<le> Amount x) (eligible s') \<and> 0 \<le> totalAdded s' \<and> m \<le> totalAdded s' \<and>
        totalAdded s' + sumAmount (eligible s') = totalAdded ?s' + sumAmount (eligible ?s') \<and>
        length (eligible s') \<le> length (eligible ?s')"
      using "1.prems"(2,3,5,6) r ta Cons
      by (intro "1.IH" [OF True Cons rec]) simp_all
    with Cons ta show ?thesis by simp
  qed
qed

lemma convergeStep_Continue_range:
  assumes st: "convergeStep e c r s = Continue s'" and ir: "inRange e c s" and ah: "atHead c s"
  shows "inRange e c s' \<and> atHead c s' \<and>
        totalAdded s' + sumAmount (eligible s') = totalAdded s + sumAmount (eligible s) \<and>
        (eligible s' = eligible s \<and> feeEst s' = feeEst s + feeIncrement c
         \<or> length (eligible s') < length (eligible s))"
  using st
proof (cases rule: convergeStep_cases)
  case (again s1 tx s4)
  from again(5) have ok: "ensureFee e c s4 = Inr s'"
    by (auto split: sum.splits)
  have nn: "0 \<le> sumAmount (eligible s)"
    using ir by (intro sumAmount_nonneg) (simp add: inRange_def)
  have fe: "0 \<le> feeEst s" "feeEst s < 2305843009213693952"
    using ir ah nn by (simp_all add: inRange_def atHead_def)
  have inc: "0 < feeIncrement c" "feeIncrement c < 2305843009213693952"
    using ir by (simp_all add: inRange_def)
  have f4: "feeEst s4 = feeEst s + feeIncrement c"
    using again(4) fe inc by (simp add: sameFunds_def add64_id)
  have same: "eligible s4 = eligible s" "totalAdded s4 = totalAdded s"
    using again(4) by (simp_all add: sameFunds_def)
  have ir4: "inRange e c s4"
    using ir same by (simp add: inRange_def)
  have "0 \<le> feeEst s4" "feeEst s4 < 4611686018427387904"
    using f4 fe inc by simp_all
  from ensureFee_range [OF ok ir4 this] f4 same show ?thesis
    by auto
qed simp_all

lemma roundsLeft_decreases:
  assumes st: "convergeStep e c r s = Continue s'" and ir: "inRange e c s" and ah: "atHead c s"
  shows "roundsLeft c s' < roundsLeft c s"
proof -
  note facts = convergeStep_Continue_range [OF st ir ah]
  define T where "T = totalAdded s + sumAmount (eligible s)"
  define m where "m = minAmount c"
  define incr where "incr = feeIncrement c"
  define K where "K = nat ((T - m) div incr)"
  have T': "totalAdded s' + sumAmount (eligible s') = T"
    using facts by (simp add: T_def)
  have inc: "0 < incr"
    using ir by (simp add: inRange_def incr_def)
  have nn': "0 \<le> sumAmount (eligible s')"
    using facts by (intro sumAmount_nonneg) (simp add: inRange_def)
  have ah': "0 \<le> feeEst s'" "feeEst s' \<le> T - m"
    using facts nn' T' by (simp_all add: atHead_def m_def)
  have rl: "roundsLeft c s = length (eligible s) * (K + 1) + nat ((T - m - feeEst s) div incr)"
    by (simp add: roundsLeft_def T_def m_def incr_def K_def)
  have rl': "roundsLeft c s' = length (eligible s') * (K + 1) + nat ((T - m - feeEst s') div incr)"
    using T' by (simp add: roundsLeft_def m_def incr_def K_def)
  from facts consider
      (raised) "eligible s' = eligible s" "feeEst s' = feeEst s + incr"
    | (popped) "length (eligible s') < length (eligible s)"
    by (auto simp: incr_def)
  then show ?thesis
  proof cases
    case raised
    define X where "X = T - m - feeEst s'"
    have X: "0 \<le> X" using ah' by (simp add: X_def)
    have "T - m - feeEst s = X + incr"
      using raised by (simp add: X_def)
    moreover have "(X + incr) div incr = X div incr + 1"
      using inc by (intro div_add_self2) simp
    moreover have "0 \<le> X div incr"
      using X inc by (simp add: pos_imp_zdiv_nonneg_iff)
    ultimately have "nat ((T - m - feeEst s) div incr) = nat (X div incr) + 1"
      by simp
    with raised rl rl' show ?thesis
      by (simp add: X_def)
  next
    case popped
    have "(T - m - feeEst s') div incr \<le> (T - m) div incr"
      using ah' inc by (intro zdiv_mono1) simp_all
    then have d: "nat ((T - m - feeEst s') div incr) \<le> K"
      by (simp add: K_def)
    have "Suc (length (eligible s')) * (K + 1) \<le> length (eligible s) * (K + 1)"
      using popped by (intro mult_le_mono1) simp
    with d rl rl' show ?thesis
      by simp
  qed
qed

lemma convergeLoop_terminates:
  "inRange e c s \<Longrightarrow> atHead c s \<Longrightarrow> roundsLeft c s < fuel \<Longrightarrow> convergeLoop fuel e c rnd k s \<noteq> None"
proof (induction fuel arbitrary: k s)
  case 0
  then show ?case by simp
next
  case (Suc fuel)
  show ?case
  proof (cases "convergeStep e c (rnd k) s")
    case (Continue s')
    from convergeStep_Continue_range [OF Continue Suc.prems(1,2)]
    have "inRange e c s'" "atHead c s'" by simp_all
    moreover have "roundsLeft c s' < fuel"
      using roundsLeft_decreases [OF Continue Suc.prems(1,2)] Suc.prems(3) by simp
    ultimately have "convergeLoop fuel e c rnd (Suc k) s' \<noteq> None"
      by (rule Suc.IH)
    with Continue show ?thesis by simp
  qed simp_all
qed

lemma convergeLoop_more_fuel:
  "convergeLoop n e c rnd k s = Some res \<Longrightarrow> n \<le> n' \<Longrightarrow> convergeLoop n' e c rnd k s = Some res"
proof (induction n arbitrary: n' k s)
  case 0
  then show ?case by simp
next
  case (Suc n)
  from Suc.prems(2) obtain j where n': "n' = Suc j" and le: "n \<le> j"
    by (cases n') simp_all
  show ?case
  proof (cases "convergeStep e c (rnd k) s")
    case (Continue s')
    with Suc.prems(1) have "convergeLoop n e c rnd (Suc k) s' = Some res" by simp
    from Suc.IH [OF this le] Continue n' show ?thesis by simp
  next
    case (Done s')
    with Suc.prems(1) n' show ?thesis by simp
  next
    case (Failed err)
    with Suc.prems(1) n' show ?thesis by simp
  qed
qed

lemma createTx_more_fuel:
  assumes "createTx n e rnd elig outputs height feeIncr acct disallow = Some res" and "n \<le> n'"
  shows "createTx n' e rnd elig outputs height feeIncr acct disallow = Some res"
proof (cases "selectInputs e elig outputs height feeIncr acct disallow")
  case (Inl err)
  with assms show ?thesis by (simp add: createTx_def)
next
  case (Inr p)
  obtain c s where p: "p = (c, s)" by (cases p)
  from assms(1) Inr p obtain r where r: "convergeLoop n e c rnd 0 s = Some r"
    by (auto simp: createTx_def split: option.splits)
  from convergeLoop_more_fuel [OF r assms(2)] assms(1) r Inr p show ?thesis
    by (simp add: createTx_def)
qed

lemma addOutputs_range:
  assumes "addOutputs e NewMsgTx outputs 0 = Inr (tx, m)"
    and "sum_list (map snd outputs) < 2305843009213693952"
  shows "m = sum_list (map snd outputs) \<and> 0 \<le> m"
proof -
  from addOutputs_Inr [OF assms(1) int64_0]
  have m: "m = wrap64 (sum_list (map snd outputs))" and pos: "\<forall>p \<in> set outputs. 0 < snd p"
    by simp_all
  have "0 \<le> sum_list (map snd outputs)"
    using pos by (intro sum_list_nonneg) auto
  with m assms(2) show ?thesis
    by (simp add: wrap64_def)
qed

lemma selectInputs_range:
  assumes sel: "selectInputs e elig outputs height feeIncr acct disallow = Inr (c, s)"
    and inc: "0 < feeIncr" "feeIncr < 2305843009213693952"
    and mx: "0 \<le> MaxSatoshi e" "MaxSatoshi e < 2305843009213693952"
    and pay: "sum_list (map snd outputs) < 2305843009213693952"
    and nn: "list_all (\<lambda>x. 0 \<le> Amount x) (sortReverseByAmount e elig)"
    and tot: "sumAmount (sortReverseByAmount e elig) < 2305843009213693952"
  shows "inRange e c s \<and> atHead c s \<and> feeIncrement c = feeIncr \<and> 0 \<le> minAmount c \<and>
         totalAdded s + sumAmount (eligible s) = sumAmount (sortReverseByAmount e elig) \<and>
         length (eligible s) \<le> length (sortReverseByAmount e elig)"
proof -
  from sel obtain tx m where ao: "addOutputs e NewMsgTx outputs 0 = Inr (tx, m)"
    by (auto simp: selectInputs_def split: sum.splits)
  from addOutputs_range [OF ao pay] have m: "0 \<le> m" "m < 2305843009213693952"
    using pay by simp_all
  let ?s0 = "\<lparr>eligible = sortReverseByAmount e elig, inputs = [], msgtx = tx,
              totalAdded = 0, szEst = 0, feeEst = 0, changeAddr = None, changeIdx = - 1\<rparr>"
  from sel ao obtain s0' where si: "selectInitial m ?s0 = Inr s0'"
    by (auto simp: selectInputs_def split: sum.splits)
  let ?c = "\<lparr>feeIncrement = feeIncr, minAmount = m, bsHeight = height,
             disallowFree = disallow, account = acct\<rparr>"
  let ?sz = "estimateTxSize (int (length (inputs s0'))) (int (length (TxOut (msgtx s0'))))"
  let ?fee = "minimumFee e feeIncr ?sz (TxOut (msgtx s0')) (inputs s0') height disallow"
  let ?s1 = "s0'\<lparr>szEst := ?sz, feeEst := ?fee\<rparr>"
  from sel ao si have ef: "ensureFee e ?c ?s1 = Inr s" and c: "c = ?c"
    by (auto simp: selectInputs_def Let_def split: sum.splits)
  have r0: "list_all (\<lambda>x. 0 \<le> Amount x) (eligible s0') \<and> 0 \<le> totalAdded s0' \<and> m \<le> totalAdded s0' \<and>
        totalAdded s0' + sumAmount (eligible s0') = totalAdded ?s0 + sumAmount (eligible ?s0) \<and>
        length (eligible s0') \<le> length (eligible ?s0)"
    using m nn tot by (intro selectInitial_range [OF si]) simp_all
  have fee: "0 \<le> ?fee \<and> ?fee \<le> max feeIncr (MaxSatoshi e)"
    using inc mx by (intro minimumFee_range) simp_all
  have ir1: "inRange e ?c ?s1"
    using r0 inc mx m tot by (simp add: inRange_def)
  have "0 \<le> feeEst ?s1" "feeEst ?s1 < 4611686018427387904"
    using fee inc mx by auto
  from ensureFee_range [OF ef ir1 this] r0 c m show ?thesis
    by auto
qed

lemma createTx_terminates:
  assumes inc: "0 < feeIncr" "feeIncr < 2305843009213693952"
    and mx: "0 \<le> MaxSatoshi e" "MaxSatoshi e < 2305843009213693952"
    and pay: "sum_list (map snd outputs) < 2305843009213693952"
    and nn: "list_all (\<lambda>x. 0 \<le> Amount x) (sortReverseByAmount e elig)"
    and tot: "sumAmount (sortReverseByAmount e elig) < 2305843009213693952"
  shows "createTx ((length (sortReverseByAmount e elig) + 1)
                     * (nat (sumAmount (sortReverseByAmount e elig) div feeIncr) + 1))
           e rnd elig outputs height feeIncr acct disallow \<noteq> None"
proof (cases "selectInputs e elig outputs height feeIncr acct disallow")
  case (Inl err)
  then show ?thesis by (simp add: createTx_def)
next
  case (Inr p)
  obtain c s where p: "p = (c, s)" by (cases p)
  with Inr have sel: "selectInputs e elig outputs height feeIncr acct disallow = Inr (c, s)"
    by simp
  note r = selectInputs_range [OF sel inc mx pay nn tot]
  define T where "T = sumAmount (sortReverseByAmount e elig)"
  define n where "n = length (sortReverseByAmount e elig)"
  define K where "K = nat (T div feeIncr)"
  have nn': "0 \<le> sumAmount (eligible s)"
    using r by (intro sumAmount_nonneg) (simp add: inRange_def)
  have fe: "0 \<le> feeEst s"
    using r by (simp add: atHead_def)
  have "(T - minAmount c - feeEst s) div feeIncr \<le> T div feeIncr"
    using r fe inc by (intro zdiv_mono1) simp_all
  then have d1: "nat ((T - minAmount c - feeEst s) div feeIncr) \<le> K"
    by (simp add: K_def)
  have "(T - minAmount c) div feeIncr \<le> T div feeIncr"
    using r inc by (intro zdiv_mono1) simp_all
  then have d2: "nat ((T - minAmount c) div feeIncr) + 1 \<le> K + 1"
    by (simp add: K_def)
  have "length (eligible s) * (nat ((T - minAmount c) div feeIncr) + 1) \<le> n * (K + 1)"
    using r d2 by (intro mult_le_mono) (simp_all add: n_def)
  with d1 have "roundsLeft c s < (n + 1) * (K + 1)"
    using r by (simp add: roundsLeft_def T_def)
  then have "convergeLoop ((n + 1) * (K + 1)) e c rnd 0 s \<noteq> None"
    using r by (intro convergeLoop_terminates) simp_all
  then show ?thesis
    using sel by (auto simp: createTx_def n_def K_def T_def split: option.splits sum.splits)
qed

text \<open>
  Claim C6, as the code has it. In the range where no amount overflows (a positive fee
  increment; increment, \<open>MaxSatoshi\<close>, pay-list total and the total of all credits below
  \<open>2^61\<close>; no negative credit) the fee loop ends: with \<open>n\<close> eligible credits of total \<open>T\<close>,
  \<open>(n + 1) * (T div feeIncrement + 1)\<close> rounds are enough for \<open>createTx\<close> to return, and
  more rounds do not change what it returns. A round that neither finishes nor fails
  has either taken at least one more credit (and then computed the fee estimate anew,
  possibly lower than before) or raised the estimate by exactly the increment; either
  way the estimate stays between 0 and the input total less the pay-list total.
\<close>

theorem createTx_fee_loop_terminates:
  "(0 < feeIncr \<and> feeIncr < 2305843009213693952 \<and>
    0 \<le> MaxSatoshi e \<and> MaxSatoshi e < 2305843009213693952 \<and>
    sum_list (map snd outputs) < 2305843009213693952 \<and>
    list_all (\<lambda>x. 0 \<le> Amount x) (sortReverseByAmount e elig) \<and>
    sumAmount (sortReverseByAmount e elig) < 2305843009213693952
      \<longrightarrow> createTx ((length (sortReverseByAmount e elig) + 1)
                        * (nat (sumAmount (sortReverseByAmount e elig) div feeIncr) + 1))
              e rnd elig outputs height feeIncr acct disallow \<noteq> None) \<and>
   (createTx n e rnd elig outputs height feeIncr acct disallow = Some res \<and> n \<le> n'
      \<longrightarrow> createTx n' e rnd elig outputs height feeIncr acct disallow = Some res) \<and>
   (inRange e c s \<and> atHead c s \<and> convergeStep e c r s = Continue s'
      \<longrightarrow> inRange e c s' \<and> atHead c s' \<and>
          (eligible s' = eligible s \<and> feeEst s' = feeEst s + feeIncrement c
           \<or> length (eligible s') < length (eligible s)))"
proof (intro conjI impI)
  assume "0 < feeIncr \<and> feeIncr < 2305843009213693952 \<and>
    0 \<le> MaxSatoshi e \<and> MaxSatoshi e < 2305843009213693952 \<and>
    sum_list (map snd outputs) < 2305843009213693952 \<and>
    list_all (\<lambda>x. 0 \<le> Amount x) (sortReverseByAmount e elig) \<and>
    sumAmount (sortReverseByAmount e elig) < 2305843009213693952"
  then show "createTx ((length (sortReverseByAmount e elig) + 1)
                        * (nat (sumAmount (sortReverseByAmount e elig) div feeIncr) + 1))
              e rnd elig outputs height feeIncr acct disallow \<noteq> None"
    by (intro createTx_terminates) simp_all
next
  assume "createTx n e rnd elig outputs height feeIncr acct disallow = Some res \<and> n \<le> n'"
  then show "createTx n' e rnd elig outputs height feeIncr acct disallow = Some res"
    using createTx_more_fuel by blast
next
  assume a: "inRange e c s \<and> atHead c s \<and> convergeStep e c r s = Continue s'"
  then have st: "convergeStep e c r s = Continue s'" and ir: "inRange e c s" and ah: "atHead c s"
    by simp_all
  note f = convergeStep_Continue_range [OF st ir ah]
  from f show "inRange e c s'" by simp
  from f show "atHead c s'" by simp
  from f show "eligible s' = eligible s \<and> feeEst s' = feeEst s + feeIncrement c
           \<or> length (eligible s') < length (eligible s)" by blast
qed

theorem createTx_fee_loop_terminates_witness:
  "(0::int) < 1000 \<and> (1000::int) < 2305843009213693952 \<and>
   0 \<le> MaxSatoshi (testEnv True) \<and> MaxSatoshi (testEnv True) < 2305843009213693952 \<and>
   sum_list (map snd [(outAddr1, 15000000), (outAddr2, 10000000 :: int)]) < 2305843009213693952 \<and>
   list_all (\<lambda>x. 0 \<le> Amount x) (sortReverseByAmount (testEnv True) mockCredits) \<and>
   sumAmount (sortReverseByAmount (testEnv True) mockCredits) = 37100000 \<and>
   length (sortReverseByAmount (testEnv True) mockCredits) = 5 \<and>
   createTx 222606 (testEnv True) (\<lambda>k. 0) mockCredits [(outAddr1, 15000000), (outAddr2, 10000000)]
     11111 1000 0 False \<noteq> None \<and>
   createTx 0 (testEnv True) (\<lambda>k. 0) mockCredits [(outAddr1, 27100000), (outAddr2, 10000000)]
       11111 1000 0 False
     = Some (Inl (InsufficientFundsError 37100000 37100000 1000)) \<and>
   (0::nat) \<le> 7 \<and>
   createTx 7 (testEnv True) (\<lambda>k. 0) mockCredits [(outAddr1, 27100000), (outAddr2, 10000000)]
       11111 1000 0 False
     = Some (Inl (InsufficientFundsError 37100000 37100000 1000)) \<and>
   inRange (testEnv True) (oneCoinCtx False) (stateWith [] [mockCredit 4 100001000 hashOut4 10112] 0) \<and>
   atHead (oneCoinCtx False) (stateWith [] [mockCredit 4 100001000 hashOut4 10112] 0) \<and>
   convergeStep (testEnv True) (oneCoinCtx False) 1 (stateWith [] [mockCredit 4 100001000 hashOut4 10112] 0)
     = Continue ((stateWith [] [mockCredit 4 100001000 hashOut4 10112] 1000)
         \<lparr>msgtx := \<lparr>TxIn = [NewTxIn \<lparr>Hash = txSha, Index = 4\<rparr> (replicate 107 0)],
                     TxOut = [NewTxOut 100000000 (p2pkhScript hashAddr1)]\<rparr>,
          changeAddr := Some (AddressPubKeyHash hashChange), changeIdx := 1\<rparr>) \<and>
   atHead (oneCoinCtx False) ((stateWith [] [mockCredit 4 100001000 hashOut4 10112] 1000)
         \<lparr>msgtx := \<lparr>TxIn = [NewTxIn \<lparr>Hash = txSha, Index = 4\<rparr> (replicate 107 0)],
                     TxOut = [NewTxOut 100000000 (p2pkhScript hashAddr1)]\<rparr>,
          changeAddr := Some (AddressPubKeyHash hashChange), changeIdx := 1\<rparr>)"
proof -
  let ?s = "stateWith [] [mockCredit 4 100001000 hashOut4 10112] 0"
  let ?s' = "(stateWith [] [mockCredit 4 100001000 hashOut4 10112] 1000)
         \<lparr>msgtx := \<lparr>TxIn = [NewTxIn \<lparr>Hash = txSha, Index = 4\<rparr> (replicate 107 0)],
                     TxOut = [NewTxOut 100000000 (p2pkhScript hashAddr1)]\<rparr>,
          changeAddr := Some (AddressPubKeyHash hashChange), changeIdx := 1\<rparr>"
  have m: "MaxSatoshi (testEnv True) = 2100000000000000"
    by (simp add: testEnv_def)
  have a1: "list_all (\<lambda>x. 0 \<le> Amount x) (sortReverseByAmount (testEnv True) mockCredits)"
    and a2: "sumAmount (sortReverseByAmount (testEnv True) mockCredits) = 37100000"
    and a3: "length (sortReverseByAmount (testEnv True) mockCredits) = 5"
    by code_simp+
  have b1: "createTx 0 (testEnv True) (\<lambda>k. 0) mockCredits [(outAddr1, 27100000), (outAddr2, 10000000)]
       11111 1000 0 False
     = Some (Inl (InsufficientFundsError 37100000 37100000 1000))"
    by code_simp
  have c1: "inRange (testEnv True) (oneCoinCtx False) ?s"
    and c2: "atHead (oneCoinCtx False) ?s"
    and c3: "convergeStep (testEnv True) (oneCoinCtx False) 1 ?s = Continue ?s'"
    by code_simp+
  note t1 = createTx_fee_loop_terminates [where feeIncr = 1000 and e = "testEnv True"
      and outputs = "[(outAddr1, 15000000), (outAddr2, 10000000)]" and elig = mockCredits
      and rnd = "\<lambda>k. 0" and height = 11111 and acct = 0 and disallow = False, THEN conjunct1]
  note t2 = createTx_fee_loop_terminates [where n = 0 and n' = 7 and e = "testEnv True"
      and outputs = "[(outAddr1, 27100000), (outAddr2, 10000000)]" and elig = mockCredits
      and rnd = "\<lambda>k. 0" and height = 11111 and feeIncr = 1000 and acct = 0 and disallow = False
      and res = "Inl (InsufficientFundsError 37100000 37100000 1000)", THEN conjunct2, THEN conjunct1]
  note t3 = createTx_fee_loop_terminates [where e = "testEnv True" and c = "oneCoinCtx False"
      and s = ?s and s' = ?s' and r = 1, THEN conjunct2, THEN conjunct2]
  have r1: "createTx 222606 (testEnv True) (\<lambda>k. 0) mockCredits [(outAddr1, 15000000), (outAddr2, 10000000)]
     11111 1000 0 False \<noteq> None"
    using t1 m a1 a2 a3 by simp
  have r2: "createTx 7 (testEnv True) (\<lambda>k. 0) mockCredits [(outAddr1, 27100000), (outAddr2, 10000000)]
       11111 1000 0 False
     = Some (Inl (InsufficientFundsError 37100000 37100000 1000))"
    using t2 b1 by simp
  have r3: "atHead (oneCoinCtx False) ?s'"
    using t3 c1 c2 c3 by blast
  show ?thesis
    using m a1 a2 a3 b1 c1 c2 c3 r1 r2 r3 by simp
qed

text \<open>
  Claim C6 as stated fails in both of its bounds. With two old credits of 1 and 0.5
  bitcoin and one bitcoin to pay (increment 1000), the transaction is free-eligible, the
  estimate starts at 0, and the round that takes the second credit leaves it at 0. With
  an increment of 6 bitcoin and two old credits of 6 bitcoin each the loop takes three
  rounds, more than \<open>1200000000 / 600000000 = 2\<close>.
\<close>

theorem fee_estimate_not_raised_counterexample:
  "feeEstimatesOf 10 (testEnv True) (\<lambda>k. 0)
     [mockCredit 4 100000000 hashOut4 10112, mockCredit 3 50000000 hashOut3 10112]
     [(outAddr1, 100000000)] 11111 1000 0 False = [0, 0, 1000] \<and>
   feeEstimatesOf 10 (testEnv True) (\<lambda>k. 0)
     [mockCredit 4 600000000 hashOut4 10112, mockCredit 3 600000000 hashOut3 10112]
     [(outAddr1, 100000000)] 11111 600000000 0 False = [0, 0, 600000000] \<and>
   createTx 2 (testEnv True) (\<lambda>k. 0)
     [mockCredit 4 600000000 hashOut4 10112, mockCredit 3 600000000 hashOut3 10112]
     [(outAddr1, 100000000)] 11111 600000000 0 False = None \<and>
   (1200000000 :: int) = 2 * 600000000"
  by code_simp

section \<open>Properties: the test scenario\<close>

lemma addChange_mod:
  "addChange e (r mod Suc (length (TxOut tx))) tx change a = addChange e r tx change a"
  by (auto simp: addChange_def Let_def split: option.splits)

lemma withChange_mod:
  "withChange e c (r mod Suc (length (TxOut (msgtx s)))) change s = withChange e c r change s"
  by (auto simp: withChange_def addChange_mod split: option.splits)

lemma convergeStep_mod:
  "convergeStep e c (r mod Suc (length (TxOut (msgtx s)))) s = convergeStep e c r s"
  by (simp add: convergeStep_def withChange_mod)

lemma testSelect_first:
  "selectInputs (testEnv True) mockCredits (testPairs True) 11111 1000 0 False
     = Inr (testCtx, testState True)"
  by code_simp

lemma testSelect_second:
  "selectInputs (testEnv True) mockCredits (testPairs False) 11111 1000 0 False
     = Inr (testCtx, testState False)"
  by code_simp

lemma testSelect:
  "selectInputs (testEnv True) mockCredits (testPairs b) 11111 1000 0 False
     = Inr (testCtx, testState b)"
  using testSelect_first testSelect_second by (cases b) simp_all

lemma testStep_first:
  "convergeStep (testEnv True) testCtx 0 (testState True)
     = Done (testDone True (testOutsWithChange True 0) 0)"
  "convergeStep (testEnv True) testCtx 1 (testState True)
     = Done (testDone True (testOutsWithChange True 1) 1)"
  "convergeStep (testEnv True) testCtx 2 (testState True)
     = Done (testDone True (testOutsWithChange True 2) 2)"
  by code_simp+

lemma testStep_second:
  "convergeStep (testEnv True) testCtx 0 (testState False)
     = Done (testDone False (testOutsWithChange False 0) 0)"
  "convergeStep (testEnv True) testCtx 1 (testState False)
     = Done (testDone False (testOutsWithChange False 1) 1)"
  "convergeStep (testEnv True) testCtx 2 (testState False)
     = Done (testDone False (testOutsWithChange False 2) 2)"
  by code_simp+

lemma testStep:
  assumes "r < 3"
  shows "convergeStep (testEnv True) testCtx r (testState b)
     = Done (testDone b (testOutsWithChange b r) (int r))"
proof -
  from assms have "r = 0 \<or> r = 1 \<or> r = 2" by linarith
  then show ?thesis
    using testStep_first testStep_second by (cases b) auto
qed

lemma testValidate:
  "validateMsgTx (testEnv True) (msgtx (testDone b outs idx)) (inputs (testDone b outs idx)) = None"
  by (simp add: validateMsgTx_def testDone_def testState_def testInputs_def testEnv_def
      upt_conv_Cons)

lemma testBuilt_first:
  "builtAsExpected \<lparr>MsgTx = msgtx (testDone True (testOutsWithChange True 0) 0),
       ChangeAddr = changeAddr (testDone True (testOutsWithChange True 0) 0),
       ChangeIndex = changeIdx (testDone True (testOutsWithChange True 0) 0)\<rparr>"
  "builtAsExpected \<lparr>MsgTx = msgtx (testDone True (testOutsWithChange True 1) 1),
       ChangeAddr = changeAddr (testDone True (testOutsWithChange True 1) 1),
       ChangeIndex = changeIdx (testDone True (testOutsWithChange True 1) 1)\<rparr>"
  "builtAsExpected \<lparr>MsgTx = msgtx (testDone True (testOutsWithChange True 2) 2),
       ChangeAddr = changeAddr (testDone True (testOutsWithChange True 2) 2),
       ChangeIndex = changeIdx (testDone True (testOutsWithChange True 2) 2)\<rparr>"
  by code_simp+

lemma testBuilt_second:
  "builtAsExpected \<lparr>MsgTx = msgtx (testDone False (testOutsWithChange False 0) 0),
       ChangeAddr = changeAddr (testDone False (testOutsWithChange False 0) 0),
       ChangeIndex = changeIdx (testDone False (testOutsWithChange False 0) 0)\<rparr>"
  "builtAsExpected \<lparr>MsgTx = msgtx (testDone False (testOutsWithChange False 1) 1),
       ChangeAddr = changeAddr (testDone False (testOutsWithChange False 1) 1),
       ChangeIndex = changeIdx (testDone False (testOutsWithChange False 1) 1)\<rparr>"
  "builtAsExpected \<lparr>MsgTx = msgtx (testDone False (testOutsWithChange False 2) 2),
       ChangeAddr = changeAddr (testDone False (testOutsWithChange False 2) 2),
       ChangeIndex = changeIdx (testDone False (testOutsWithChange False 2) 2)\<rparr>"
  by code_simp+

lemma testBuilt:
  assumes "r < 3"
  shows "builtAsExpected \<lparr>MsgTx = msgtx (testDone b (testOutsWithChange b r) (int r)),
       ChangeAddr = changeAddr (testDone b (testOutsWithChange b r) (int r)),
       ChangeIndex = changeIdx (testDone b (testOutsWithChange b r) (int r))\<rparr>"
proof -
  from assms have "r = 0 \<or> r = 1 \<or> r = 2" by linarith
  then show ?thesis
    using testBuilt_first testBuilt_second by (cases b) auto
qed

text \<open>
  Claim C3, as the code has it. With fee increment 1000, the five credits of the test
  and the pay-list of 15000000 and 10000000 satoshi, \<open>createTx\<close> selects the three
  largest credits, 15000000, 10000000 and 9000000, and builds three outputs, the two
  payments and a change output of 8999000 satoshi at the index it returns, so that the
  fee is 1000. This holds for both orders in which the pay-list may be visited and for
  every draw of the random index.
\<close>

theorem createTx_test_scenario:
  "\<exists>r. createTx (Suc n) (testEnv True) rnd mockCredits (testPairs b) 11111 1000 0 False = Some (Inr r)
        \<and> builtAsExpected r"
proof -
  let ?r = "rnd 0 mod 3"
  let ?s' = "testDone b (testOutsWithChange b ?r) (int ?r)"
  have r3: "?r < 3" by simp
  have len: "Suc (length (TxOut (msgtx (testState b)))) = 3"
    by (simp add: testState_def testOuts_def)
  have "convergeStep (testEnv True) testCtx (rnd 0) (testState b)
          = convergeStep (testEnv True) testCtx ?r (testState b)"
    using convergeStep_mod [of "testEnv True" testCtx "rnd 0" "testState b"] len by simp
  then have st: "convergeStep (testEnv True) testCtx (rnd 0) (testState b) = Done ?s'"
    using testStep [OF r3] by simp
  have "createTx (Suc n) (testEnv True) rnd mockCredits (testPairs b) 11111 1000 0 False
          = Some (Inr \<lparr>MsgTx = msgtx ?s', ChangeAddr = changeAddr ?s', ChangeIndex = changeIdx ?s'\<rparr>)"
    using testSelect st testValidate by (simp add: createTx_def)
  with testBuilt [OF r3] show ?thesis by blast
qed

text \<open>
  Claim C3 as stated fails in its third input: it is the credit of 9000000 satoshi, the
  third largest, not the one of 3000000 (with which the change would not be 8999000).
\<close>

theorem createTx_third_input_counterexample:
  "(case createTx 1 (testEnv True) (\<lambda>k. 0) mockCredits [(outAddr1, 15000000), (outAddr2, 10000000)]
           11111 1000 0 False of
      Some (Inr r) \<Rightarrow>
        map PreviousOutPoint (TxIn (MsgTx r))
          = map OutPoint [mockCredit 4 15000000 hashOut4 (- 1), mockCredit 3 10000000 hashOut3 (- 1),
                          mockCredit 2 9000000 hashOut2 (- 1)] \<and>
        map PreviousOutPoint (TxIn (MsgTx r))
          \<noteq> map OutPoint [mockCredit 4 15000000 hashOut4 (- 1), mockCredit 3 10000000 hashOut3 (- 1),
                          mockCredit 1 3000000 hashOut1 (- 1)]
    | Some (Inl err) \<Rightarrow> False
    | None \<Rightarrow> False)"
  by code_simp

section \<open>Properties: the change index\<close>

text \<open>
  Within one round the index that \<open>addChange\<close> returns is an index of the outputs, and
  the output there is the new change output, paying the script of the change address.
\<close>

lemma addChange_index:
  "addChange e r tx change a = Inr (tx', idx) \<Longrightarrow>
     0 \<le> idx \<and> nat idx < length (TxOut tx') \<and> length (TxOut tx') = Suc (length (TxOut tx)) \<and>
     (\<exists>pkScript. PayToAddrScript e a = Some pkScript \<and> TxOut tx' ! nat idx = NewTxOut change pkScript)"
  by (auto simp: addChange_def Let_def nth_list_update split: option.splits)

text \<open>
  Claim C1 does not hold of the code. \<open>changeIdx\<close> is assigned only in a round that adds
  a change output and is not reset when a later round adds none. With one old credit of
  100001000 satoshi (free-eligible, so that the first fee estimate is 0), 100000000
  satoshi to pay and increment 1000, the first round adds a change output of 1000 at the
  drawn index and finds the fee 0 too low; the second round, at fee 1000, has no change
  left and ends the loop. \<open>createTx\<close> returns a transaction with the one payment output
  and the change index of the first round: index 1, which is no output, when the draw was
  1, and index 0, the payment to the first test address, when the draw was 0.
\<close>

theorem createTx_stale_change_index:
  "(case createTx 2 (testEnv True) (\<lambda>k. 1) [mockCredit 4 100001000 hashOut4 10112]
           [(outAddr1, 100000000)] 11111 1000 0 False of
      Some (Inr r) \<Rightarrow>
        ChangeIndex r = 1 \<and> ChangeAddr r = Some (AddressPubKeyHash hashChange) \<and>
        TxOut (MsgTx r) = [NewTxOut 100000000 (p2pkhScript hashAddr1)]
    | Some (Inl err) \<Rightarrow> False
    | None \<Rightarrow> False) \<and>
   (case createTx 2 (testEnv True) (\<lambda>k. 0) [mockCredit 4 100001000 hashOut4 10112]
           [(outAddr1, 100000000)] 11111 1000 0 False of
      Some (Inr r) \<Rightarrow>
        ChangeIndex r = 0 \<and> ChangeAddr r = Some (AddressPubKeyHash hashChange) \<and>
        TxOut (MsgTx r) = [NewTxOut 100000000 (p2pkhScript hashAddr1)] \<and>
        PayToAddrScript (testEnv True) (AddressPubKeyHash hashChange) = Some (p2pkhScript hashChange) \<and>
        TxOutPkScript (TxOut (MsgTx r) ! 0) \<noteq> p2pkhScript hashChange
    | Some (Inl err) \<Rightarrow> False
    | None \<Rightarrow> False)"
  by code_simp

end
